(* ===== verification/Csk2_Prelude.thy ===== *)
theory Csk2_Prelude
  imports Main "HOL-Library.Word" "HOL-Library.List_Lexorder"
begin

text \<open>
  Shared vocabulary of the development: the names of the model's machine types, results in the
  style of Rust's \<open>Result\<close>, the standard-library searches the crate uses
  (\<open>Iterator::position\<close>, \<open>Iterator::find\<close> through \<open>iter_mut\<close>, \<open>slice::partition_point\<close>,
  \<open>u64::checked_add\<close>, \<open>u64::saturating_add\<close>), little-endian integers, and the UTF-8 check of
  \<open>String::from_utf8\<close>, each with the lemmas the components share.

  Byte strings are lists of 8-bit words and are compared with \<open><\<close> lexicographically, as
  Rust compares \<open>[u8; N]\<close>. A Rust \<open>String\<close> is the list of its UTF-8 bytes.
\<close>

unbundle bit_operations_syntax

type_synonym byte = "8 word"
type_synonym bytes = "8 word list"
type_synonym u16 = "16 word"
type_synonym u32 = "32 word"
type_synonym u64 = "64 word"

named_theorems result_simps \<open>rewriting of results and their binds\<close>
named_theorems codec_rules \<open>what a decoder returns on the bytes of its encoder\<close>
named_theorems wf_simps \<open>well-formedness predicates of the data model\<close>

subsection \<open>Results\<close>

definition bind_r :: "'e + 'a \<Rightarrow> ('a \<Rightarrow> 'e + 'b) \<Rightarrow> 'e + 'b" where
  "bind_r r f = (case r of Inl e \<Rightarrow> Inl e | Inr v \<Rightarrow> f v)"

definition map_err :: "('e \<Rightarrow> 'f) \<Rightarrow> 'e + 'a \<Rightarrow> 'f + 'a" where
  "map_err g r = (case r of Inl e \<Rightarrow> Inl (g e) | Inr v \<Rightarrow> Inr v)"

definition ok_or :: "'a option \<Rightarrow> 'e \<Rightarrow> 'e + 'a" where
  "ok_or x e = (case x of None \<Rightarrow> Inl e | Some v \<Rightarrow> Inr v)"

definition is_ok :: "'e + 'a \<Rightarrow> bool" where
  "is_ok r = (case r of Inl _ \<Rightarrow> False | Inr _ \<Rightarrow> True)"

lemma bind_r_simps [simp, result_simps]:
  "bind_r (Inl e) f = Inl e" "bind_r (Inr v) f = f v"
  by (simp_all add: bind_r_def)

lemma bind_r_eq_Inr [result_simps]:
  "bind_r r f = Inr w \<longleftrightarrow> (\<exists>v. r = Inr v \<and> f v = Inr w)"
  by (cases r) simp_all

lemma map_err_simps [simp, result_simps]:
  "map_err g (Inl e) = Inl (g e)" "map_err g (Inr v) = Inr v"
  by (simp_all add: map_err_def)

lemma map_err_eq_Inr [result_simps]: "map_err g r = Inr v \<longleftrightarrow> r = Inr v"
  by (cases r) simp_all

lemma ok_or_simps [simp, result_simps]:
  "ok_or None e = Inl e" "ok_or (Some v) e = Inr v"
  by (simp_all add: ok_or_def)

lemma ok_or_eq_Inr [result_simps]: "ok_or x e = Inr v \<longleftrightarrow> x = Some v"
  by (cases x) simp_all

lemma if_Inl_eq_Inr [result_simps]:
  "(if b then Inl e else r) = Inr v \<longleftrightarrow> \<not> b \<and> r = Inr v"
  by simp

lemma is_ok_simps [simp]: "is_ok (Inr v)" "\<not> is_ok (Inl e)"
  by (simp_all add: is_ok_def)

lemma is_ok_unit: "is_ok r \<longleftrightarrow> r = Inr ()"
  by (cases r) simp_all

lemma is_ok_iff: "is_ok r \<longleftrightarrow> (\<exists>v. r = Inr v)"
  by (cases r) simp_all

subsection \<open>Searching and updating vectors\<close>

text \<open>\<open>Iterator::position\<close>: the index of the first element that satisfies the predicate.\<close>

fun position :: "('a \<Rightarrow> bool) \<Rightarrow> 'a list \<Rightarrow> nat option" where
  "position P [] = None"
| "position P (x # xs) = (if P x then Some 0 else map_option Suc (position P xs))"

text \<open>
  Overwriting the element \<open>iter_mut().find(P)\<close> returns; \<open>None\<close> when there is none and the
  vector is left alone.
\<close>

fun replace_first :: "('a \<Rightarrow> bool) \<Rightarrow> 'a \<Rightarrow> 'a list \<Rightarrow> 'a list option" where
  "replace_first P v [] = None"
| "replace_first P v (x # xs) =
     (if P x then Some (v # xs) else map_option ((#) x) (replace_first P v xs))"

text \<open>
  \<open>slice::partition_point\<close> on a slice that its predicate partitions (the only slices it is
  specified for): the length of the prefix that satisfies it.
\<close>

definition partition_point :: "('a \<Rightarrow> bool) \<Rightarrow> 'a list \<Rightarrow> nat" where
  "partition_point P xs = length (takeWhile P xs)"

text \<open>\<open>Vec::insert\<close> at an index that is at most the length.\<close>

definition insert_at :: "nat \<Rightarrow> 'a \<Rightarrow> 'a list \<Rightarrow> 'a list" where
  "insert_at i x xs = take i xs @ x # drop i xs"

lemma position_Some:
  "position P xs = Some i \<Longrightarrow> i < length xs \<and> P (xs ! i) \<and> (\<forall>j < i. \<not> P (xs ! j))"
proof (induction xs arbitrary: i)
  case (Cons x xs)
  then show ?case
    by (cases i) (auto split: if_splits simp: less_Suc_eq_0_disj)
qed simp

lemma position_None: "position P xs = None \<longleftrightarrow> (\<forall>x \<in> set xs. \<not> P x)"
  by (induction xs) auto

lemma position_Some_ex: "x \<in> set xs \<Longrightarrow> P x \<Longrightarrow> \<exists>i. position P xs = Some i"
  using position_None [of P xs] by (cases "position P xs") auto

lemma position_append:
  "position P (xs @ ys) = (case position P xs of Some i \<Rightarrow> Some i
     | None \<Rightarrow> map_option ((+) (length xs)) (position P ys))"
proof (induction xs)
  case Nil
  show ?case by (cases "position P ys") simp_all
next
  case (Cons x xs)
  then show ?case by (cases "position P ys") (auto split: option.splits)
qed

lemma replace_first_None: "replace_first P v xs = None \<longleftrightarrow> (\<forall>x \<in> set xs. \<not> P x)"
  by (induction xs) auto

lemma find_replace_first:
  "replace_first P v xs = Some ys \<Longrightarrow> P v \<Longrightarrow> List.find P ys = Some v"
  by (induction xs arbitrary: ys) (auto split: if_splits)

lemma find_replace_first_other:
  "replace_first P v xs = Some ys \<Longrightarrow> (\<And>x. P x \<Longrightarrow> \<not> Q x) \<Longrightarrow> P v \<Longrightarrow>
   List.find Q ys = List.find Q xs"
  by (induction xs arbitrary: ys) (auto split: if_splits)

lemma length_replace_first: "replace_first P v xs = Some ys \<Longrightarrow> length ys = length xs"
  by (induction xs arbitrary: ys) (auto split: if_splits)

lemma find_append:
  "List.find P (xs @ ys) = (case List.find P xs of None \<Rightarrow> List.find P ys | Some v \<Rightarrow> Some v)"
  by (induction xs) auto

lemma find_SomeD: "List.find P xs = Some x \<Longrightarrow> x \<in> set xs \<and> P x"
  by (induction xs) (auto split: if_splits)

lemma map_replace_first:
  "replace_first P v xs = Some ys \<Longrightarrow> (\<And>x. P x \<Longrightarrow> f x = f v) \<Longrightarrow> map f ys = map f xs"
  by (induction xs arbitrary: ys) (auto split: if_splits)

subsection \<open>Strictly sorted vectors\<close>

text \<open>
  A vector kept in ascending order without duplicates, and what the partition point of
  \<open>\<lambda>s. s < x\<close> says about it.
\<close>

abbreviation strict_sorted :: "'a::linorder list \<Rightarrow> bool" where
  "strict_sorted xs \<equiv> sorted_wrt (<) xs"

lemma partition_point_le: "partition_point P xs \<le> length xs"
  by (simp add: partition_point_def length_takeWhile_le)

lemma partition_point_before:
  "j < partition_point P xs \<Longrightarrow> P (xs ! j)"
proof (induction xs arbitrary: j)
  case (Cons x xs)
  then show ?case by (cases j) (auto simp: partition_point_def split: if_splits)
qed (simp add: partition_point_def)

lemma partition_point_at:
  "partition_point P xs < length xs \<Longrightarrow> \<not> P (xs ! partition_point P xs)"
  by (simp add: partition_point_def nth_length_takeWhile)

lemma strict_sorted_after:
  assumes "strict_sorted xs" "partition_point (\<lambda>s. s < x) xs < length xs"
  shows "x \<le> xs ! partition_point (\<lambda>s. s < x) xs"
  using partition_point_at [OF assms(2)] by simp

lemma strict_sorted_nth_less:
  "strict_sorted xs \<Longrightarrow> i < j \<Longrightarrow> j < length xs \<Longrightarrow> xs ! i < xs ! j"
  by (simp add: sorted_wrt_iff_nth_less)

lemma strict_sorted_mem_iff:
  fixes x :: "'a::linorder"
  assumes "strict_sorted xs"
  defines "p \<equiv> partition_point (\<lambda>s. s < x) xs"
  shows "x \<in> set xs \<longleftrightarrow> p < length xs \<and> xs ! p = x"
proof
  assume "x \<in> set xs"
  then obtain i where i: "i < length xs" "xs ! i = x" by (auto simp: in_set_conv_nth)
  have "\<not> i < p"
    using partition_point_before [of i "\<lambda>s. s < x" xs] i(2) by (auto simp: p_def)
  then have p: "p \<le> i" by simp
  then have lt: "p < length xs" using i(1) by simp
  have "x \<le> xs ! p" using strict_sorted_after assms(1) lt unfolding p_def by blast
  moreover have "p < i \<Longrightarrow> xs ! p < x" using strict_sorted_nth_less [OF assms(1), of p i] i by simp
  ultimately have "p = i" using p by force
  with i show "p < length xs \<and> xs ! p = x" by simp
next
  assume "p < length xs \<and> xs ! p = x"
  then show "x \<in> set xs" using nth_mem by blast
qed

lemma set_insert_at [simp]: "set (insert_at i x xs) = insert x (set xs)"
proof -
  have "set xs = set (take i xs) \<union> set (drop i xs)"
    by (metis append_take_drop_id set_append)
  then show ?thesis by (simp add: insert_at_def)
qed

lemma length_insert_at [simp]: "length (insert_at i x xs) = Suc (length xs)"
  by (simp add: insert_at_def)

lemma strict_sorted_insert:
  fixes x :: "'a::linorder"
  assumes "strict_sorted xs" "x \<notin> set xs"
  shows "strict_sorted (insert_at (partition_point (\<lambda>s. s < x) xs) x xs)"
proof -
  let ?l = "takeWhile (\<lambda>s. s < x) xs" and ?r = "dropWhile (\<lambda>s. s < x) xs"
  have xs: "xs = ?l @ ?r" by simp
  have srt: "sorted_wrt (<) (?l @ ?r)" using assms(1) by simp
  have l: "\<forall>y \<in> set ?l. y < x" by (meson set_takeWhileD)
  have r: "\<forall>y \<in> set ?r. x < y"
  proof (cases ?r)
    case (Cons z zs)
    have "\<not> z < x" using hd_dropWhile [of "\<lambda>s. s < x" xs] Cons by simp
    moreover have "z \<in> set xs" using Cons set_dropWhileD by (metis list.set_intros(1))
    ultimately have "x < z" using assms(2) by (metis linorder_cases)
    with srt Cons show ?thesis by (auto simp: sorted_wrt_append intro: less_trans)
  next
    case Nil
    then show ?thesis by (simp only: list.set ball_empty)
  qed
  have "insert_at (partition_point (\<lambda>s. s < x) xs) x xs = ?l @ x # ?r"
    unfolding insert_at_def partition_point_def
    by (metis takeWhile_eq_take dropWhile_eq_drop)
  with srt l r show ?thesis by (auto simp: sorted_wrt_append intro: less_trans)
qed

subsection \<open>Unsigned arithmetic\<close>

definition checked_add :: "u64 \<Rightarrow> u64 \<Rightarrow> u64 option" where
  "checked_add a b = (if unat a + unat b < 2 ^ 64 then Some (a + b) else None)"

definition saturating_add :: "u64 \<Rightarrow> u64 \<Rightarrow> u64" where
  "saturating_add a b = (if unat a + unat b < 2 ^ 64 then a + b else - 1)"

lemma unat_saturating_add: "unat (saturating_add a b) = min (unat a + unat b) (2 ^ 64 - 1)"
proof (cases "unat a + unat b < 2 ^ 64")
  case True
  then have "unat (a + b) = unat a + unat b" by (simp add: unat_word_ariths)
  with True show ?thesis by (simp add: saturating_add_def)
next
  case False
  moreover have "unat (- 1 :: u64) = 2 ^ 64 - 1" by (simp add: unsigned_minus_1_eq_mask mask_eq_exp_minus_1)
  ultimately show ?thesis by (simp add: saturating_add_def)
qed

lemma checked_add_Some:
  "checked_add a b = Some c \<longleftrightarrow> unat a + unat b < 2 ^ 64 \<and> unat c = unat a + unat b"
  by (auto simp: checked_add_def unat_word_ariths word_unat_eq_iff)

subsection \<open>Little-endian integers\<close>

text \<open>\<open>to_le_bytes\<close> and \<open>from_le_bytes\<close> on the value of an unsigned integer.\<close>

fun nat_to_le :: "nat \<Rightarrow> nat \<Rightarrow> bytes" where
  "nat_to_le 0 x = []"
| "nat_to_le (Suc n) x = word_of_nat (x mod 256) # nat_to_le n (x div 256)"

fun nat_from_le :: "bytes \<Rightarrow> nat" where
  "nat_from_le [] = 0"
| "nat_from_le (b # bs) = unat b + 256 * nat_from_le bs"

lemma length_nat_to_le [simp]: "length (nat_to_le n x) = n"
  by (induction n arbitrary: x) simp_all

lemma nat_from_to_le: "nat_from_le (nat_to_le n x) = x mod 256 ^ n"
proof (induction n arbitrary: x)
  case (Suc n)
  have "unat (word_of_nat (x mod 256) :: byte) = x mod 256"
    by (simp add: unat_of_nat)
  with Suc show ?case by (simp add: mod_mult2_eq)
qed simp

lemma nat_to_from_le: "nat_to_le (length bs) (nat_from_le bs) = bs"
proof (induction bs)
  case (Cons b bs)
  have "unat b < 256" using unsigned_less [of b] by simp
  with Cons show ?case by simp
qed simp

lemma nat_from_le_less: "nat_from_le bs < 256 ^ length bs"
proof (induction bs)
  case (Cons b bs)
  have "unat b < 256" using unsigned_less [of b] by simp
  moreover have "256 * Suc (nat_from_le bs) \<le> 256 * 256 ^ length bs"
    using Cons by (intro mult_le_mono) auto
  ultimately show ?case by simp
qed simp

lemma word_from_to_le:
  fixes w :: "'a::len word"
  assumes "LENGTH('a) \<le> 8 * n"
  shows "word_of_nat (nat_from_le (nat_to_le n (unat w))) = w"
proof -
  have "(256 :: nat) ^ n = 2 ^ (8 * n)" by (simp add: power_mult)
  moreover have "unat w < 2 ^ (8 * n)"
    by (rule less_le_trans [OF unsigned_less power_increasing]) (use assms in simp_all)
  ultimately show ?thesis by (simp add: nat_from_to_le)
qed

lemma word_to_from_le:
  assumes "8 * length bs = LENGTH('a::len)"
  shows "nat_to_le (length bs) (unat (word_of_nat (nat_from_le bs) :: 'a word)) = bs"
proof -
  have "(256 :: nat) ^ length bs = 2 ^ LENGTH('a)" by (simp add: power_mult flip: assms)
  then have "nat_from_le bs < 2 ^ LENGTH('a)" using nat_from_le_less [of bs] by simp
  then have "unat (word_of_nat (nat_from_le bs) :: 'a word) = nat_from_le bs"
    by (simp add: unat_of_nat)
  then show ?thesis by (simp add: nat_to_from_le)
qed

lemma nat_to_le_inj:
  "x < 256 ^ n \<Longrightarrow> y < 256 ^ n \<Longrightarrow> nat_to_le n x = nat_to_le n y \<Longrightarrow> x = y"
  by (metis nat_from_to_le mod_less)

subsection \<open>Strings\<close>

text \<open>The bytes of an ASCII literal such as \<open>b"KCS2"\<close>.\<close>

definition ascii :: "string \<Rightarrow> bytes" where
  "ascii s = map of_char s"

definition utf8_cont :: "byte \<Rightarrow> bool" where
  "utf8_cont b \<longleftrightarrow> 0x80 \<le> b \<and> b \<le> 0xBF"

text \<open>The check of \<open>String::from_utf8\<close>: no overlong forms, no surrogates, at most U+10FFFF.\<close>

fun utf8_valid :: "bytes \<Rightarrow> bool" where
  "utf8_valid [] = True"
| "utf8_valid (b # bs) =
     (if b < 0x80 then utf8_valid bs
      else if 0xC2 \<le> b \<and> b \<le> 0xDF then
        (case bs of c1 # r \<Rightarrow> utf8_cont c1 \<and> utf8_valid r | _ \<Rightarrow> False)
      else if 0xE0 \<le> b \<and> b \<le> 0xEF then
        (case bs of c1 # c2 # r \<Rightarrow>
           (if b = 0xE0 then 0xA0 \<le> c1 \<and> c1 \<le> 0xBF
            else if b = 0xED then 0x80 \<le> c1 \<and> c1 \<le> 0x9F
            else utf8_cont c1) \<and> utf8_cont c2 \<and> utf8_valid r
         | _ \<Rightarrow> False)
      else if 0xF0 \<le> b \<and> b \<le> 0xF4 then
        (case bs of c1 # c2 # c3 # r \<Rightarrow>
           (if b = 0xF0 then 0x90 \<le> c1 \<and> c1 \<le> 0xBF
            else if b = 0xF4 then 0x80 \<le> c1 \<and> c1 \<le> 0x8F
            else utf8_cont c1) \<and> utf8_cont c2 \<and> utf8_cont c3 \<and> utf8_valid r
         | _ \<Rightarrow> False)
      else False)"

lemma byte_of_char_inj: "inj (of_char :: char \<Rightarrow> byte)"
proof (rule injI)
  fix c d :: char
  assume "(of_char c :: byte) = of_char d"
  then have "unat (word_of_nat (of_char c) :: byte) = unat (word_of_nat (of_char d) :: byte)"
    by (simp only: of_nat_of_char)
  then show "c = d" by (simp add: unat_of_nat)
qed

text \<open>Two literals that differ within their common length start no common byte string.\<close>

lemma ascii_clash:
  assumes "take n s \<noteq> take n t" "n \<le> length s" "n \<le> length t"
  shows "ascii s @ x \<noteq> ascii t @ y"
proof
  assume "ascii s @ x = ascii t @ y"
  then have "take n (ascii s @ x) = take n (ascii t @ y)" by simp
  then have "map (of_char :: char \<Rightarrow> byte) (take n s) = map of_char (take n t)"
    using assms(2,3) by (simp add: ascii_def take_map)
  then show False using assms(1) by (simp add: inj_map_eq_map byte_of_char_inj)
qed

lemma utf8_valid_ascii: "(\<forall>b \<in> set bs. b < 0x80) \<Longrightarrow> utf8_valid bs"
  by (induction bs) auto

subsection \<open>Slices\<close>

lemma drop_append_length: "drop c xs = ys @ zs \<Longrightarrow> drop (c + length ys) xs = zs"
  by (metis add.commute append_eq_conv_conj drop_drop)

lemma drop_eq_append_length: "drop c xs = ys @ zs \<Longrightarrow> length ys \<le> length xs - c"
  by (metis length_append length_drop le_add1)

lemma take_drop_prefix: "n \<le> length xs - c \<Longrightarrow> \<exists>zs. drop c xs = take n (drop c xs) @ zs"
  by (metis append_take_drop_id)

end
