(* ===== verification/Csk2_Core.thy ===== *)
theory Csk2_Core
  imports Csk2_Prelude
begin

text \<open>
  The crate's \<open>src/core\<close>: the error enum, the 16-bit rights mask and the temporal policy. Both
  value types are \<open>Copy\<close>/\<open>Clone\<close> data with pure methods, so every method is a function here.
\<close>

subsection \<open>Errors\<close>

datatype csk2_error =
    InvalidCapability string
  | TemporalRejected
  | AuthorityStateErr string
  | MissingWrapper
  | Crypto string
  | Parse string

type_synonym 'a result = "csk2_error + 'a"

subsection \<open>Rights\<close>

datatype rights = Rights u16

definition READ :: rights where "READ = Rights (push_bit 0 1)"
definition WRITE :: rights where "WRITE = Rights (push_bit 1 1)"
definition APPEND :: rights where "APPEND = Rights (push_bit 2 1)"
definition DELETE :: rights where "DELETE = Rights (push_bit 3 1)"
definition DECRYPT :: rights where "DECRYPT = Rights (push_bit 4 1)"
definition DELEGATE :: rights where "DELEGATE = Rights (push_bit 5 1)"
definition EXPORT :: rights where "EXPORT = Rights (push_bit 6 1)"
definition EXECUTE :: rights where "EXECUTE = Rights (push_bit 7 1)"
definition ROTATE :: rights where "ROTATE = Rights (push_bit 8 1)"
definition SEAL :: rights where "SEAL = Rights (push_bit 9 1)"
definition UNSEAL :: rights where "UNSEAL = Rights (push_bit 10 1)"

definition rights_empty :: rights where
  "rights_empty = Rights 0"

fun rights_bits :: "rights \<Rightarrow> u16" where
  "rights_bits (Rights b) = b"

definition rights_union :: "rights \<Rightarrow> rights \<Rightarrow> rights" where
  "rights_union a b = Rights (rights_bits a OR rights_bits b)"

definition contains_all :: "rights \<Rightarrow> rights \<Rightarrow> bool" where
  "contains_all r required \<longleftrightarrow> rights_bits r AND rights_bits required = rights_bits required"

text \<open>The set of flags a mask carries: the abstraction of a rights mask.\<close>

definition right_set :: "rights \<Rightarrow> nat set" where
  "right_set r = {n. bit (rights_bits r) n}"

lemma rights_eqI: "rights_bits a = rights_bits b \<Longrightarrow> a = b"
  by (cases a; cases b) simp

lemma right_set_inj: "right_set a = right_set b \<Longrightarrow> a = b"
  by (rule rights_eqI, rule bit_eqI) (auto simp: right_set_def)

lemma contains_all_subset: "contains_all r q \<longleftrightarrow> right_set q \<subseteq> right_set r"
proof -
  have "contains_all r q \<longleftrightarrow> (\<forall>n. bit (rights_bits r AND rights_bits q) n = bit (rights_bits q) n)"
    unfolding contains_all_def by (metis bit_eqI)
  also have "\<dots> \<longleftrightarrow> right_set q \<subseteq> right_set r"
    by (auto simp: right_set_def bit_and_iff)
  finally show ?thesis .
qed

lemma right_set_union: "right_set (rights_union a b) = right_set a \<union> right_set b"
  by (auto simp: right_set_def rights_union_def bit_or_iff)

lemma right_set_empty: "right_set rights_empty = {}"
  by (simp add: right_set_def rights_empty_def)

lemma contains_all_refl [simp]: "contains_all r r"
  by (simp add: contains_all_subset)

lemma contains_all_trans: "contains_all a b \<Longrightarrow> contains_all b c \<Longrightarrow> contains_all a c"
  by (auto simp: contains_all_subset)

subsection \<open>Temporal policies\<close>

datatype temporal_policy =
    Historical u64
  | Current
  | Window u64 u64
  | ResealRequired u64

fun accepts :: "temporal_policy \<Rightarrow> u64 \<Rightarrow> u64 \<Rightarrow> bool" where
  "accepts (Historical e_hist) e_open e_seal \<longleftrightarrow> e_hist = e_seal"
| "accepts Current e_open e_seal \<longleftrightarrow> e_open \<ge> e_seal"
| "accepts (Window start stop) e_open e_seal \<longleftrightarrow> e_open \<ge> start \<and> e_open \<le> stop"
| "accepts (ResealRequired after) e_open e_seal \<longleftrightarrow> e_open \<ge> e_seal"

fun required_wrapper_epoch :: "temporal_policy \<Rightarrow> u64 \<Rightarrow> u64 \<Rightarrow> u64" where
  "required_wrapper_epoch (Historical _) e_open e_seal = e_seal"
| "required_wrapper_epoch Current e_open e_seal = e_open"
| "required_wrapper_epoch (Window _ _) e_open e_seal = e_open"
| "required_wrapper_epoch (ResealRequired after) e_open e_seal =
     (if e_open \<le> after then e_seal else e_open)"

text \<open>
  The epochs at which an object can be opened: the policy accepts the epoch and the wrapper it
  asks for is the one of that same epoch. Opening and verification both test exactly this.
\<close>

definition openable_epoch :: "temporal_policy \<Rightarrow> u64 \<Rightarrow> u64 \<Rightarrow> bool" where
  "openable_epoch p e_seal e_open \<longleftrightarrow>
     accepts p e_open e_seal \<and> required_wrapper_epoch p e_open e_seal = e_open"

lemma openable_epoch_simps:
  "openable_epoch (Historical h) e_seal e_open \<longleftrightarrow> h = e_seal \<and> e_open = e_seal"
  "openable_epoch Current e_seal e_open \<longleftrightarrow> e_seal \<le> e_open"
  "openable_epoch (Window s t) e_seal e_open \<longleftrightarrow> s \<le> e_open \<and> e_open \<le> t"
  "openable_epoch (ResealRequired a) e_seal e_open \<longleftrightarrow>
     e_open = e_seal \<or> e_seal < e_open \<and> a < e_open"
  by (auto simp: openable_epoch_def)

end
