(* ===== verification/Csk2_Codec.thy ===== *)
theory Csk2_Codec
  imports Csk2_Core
begin

text \<open>
  The crate's \<open>src/encoding/codec.rs\<close>. A \<open>put_*\<close> function appends to a \<open>Vec<u8>\<close>; its model is
  the byte string it appends. A \<open>take_*\<close> function reads from a slice at a cursor it advances;
  its model takes the slice and the cursor and returns the result together with the cursor as
  the function leaves it, also on an error.

  The locale \<open>codec\<close> is the contract a matching pair of a \<open>put_*\<close> and a \<open>take_*\<close> function
  keeps; it is interpreted below for every pair of the file, and the wire format of
  \<open>Csk2_Wire\<close> is built from the facts it gives.
\<close>

type_synonym 'a taker = "bytes \<Rightarrow> nat \<Rightarrow> 'a result \<times> nat"

subsection \<open>Encoders\<close>

definition put_u16 :: "u16 \<Rightarrow> bytes" where
  "put_u16 v = nat_to_le 2 (unat v)"

definition put_u32 :: "u32 \<Rightarrow> bytes" where
  "put_u32 v = nat_to_le 4 (unat v)"

definition put_u64 :: "u64 \<Rightarrow> bytes" where
  "put_u64 v = nat_to_le 8 (unat v)"

text \<open>\<open>bytes.len() as u32\<close> keeps the low 32 bits of the length.\<close>

definition put_bytes :: "bytes \<Rightarrow> bytes" where
  "put_bytes bs = put_u32 (word_of_nat (length bs)) @ bs"

definition put_str :: "bytes \<Rightarrow> bytes" where
  "put_str s = put_bytes s"

definition put_rights :: "rights \<Rightarrow> bytes" where
  "put_rights r = put_u16 (rights_bits r)"

fun put_temporal_policy :: "temporal_policy \<Rightarrow> bytes" where
  "put_temporal_policy (Historical e) = 0x01 # put_u64 e"
| "put_temporal_policy Current = [0x02]"
| "put_temporal_policy (Window start stop) = 0x03 # put_u64 start @ put_u64 stop"
| "put_temporal_policy (ResealRequired after) = 0x04 # put_u64 after"

subsection \<open>Decoders\<close>

text \<open>The early return of \<open>?\<close> and the final \<open>Ok\<close>, with the cursor threaded through.\<close>

definition bind_t :: "'a taker \<Rightarrow> ('a \<Rightarrow> 'b taker) \<Rightarrow> 'b taker" where
  "bind_t p f input c =
     (case p input c of (Inl e, c') \<Rightarrow> (Inl e, c') | (Inr v, c') \<Rightarrow> f v input c')"

definition return_t :: "'a \<Rightarrow> 'a taker" where
  "return_t v input c = (Inr v, c)"

definition fail_t :: "csk2_error \<Rightarrow> 'a taker" where
  "fail_t e input c = (Inl e, c)"

text \<open>A check that returns an error when it fails.\<close>

definition guard_t :: "bool \<Rightarrow> csk2_error \<Rightarrow> unit taker" where
  "guard_t b e = (if b then return_t () else fail_t e)"

definition take_u16 :: "u16 taker" where
  "take_u16 input c =
     (if length input - c < 2 then (Inl (Parse ''unexpected EOF while reading u16''), c)
      else (Inr (word_of_nat (nat_from_le (take 2 (drop c input)))), c + 2))"

definition take_u32 :: "u32 taker" where
  "take_u32 input c =
     (if length input - c < 4 then (Inl (Parse ''unexpected EOF while reading u32''), c)
      else (Inr (word_of_nat (nat_from_le (take 4 (drop c input)))), c + 4))"

definition take_u64 :: "u64 taker" where
  "take_u64 input c =
     (if length input - c < 8 then (Inl (Parse ''unexpected EOF while reading u64''), c)
      else (Inr (word_of_nat (nat_from_le (take 8 (drop c input)))), c + 8))"

text \<open>The slice \<open>input[cursor..cursor + len]\<close>, after the bounds check of both byte readers.\<close>

definition take_slice :: "nat \<Rightarrow> bytes taker" where
  "take_slice len input c =
     (if length input - c < len then (Inl (Parse ''unexpected EOF while reading bytes''), c)
      else (Inr (take len (drop c input)), c + len))"

definition take_bytes :: "bytes taker" where
  "take_bytes = bind_t take_u32 (\<lambda>len. take_slice (unat len))"

definition take_bytes_limited :: "nat \<Rightarrow> bytes taker" where
  "take_bytes_limited max_len = bind_t take_u32 (\<lambda>len.
     bind_t (guard_t (unat len \<le> max_len) (Parse ''field exceeds maximum allowed length'')) (\<lambda>_.
     take_slice (unat len)))"

definition take_fixed :: "nat \<Rightarrow> bytes taker" where
  "take_fixed n = bind_t take_bytes (\<lambda>bs.
     bind_t (guard_t (length bs = n) (Parse ''fixed-size field length mismatch'')) (\<lambda>_.
     return_t bs))"

definition take_fixed_limited :: "nat \<Rightarrow> nat \<Rightarrow> bytes taker" where
  "take_fixed_limited n max_len = bind_t (take_bytes_limited max_len) (\<lambda>bs.
     bind_t (guard_t (length bs = n) (Parse ''fixed-size field length mismatch'')) (\<lambda>_.
     return_t bs))"

definition take_str :: "bytes taker" where
  "take_str = bind_t take_bytes (\<lambda>bs.
     bind_t (guard_t (utf8_valid bs) (Parse ''invalid UTF-8 string'')) (\<lambda>_. return_t bs))"

definition take_str_limited :: "nat \<Rightarrow> bytes taker" where
  "take_str_limited max_len = bind_t (take_bytes_limited max_len) (\<lambda>bs.
     bind_t (guard_t (utf8_valid bs) (Parse ''invalid UTF-8 string'')) (\<lambda>_. return_t bs))"

definition take_rights :: "rights taker" where
  "take_rights = bind_t take_u16 (\<lambda>b. return_t (Rights b))"

definition take_policy_tag :: "byte taker" where
  "take_policy_tag input c =
     (if length input - c < 1
      then (Inl (Parse ''unexpected EOF while reading temporal policy tag''), c)
      else (Inr (input ! c), c + 1))"

definition take_temporal_policy :: "temporal_policy taker" where
  "take_temporal_policy = bind_t take_policy_tag (\<lambda>tag.
     if tag = 0x01 then bind_t take_u64 (\<lambda>e. return_t (Historical e))
     else if tag = 0x02 then return_t Current
     else if tag = 0x03 then
       bind_t take_u64 (\<lambda>start. bind_t take_u64 (\<lambda>stop. return_t (Window start stop)))
     else if tag = 0x04 then bind_t take_u64 (\<lambda>after. return_t (ResealRequired after))
     else fail_t (Parse ''unknown temporal policy tag''))"

text \<open>The loop \<open>for _ in 0..n { v.push(take(input, cursor)?) }\<close>.\<close>

fun take_many :: "nat \<Rightarrow> 'a taker \<Rightarrow> 'a list taker" where
  "take_many 0 p = return_t []"
| "take_many (Suc n) p = bind_t p (\<lambda>x. bind_t (take_many n p) (\<lambda>xs. return_t (x # xs)))"

subsection \<open>Running a decoder\<close>

text \<open>
  \<open>decodes p v bs\<close>: wherever the input continues with \<open>bs\<close>, the decoder returns \<open>v\<close> and moves
  past \<open>bs\<close>. \<open>read_at input c bs c'\<close>: the bytes between the two cursors are \<open>bs\<close>.
\<close>

definition decodes :: "'a taker \<Rightarrow> 'a \<Rightarrow> bytes \<Rightarrow> bool" where
  "decodes p v bs \<longleftrightarrow>
     (\<forall>input c rest. drop c input = bs @ rest \<longrightarrow> p input c = (Inr v, c + length bs))"

definition read_at :: "bytes \<Rightarrow> nat \<Rightarrow> bytes \<Rightarrow> nat \<Rightarrow> bool" where
  "read_at input c bs c' \<longleftrightarrow> c' = c + length bs \<and> (\<exists>rest. drop c input = bs @ rest)"

lemma read_at_Nil [simp]: "read_at input c [] c' \<longleftrightarrow> c' = c"
  by (simp add: read_at_def)

lemma read_at_trans:
  assumes "read_at input c xs c1" "read_at input c1 ys c2"
  shows "read_at input c (xs @ ys) c2"
proof -
  obtain r where "drop c input = xs @ r" using assms(1) by (auto simp: read_at_def)
  with drop_append_length [OF this] assms show ?thesis by (auto simp: read_at_def)
qed

lemma read_at_whole: "read_at input 0 bs (length input) \<longleftrightarrow> input = bs"
  by (auto simp: read_at_def)

lemma bind_t_Inr:
  "bind_t p f input c = (Inr w, c'') \<longleftrightarrow>
     (\<exists>v c'. p input c = (Inr v, c') \<and> f v input c' = (Inr w, c''))"
  by (auto simp: bind_t_def split: prod.splits sum.splits)

lemma return_t_Inr: "return_t v input c = (Inr w, c') \<longleftrightarrow> v = w \<and> c' = c"
  by (auto simp: return_t_def)

lemma fail_t_Inr: "fail_t e input c \<noteq> (Inr w, c')"
  by (simp add: fail_t_def)

lemma guard_t_Inr: "guard_t b e input c = (Inr u, c') \<longleftrightarrow> b \<and> c' = c"
  by (auto simp: guard_t_def return_t_def fail_t_def)

lemmas taker_Inr = bind_t_Inr return_t_Inr fail_t_Inr guard_t_Inr

lemma decodesD: "decodes p v bs \<Longrightarrow> drop c input = bs @ rest \<Longrightarrow> p input c = (Inr v, c + length bs)"
  by (auto simp: decodes_def)

lemma decodes_return [codec_rules]: "decodes (return_t v) v []"
  by (simp add: decodes_def return_t_def)

lemma decodes_guard [codec_rules]: "b \<Longrightarrow> decodes (guard_t b e) () []"
  by (simp add: decodes_def guard_t_def return_t_def)

lemma decodes_bind:
  assumes "decodes p v xs" "decodes (f v) w ys"
  shows "decodes (bind_t p f) w (xs @ ys)"
  unfolding decodes_def
proof (intro allI impI)
  fix input c rest
  assume d: "drop c input = (xs @ ys) @ rest"
  then have "p input c = (Inr v, c + length xs)" using assms(1) by (auto intro: decodesD)
  moreover have "drop (c + length xs) input = ys @ rest" using d by (simp add: drop_append_length)
  ultimately show "bind_t p f input c = (Inr w, c + length (xs @ ys))"
    using assms(2) by (simp add: bind_t_def decodesD add.assoc)
qed

lemma decodes_bind_empty:
  "decodes p v [] \<Longrightarrow> decodes (f v) w ys \<Longrightarrow> decodes (bind_t p f) w ys"
  using decodes_bind [of p v "[]" f w ys] by simp

lemma decodes_bind_last:
  "decodes p v xs \<Longrightarrow> decodes (f v) w [] \<Longrightarrow> decodes (bind_t p f) w xs"
  using decodes_bind [of p v xs f w "[]"] by simp

lemma decodes_whole: "decodes p v bs \<Longrightarrow> p bs 0 = (Inr v, length bs)"
  using decodesD [of p v bs 0 bs "[]"] by simp

subsection \<open>The contract of a codec\<close>

text \<open>
  \<open>take_put\<close>: the decoder reads back what the encoder wrote, whatever follows.
  \<open>take_canonical\<close>: a decoder that succeeds has read exactly the encoder's bytes for the value
  it returns, so no value has a second encoding.
\<close>

locale codec =
  fixes put :: "'a \<Rightarrow> bytes"
    and tk :: "'a taker"
    and valid :: "'a \<Rightarrow> bool"
  assumes take_put: "valid v \<Longrightarrow> decodes tk v (put v)"
    and take_canonical: "tk input c = (Inr v, c') \<Longrightarrow> valid v \<and> read_at input c (put v) c'"
begin

lemma put_prefix_inj:
  assumes "valid v" "valid w" "put v @ xs = put w @ ys"
  shows "v = w \<and> xs = ys"
proof -
  have "tk (put v @ xs) 0 = (Inr v, length (put v))"
    using decodesD [OF take_put [OF assms(1)], of 0 "put v @ xs" xs] by simp
  moreover have "tk (put v @ xs) 0 = (Inr w, length (put w))"
    using decodesD [OF take_put [OF assms(2)], of 0 "put v @ xs" ys] assms(3) by simp
  ultimately show ?thesis using assms(3) by simp
qed

lemma put_inj: "valid v \<Longrightarrow> valid w \<Longrightarrow> put v = put w \<Longrightarrow> v = w"
  using put_prefix_inj [of v w "[]" "[]"] by simp

text \<open>No encoding is a proper prefix of another.\<close>

lemma put_no_extension: "valid v \<Longrightarrow> valid w \<Longrightarrow> put v @ b # xs \<noteq> put w"
  using put_prefix_inj [of v w "b # xs" "[]"] by auto

lemma take_many_put:
  "(\<forall>v \<in> set vs. valid v) \<Longrightarrow> decodes (take_many (length vs) tk) vs (concat (map put vs))"
proof (induction vs)
  case (Cons v vs)
  then have "decodes (bind_t (take_many (length vs) tk) (\<lambda>xs. return_t (v # xs))) (v # vs)
      (concat (map put vs))"
    by (intro decodes_bind_last [where v = vs] decodes_return) simp
  with Cons.prems show ?case
    by (auto intro: decodes_bind [where v = v] take_put)
qed (simp add: decodes_return)

lemma take_many_canonical:
  "take_many n tk input c = (Inr vs, c') \<Longrightarrow>
     length vs = n \<and> (\<forall>v \<in> set vs. valid v) \<and> read_at input c (concat (map put vs)) c'"
proof (induction n arbitrary: c vs)
  case 0
  then show ?case by (auto simp: taker_Inr)
next
  case (Suc n)
  then obtain v c1 ws where v: "tk input c = (Inr v, c1)"
    and ws: "take_many n tk input c1 = (Inr ws, c')" and vs: "vs = v # ws"
    by (auto simp: taker_Inr)
  from take_canonical [OF v] Suc.IH [OF ws] vs show ?case by (auto intro: read_at_trans)
qed

end

subsection \<open>The codecs of the file\<close>

lemma decodes_le:
  assumes "\<And>input c. p input c =
     (if length input - c < n then (Inl (E c), c)
      else (Inr (word_of_nat (nat_from_le (take n (drop c input))) :: 'a::len word), c + n))"
    and "LENGTH('a) \<le> 8 * n"
  shows "decodes p v (nat_to_le n (unat v))"
  unfolding decodes_def
proof (intro allI impI)
  fix input c rest
  assume d: "drop c input = nat_to_le n (unat v) @ rest"
  have "n \<le> length input - c" using drop_eq_append_length [OF d] by simp
  with d show "p input c = (Inr v, c + length (nat_to_le n (unat v)))"
    by (simp add: assms(1) word_from_to_le [OF assms(2)])
qed

lemma canonical_le:
  assumes "(if length input - c < n then (Inl e, c)
      else (Inr (word_of_nat (nat_from_le (take n (drop c input)))), c + n)) =
      (Inr (v :: 'a::len word), c')"
    and "LENGTH('a) = 8 * n"
  shows "read_at input c (nat_to_le n (unat v)) c'"
proof -
  have n: "n \<le> length input - c" and v: "v = word_of_nat (nat_from_le (take n (drop c input)))"
    and "c' = c + n" using assms(1) by (auto split: if_splits)
  moreover have "nat_to_le n (unat v) = take n (drop c input)"
    using word_to_from_le [where 'a = 'a, of "take n (drop c input)"] n v assms(2) by simp
  ultimately show ?thesis using take_drop_prefix [OF n] by (auto simp: read_at_def)
qed

interpretation u16: codec put_u16 take_u16 "\<lambda>_. True"
proof
  show "decodes take_u16 v (put_u16 v)" for v
    unfolding put_u16_def by (rule decodes_le [OF take_u16_def]) simp
  show "True \<and> read_at input c (put_u16 v) c'" if "take_u16 input c = (Inr v, c')" for input c v c'
    using canonical_le [of input c 2 _ v c'] that unfolding take_u16_def put_u16_def by simp
qed

interpretation u32: codec put_u32 take_u32 "\<lambda>_. True"
proof
  show "decodes take_u32 v (put_u32 v)" for v
    unfolding put_u32_def by (rule decodes_le [OF take_u32_def]) simp
  show "True \<and> read_at input c (put_u32 v) c'" if "take_u32 input c = (Inr v, c')" for input c v c'
    using canonical_le [of input c 4 _ v c'] that unfolding take_u32_def put_u32_def by simp
qed

interpretation u64: codec put_u64 take_u64 "\<lambda>_. True"
proof
  show "decodes take_u64 v (put_u64 v)" for v
    unfolding put_u64_def by (rule decodes_le [OF take_u64_def]) simp
  show "True \<and> read_at input c (put_u64 v) c'" if "take_u64 input c = (Inr v, c')" for input c v c'
    using canonical_le [of input c 8 _ v c'] that unfolding take_u64_def put_u64_def by simp
qed

lemma length_put [simp]:
  "length (put_u16 v) = 2" "length (put_u32 w) = 4" "length (put_u64 x) = 8"
  "length (put_bytes bs) = 4 + length bs"
  by (simp_all add: put_u16_def put_u32_def put_u64_def put_bytes_def)

lemma decodes_slice: "decodes (take_slice (length bs)) bs bs"
  unfolding decodes_def
proof (intro allI impI)
  fix input c rest
  assume d: "drop c input = bs @ rest"
  from drop_eq_append_length [OF d] show "take_slice (length bs) input c = (Inr bs, c + length bs)"
    by (simp add: take_slice_def d)
qed

lemma take_slice_Inr:
  "take_slice n input c = (Inr bs, c') \<Longrightarrow>
   length bs = n \<and> read_at input c bs c'"
  using take_drop_prefix [of n input c] by (auto simp: take_slice_def read_at_def split: if_splits)

text \<open>The length prefix carries the length exactly when it fits into 32 bits.\<close>

lemma unat_len_u32: "n < 2 ^ 32 \<Longrightarrow> unat (word_of_nat n :: u32) = n"
  by (simp add: unat_of_nat)

interpretation bytes_limited: codec put_bytes "take_bytes_limited m"
    "\<lambda>bs. length bs < 2 ^ 32 \<and> length bs \<le> m" for m
proof
  fix v :: bytes
  assume v: "length v < 2 ^ 32 \<and> length v \<le> m"
  show "decodes (take_bytes_limited m) v (put_bytes v)"
    unfolding take_bytes_limited_def put_bytes_def
    by (rule decodes_bind [OF u32.take_put], rule TrueI, rule decodes_bind_empty [OF decodes_guard])
      (use v in \<open>simp_all add: unat_len_u32 decodes_slice\<close>)
next
  fix input c v c'
  assume "take_bytes_limited m input c = (Inr v, c')"
  then obtain len c1 where len: "take_u32 input c = (Inr len, c1)" "unat len \<le> m"
    and sl: "take_slice (unat len) input c1 = (Inr v, c')"
    by (auto simp: take_bytes_limited_def taker_Inr)
  have v: "length v = unat len" "read_at input c1 v c'" using take_slice_Inr [OF sl] by auto
  then have "len = word_of_nat (length v)" by simp
  moreover have "read_at input c (put_u32 len @ v) c'"
    using u32.take_canonical [OF len(1)] v(2) by (auto intro: read_at_trans)
  moreover have "length v < 2 ^ 32" using unsigned_less [of len] v(1) by simp
  ultimately show "(length v < 2 ^ 32 \<and> length v \<le> m) \<and> read_at input c (put_bytes v) c'"
    using v(1) len(2) by (simp add: put_bytes_def)
qed

text \<open>The unlimited reader is the limited one with the largest 32-bit limit.\<close>

lemma take_bytes_eq: "take_bytes = take_bytes_limited (2 ^ 32 - 1)"
proof -
  have g: "guard_t (unat (len :: u32) \<le> 2 ^ 32 - 1) e = return_t ()" for len e
  proof -
    have "unat len < 2 ^ 32" using unsigned_less [of len] by simp
    then show ?thesis by (simp add: guard_t_def)
  qed
  show ?thesis unfolding take_bytes_def take_bytes_limited_def g
    by (intro ext) (simp add: bind_t_def return_t_def cong: sum.case_cong split: prod.splits sum.splits)
qed

interpretation take_bytes: codec put_bytes take_bytes "\<lambda>bs. length bs < 2 ^ 32"
proof -
  have e: "(\<lambda>bs :: bytes. length bs < 2 ^ 32 \<and> length bs \<le> 2 ^ 32 - 1) = (\<lambda>bs. length bs < 2 ^ 32)"
    by (intro ext) auto
  have "codec put_bytes take_bytes (\<lambda>bs. length bs < 2 ^ 32 \<and> length bs \<le> 2 ^ 32 - 1)"
    unfolding take_bytes_eq by (rule bytes_limited.codec_axioms)
  then show "codec put_bytes take_bytes (\<lambda>bs. length bs < 2 ^ 32)" unfolding e .
qed

text \<open>A codec whose decoder rejects values outside a set is a codec of the values inside it.\<close>

lemma codec_guarded:
  assumes "codec put tk valid"
  shows "codec put (bind_t tk (\<lambda>v. bind_t (guard_t (Q v) e) (\<lambda>_. return_t v))) (\<lambda>v. valid v \<and> Q v)"
proof
  fix v
  assume "valid v \<and> Q v"
  then show "decodes (bind_t tk (\<lambda>v. bind_t (guard_t (Q v) e) (\<lambda>_. return_t v))) v (put v)"
    by (intro decodes_bind_last [OF codec.take_put [OF assms]]
          decodes_bind_empty [OF decodes_guard] decodes_return) auto
next
  fix input c v c'
  assume "bind_t tk (\<lambda>v. bind_t (guard_t (Q v) e) (\<lambda>_. return_t v)) input c = (Inr v, c')"
  then have "tk input c = (Inr v, c')" "Q v" by (auto simp: taker_Inr)
  with codec.take_canonical [OF assms] show "(valid v \<and> Q v) \<and> read_at input c (put v) c'" by blast
qed

interpretation fixed_limited: codec put_bytes "take_fixed_limited n m"
    "\<lambda>bs. (length bs < 2 ^ 32 \<and> length bs \<le> m) \<and> length bs = n" for n m
  unfolding take_fixed_limited_def by (rule codec_guarded [OF bytes_limited.codec_axioms])

interpretation take_fixed: codec put_bytes "take_fixed n"
    "\<lambda>bs. length bs < 2 ^ 32 \<and> length bs = n" for n
  unfolding take_fixed_def by (rule codec_guarded [OF take_bytes.codec_axioms])

interpretation str_limited: codec put_str "take_str_limited m"
    "\<lambda>s. (length s < 2 ^ 32 \<and> length s \<le> m) \<and> utf8_valid s" for m
  unfolding take_str_limited_def put_str_def [abs_def]
  by (rule codec_guarded [OF bytes_limited.codec_axioms])

interpretation take_str: codec put_str take_str "\<lambda>s. length s < 2 ^ 32 \<and> utf8_valid s"
  unfolding take_str_def put_str_def [abs_def]
  by (rule codec_guarded [OF take_bytes.codec_axioms])

interpretation rights: codec put_rights take_rights "\<lambda>_. True"
proof
  show "decodes take_rights v (put_rights v)" for v
    unfolding take_rights_def put_rights_def
    by (cases v) (auto intro: decodes_bind_last [OF u16.take_put] decodes_return)
  show "True \<and> read_at input c (put_rights v) c'" if "take_rights input c = (Inr v, c')" for input c v c'
    using that by (auto simp: take_rights_def put_rights_def taker_Inr dest: u16.take_canonical)
qed

subsection \<open>Temporal policies\<close>

interpretation policy_tag: codec "\<lambda>t. [t]" take_policy_tag "\<lambda>_. True"
proof
  show "decodes take_policy_tag t [t]" for t
    unfolding decodes_def
  proof (intro allI impI)
    fix input c rest
    assume d: "drop c input = [t] @ rest"
    then have "c < length input" by (metis append_Cons drop_eq_Nil leI list.distinct(1))
    with d show "take_policy_tag input c = (Inr t, c + length [t])"
      by (simp add: take_policy_tag_def flip: Cons_nth_drop_Suc)
  qed
  show "True \<and> read_at input c [t] c'" if "take_policy_tag input c = (Inr t, c')" for input c t c'
    using that by (auto simp: take_policy_tag_def read_at_def Cons_nth_drop_Suc [symmetric]
        split: if_splits)
qed

lemma decodes_policy_body:
  "decodes (bind_t take_u64 (\<lambda>e. return_t (F e))) (F e) (put_u64 e)"
  by (rule decodes_bind_last [OF u64.take_put decodes_return]) simp

lemma decodes_window_body:
  "decodes (bind_t take_u64 (\<lambda>s. bind_t take_u64 (\<lambda>t. return_t (F s t)))) (F s t)
     (put_u64 s @ put_u64 t)"
  by (rule decodes_bind [OF u64.take_put decodes_policy_body]) simp

lemmas tagged = decodes_bind [OF policy_tag.take_put [OF TrueI], simplified append_Cons append_Nil]

interpretation temporal: codec put_temporal_policy take_temporal_policy "\<lambda>_. True"
proof
  show "decodes take_temporal_policy p (put_temporal_policy p)" for p
    unfolding take_temporal_policy_def
    by (cases p) (auto intro!: tagged simp: decodes_policy_body decodes_window_body decodes_return)
  show "True \<and> read_at input c (put_temporal_policy p) c'"
    if run: "take_temporal_policy input c = (Inr p, c')" for input c p c'
  proof -
    obtain tag c1 where tag: "read_at input c [tag] c1"
      and rest: "(if tag = 0x01 then bind_t take_u64 (\<lambda>e. return_t (Historical e))
       else if tag = 0x02 then return_t Current
       else if tag = 0x03 then bind_t take_u64 (\<lambda>s. bind_t take_u64 (\<lambda>t. return_t (Window s t)))
       else if tag = 0x04 then bind_t take_u64 (\<lambda>a. return_t (ResealRequired a))
       else fail_t (Parse ''unknown temporal policy tag'')) input c1 = (Inr p, c')"
      using run policy_tag.take_canonical
      unfolding take_temporal_policy_def bind_t_Inr by blast
    obtain bs where "read_at input c1 bs c'" "put_temporal_policy p = tag # bs"
      using rest
      by (auto simp: taker_Inr dest!: u64.take_canonical split: if_splits) (metis read_at_trans)
    with tag show ?thesis using read_at_trans [of input c "[tag]" c1 bs c'] by simp
  qed
qed

subsection \<open>Counted sequences\<close>

text \<open>
  A 32-bit count followed by that many elements, with the decoder refusing a count above its
  limit: the shape of the wrapper list, of the sibling hashes and of the partial signatures.
\<close>

definition put_list :: "('a \<Rightarrow> bytes) \<Rightarrow> 'a list \<Rightarrow> bytes" where
  "put_list put xs = put_u32 (word_of_nat (length xs)) @ concat (map put xs)"

definition take_list :: "nat \<Rightarrow> csk2_error \<Rightarrow> 'a taker \<Rightarrow> 'a list taker" where
  "take_list max_len e tk = bind_t take_u32 (\<lambda>n.
     bind_t (guard_t (unat n \<le> max_len) e) (\<lambda>_. take_many (unat n) tk))"

lemma codec_list:
  assumes "codec put tk valid"
  shows "codec (put_list put) (take_list m e tk)
    (\<lambda>xs. length xs < 2 ^ 32 \<and> length xs \<le> m \<and> (\<forall>x \<in> set xs. valid x))"
proof
  fix xs
  assume xs: "length xs < 2 ^ 32 \<and> length xs \<le> m \<and> (\<forall>x \<in> set xs. valid x)"
  then have n: "unat (word_of_nat (length xs) :: u32) = length xs" by (simp add: unat_len_u32)
  show "decodes (take_list m e tk) xs (put_list put xs)"
    unfolding take_list_def put_list_def
    by (rule decodes_bind [OF u32.take_put [OF TrueI]], rule decodes_bind_empty [OF decodes_guard])
      (use xs n in \<open>auto intro: codec.take_many_put [OF assms]\<close>)
next
  fix input c xs c'
  assume "take_list m e tk input c = (Inr xs, c')"
  then obtain n c1 where n: "take_u32 input c = (Inr n, c1)" "unat n \<le> m"
    and xs: "take_many (unat n) tk input c1 = (Inr xs, c')"
    by (auto simp: take_list_def taker_Inr)
  note many = codec.take_many_canonical [OF assms xs]
  then have len: "n = word_of_nat (length xs)" by simp
  have "unat n < 2 ^ 32" using unsigned_less [of n] by simp
  with many n u32.take_canonical [OF n(1)] len
  show "(length xs < 2 ^ 32 \<and> length xs \<le> m \<and> (\<forall>x \<in> set xs. valid x)) \<and>
      read_at input c (put_list put xs) c'"
    unfolding put_list_def by (auto intro: read_at_trans)
qed

end
