(* ===== verification/Csk2_Model.thy ===== *)
theory Csk2_Model
  imports Csk2_Codec
begin

text \<open>
  The crate's data model (\<open>src/kyriotes_csk2/model.rs\<close>, with the plain proof and certificate
  structs of \<open>capability_tree.rs\<close> and \<open>authority.rs\<close> it refers to) and its hash transcripts.

  The cryptographic primitives are third-party crates, so they are a parameter: a record
  \<open>crypto\<close> with one field per function the crate calls, which every definition that uses a
  primitive takes as its first argument. What the crate relies on is stated as predicates over
  that record (\<open>aead_correct\<close>, \<open>sig_correct\<close>, \<open>dh_correct\<close>, \<open>mlkem_correct\<close>, \<open>sha_32\<close>), which appear as
  hypotheses of the theorems that need them. Fixed-size arrays are byte lists; their lengths
  are part of the well-formedness predicates. A conversion such as
  \<open>try_into().expect(..)\<close> between two array types of one length cannot fail and is the identity.

  Randomness is a tape of bytes: \<open>fill_bytes\<close> reads the next bytes of it. Every theorem holds
  for every tape.
\<close>

subsection \<open>Primitives\<close>

record crypto =
  sha256 :: "bytes \<Rightarrow> bytes"
  ed_verifying_key :: "bytes \<Rightarrow> bytes"
  ed_sign :: "bytes \<Rightarrow> bytes \<Rightarrow> bytes"
  ed_key_ok :: "bytes \<Rightarrow> bool"
  ed_verify_strict :: "bytes \<Rightarrow> bytes \<Rightarrow> bytes \<Rightarrow> bool"
  x_public :: "bytes \<Rightarrow> bytes"
  x_diffie_hellman :: "bytes \<Rightarrow> bytes \<Rightarrow> bytes"
  mlkem_ek :: "bytes \<Rightarrow> bytes"
  mlkem_ek_ok :: "bytes \<Rightarrow> bool"
  mlkem_encapsulate :: "bytes \<Rightarrow> bytes \<Rightarrow> bytes \<times> bytes"
  mlkem_decapsulate :: "bytes \<Rightarrow> bytes \<Rightarrow> bytes"
  hkdf_sha256 :: "bytes \<Rightarrow> bytes \<Rightarrow> bytes \<Rightarrow> nat \<Rightarrow> bytes"
  aead_encrypt :: "bytes \<Rightarrow> bytes \<Rightarrow> bytes \<Rightarrow> bytes \<Rightarrow> bytes option"
  aead_decrypt :: "bytes \<Rightarrow> bytes \<Rightarrow> bytes \<Rightarrow> bytes \<Rightarrow> bytes option"

text \<open>SHA-256 digests have 32 bytes.\<close>

definition sha_32 :: "crypto \<Rightarrow> bool" where
  "sha_32 C \<longleftrightarrow> (\<forall>m. length (sha256 C m) = 32)"

text \<open>Ed25519: a signature made with a seed verifies under the key derived from the seed.\<close>

definition sig_correct :: "crypto \<Rightarrow> bool" where
  "sig_correct C \<longleftrightarrow> (\<forall>sk msg. ed_key_ok C (ed_verifying_key C sk) \<and>
     ed_verify_strict C (ed_verifying_key C sk) msg (ed_sign C sk msg))"

text \<open>X25519: both sides compute one shared secret.\<close>

definition dh_correct :: "crypto \<Rightarrow> bool" where
  "dh_correct C \<longleftrightarrow>
     (\<forall>a b. x_diffie_hellman C a (x_public C b) = x_diffie_hellman C b (x_public C a))"

text \<open>
  ML-KEM-768: a generated encapsulation key is accepted and has 1184 bytes, a ciphertext has 1088,
  and decapsulation with the key's seed returns the encapsulated secret.
\<close>

definition mlkem_correct :: "crypto \<Rightarrow> bool" where
  "mlkem_correct C \<longleftrightarrow> (\<forall>seed r. mlkem_ek_ok C (mlkem_ek C seed) \<and>
     length (mlkem_ek C seed) = 1184 \<and>
     length (fst (mlkem_encapsulate C (mlkem_ek C seed) r)) = 1088 \<and>
     mlkem_decapsulate C seed (fst (mlkem_encapsulate C (mlkem_ek C seed) r)) =
       snd (mlkem_encapsulate C (mlkem_ek C seed) r))"

text \<open>
  ChaCha20-Poly1305: decryption under the same key, nonce and associated data returns the
  encrypted message.
\<close>

definition aead_correct :: "crypto \<Rightarrow> bool" where
  "aead_correct C \<longleftrightarrow> (\<forall>k n a m c. aead_encrypt C k n a m = Some c \<longrightarrow>
     aead_decrypt C k n a c = Some m)"

text \<open>
  ChaCha20-Poly1305 encrypts every message that is short enough for its 32-bit block counter.
\<close>

definition aead_accepts :: "crypto \<Rightarrow> bool" where
  "aead_accepts C \<longleftrightarrow> (\<forall>k n a m. length m < 2 ^ 37 \<longrightarrow> aead_encrypt C k n a m \<noteq> None)"

type_synonym rng = "nat \<Rightarrow> byte"

definition fill_bytes :: "nat \<Rightarrow> rng \<Rightarrow> bytes \<times> rng" where
  "fill_bytes n rng = (map rng [0..<n], \<lambda>i. rng (n + i))"

lemma length_fill_bytes [simp]: "length (fst (fill_bytes n rng)) = n"
  by (simp add: fill_bytes_def)

definition zeros :: "nat \<Rightarrow> bytes" where
  "zeros n = replicate n 0"

lemma length_zeros [simp]: "length (zeros n) = n"
  by (simp add: zeros_def)

subsection \<open>Keys\<close>

definition ML_KEM_768_EK_BYTES :: nat where "ML_KEM_768_EK_BYTES = 1184"
definition ML_KEM_768_DK_BYTES :: nat where "ML_KEM_768_DK_BYTES = 64"
definition ML_KEM_768_CT_BYTES :: nat where "ML_KEM_768_CT_BYTES = 1088"

record recipient_public_key =
  pk_classical :: bytes
  pk_pq :: "bytes option"

record recipient_secret_key =
  sk_classical :: bytes
  sk_pq :: "bytes option"

record recipient_key_pair =
  kp_public :: recipient_public_key
  kp_secret :: recipient_secret_key

definition recipient_generate :: "crypto \<Rightarrow> rng \<Rightarrow> recipient_key_pair \<times> rng" where
  "recipient_generate C rng =
     (let (secret, rng1) = fill_bytes 32 rng;
          public = x_public C secret;
          (seed, rng2) = fill_bytes ML_KEM_768_DK_BYTES rng1;
          ek = mlkem_ek C seed
      in (\<lparr>kp_public = \<lparr>pk_classical = public, pk_pq = Some ek\<rparr>,
           kp_secret = \<lparr>sk_classical = secret, sk_pq = Some seed\<rparr>\<rparr>, rng2))"

subsection \<open>Capabilities, proofs and authority states\<close>

record capability =
  cap_version :: u16
  cap_subject :: bytes
  cap_object_id :: bytes
  cap_rights :: rights
  cap_policy_hash :: bytes
  cap_epoch_start :: u64
  cap_epoch_end :: u64
  cap_delegation_depth :: u64
  cap_parent_stamp :: bytes
  cap_nonce :: bytes

record epoch_key_cert =
  ec_epoch_pk :: bytes
  ec_epoch :: u64
  ec_validity_window :: u64
  ec_signature :: bytes

record capability_inclusion_proof =
  ip_leaf_hash :: bytes
  ip_sibling_hashes :: "bytes list"
  ip_leaf_index :: u64

record capability_issuance_proof =
  is_sig :: bytes
  is_epoch_cert :: epoch_key_cert

record non_revocation_bound =
  nb_stamp :: bytes
  nb_proof :: capability_inclusion_proof

record non_revocation_witness =
  nw_stamp :: bytes
  nw_total_revoked :: u64
  nw_left :: "non_revocation_bound option"
  nw_right :: "non_revocation_bound option"

record capability_proof =
  cp_inclusion :: capability_inclusion_proof
  cp_non_revocation :: non_revocation_witness
  cp_issuance :: capability_issuance_proof

record transparency_proof =
  tp_leaf_hash :: bytes
  tp_sibling_hashes :: "bytes list"
  tp_leaf_index :: u64

record authority_state =
  st_authority_root :: bytes
  st_revocation_root :: bytes
  st_transparency_root :: bytes
  st_epoch :: u64
  st_authority_id :: bytes
  st_root_pk :: bytes
  st_revocation_count :: u64
  st_prev_epoch_hash :: bytes

record compromise_notice =
  cn_compromised_epoch_pk :: bytes
  cn_compromised_epoch :: u64
  cn_recovery_authority_root :: bytes
  cn_signature :: bytes

record open_request =
  rq_object_id :: bytes
  rq_required_rights :: rights
  rq_policy_hash :: bytes
  rq_epoch :: u64

record authority_wrapper =
  w_epoch :: u64
  w_kem_ct_classical :: bytes
  w_kem_ct_pq :: bytes
  w_wrap_nonce :: bytes
  w_wrapped_dek :: bytes
  w_context_hash :: bytes
  w_capability_stamp :: bytes
  w_transparency_proof :: transparency_proof

record csk2_object =
  o_version :: u16
  o_suite :: bytes
  o_object_id :: bytes
  o_required_rights :: rights
  o_policy_hash :: bytes
  o_seal_epoch :: u64
  o_temporal_policy :: temporal_policy
  o_authority_root :: bytes
  o_revocation_root :: bytes
  o_payload_nonce :: bytes
  o_payload_ciphertext :: bytes
  o_wrappers :: "authority_wrapper list"

text \<open>The plain structs of \<open>tsig.rs\<close>, which the wire format needs too.\<close>

record threshold_partial_sig =
  ps_signer_index :: u32
  ps_sig :: bytes

record threshold_signature_set =
  ts_threshold :: u32
  ts_partials :: "threshold_partial_sig list"

subsection \<open>Hash transcripts\<close>

definition hash_policy :: "crypto \<Rightarrow> bytes \<Rightarrow> bytes" where
  "hash_policy C policy = sha256 C (ascii ''KYRIOTES-CSK2-POLICY-v1'' @ policy)"

definition capability_transcript :: "capability \<Rightarrow> bytes" where
  "capability_transcript cap =
     put_u64 (ucast (cap_version cap)) @
     put_str (cap_subject cap) @
     put_str (cap_object_id cap) @
     put_rights (cap_rights cap) @
     put_bytes (cap_policy_hash cap) @
     put_u64 (cap_epoch_start cap) @
     put_u64 (cap_epoch_end cap) @
     put_u64 (cap_delegation_depth cap) @
     put_bytes (cap_parent_stamp cap) @
     put_bytes (cap_nonce cap)"

definition capability_leaf_hash :: "crypto \<Rightarrow> capability \<Rightarrow> bytes" where
  "capability_leaf_hash C cap =
     sha256 C (ascii ''KYRIOTES-CSK2-CAPABILITY-LEAF-v1'' @ capability_transcript cap)"

definition capability_stamp :: "crypto \<Rightarrow> capability \<Rightarrow> authority_state \<Rightarrow> bytes" where
  "capability_stamp C cap state =
     sha256 C (ascii ''KYRIOTES-CSK2-CAPABILITY-STAMP-v2'' @ capability_leaf_hash C cap @
       st_authority_id state)"

definition transparency_transcript :: "authority_state \<Rightarrow> bytes" where
  "transparency_transcript state =
     put_bytes (st_authority_root state) @
     put_bytes (st_revocation_root state) @
     put_u64 (st_epoch state) @
     put_str (st_authority_id state) @
     put_u64 (st_revocation_count state)"

definition transparency_leaf_hash :: "crypto \<Rightarrow> authority_state \<Rightarrow> bytes" where
  "transparency_leaf_hash C state =
     sha256 C (ascii ''KYRIOTES-CSK2-TRANSPARENCY-LEAF-v1'' @ transparency_transcript state)"

definition context_transcript ::
    "bytes \<Rightarrow> rights \<Rightarrow> bytes \<Rightarrow> authority_state \<Rightarrow> bytes \<Rightarrow> temporal_policy \<Rightarrow> bytes" where
  "context_transcript object_id required_rights policy_hash state cap_stamp policy =
     put_str object_id @
     put_rights required_rights @
     put_bytes policy_hash @
     put_u64 (st_epoch state) @
     put_bytes (st_authority_root state) @
     put_bytes (st_revocation_root state) @
     put_bytes (st_transparency_root state) @
     put_bytes cap_stamp @
     put_str (st_authority_id state) @
     put_temporal_policy policy"

definition context_hash ::
    "crypto \<Rightarrow> bytes \<Rightarrow> rights \<Rightarrow> bytes \<Rightarrow> authority_state \<Rightarrow> bytes \<Rightarrow> temporal_policy \<Rightarrow> bytes" where
  "context_hash C object_id required_rights policy_hash state cap_stamp policy =
     sha256 C (ascii ''KYRIOTES-CSK2-CONTEXT-v1'' @
       context_transcript object_id required_rights policy_hash state cap_stamp policy)"

subsection \<open>Well-formed data\<close>

text \<open>
  What Rust's types guarantee: array lengths and UTF-8 strings; and that a string is shorter than
  \<open>2 ^ 32\<close> bytes, so its 32-bit length prefix is exact.
\<close>

definition wf_str :: "bytes \<Rightarrow> bool" where
  "wf_str s \<longleftrightarrow> length s < 2 ^ 32 \<and> utf8_valid s"

definition wf_capability :: "capability \<Rightarrow> bool" where
  "wf_capability cap \<longleftrightarrow> wf_str (cap_subject cap) \<and> wf_str (cap_object_id cap) \<and>
     length (cap_policy_hash cap) = 32 \<and> length (cap_parent_stamp cap) = 32 \<and>
     length (cap_nonce cap) = 16"

definition wf_state :: "authority_state \<Rightarrow> bool" where
  "wf_state s \<longleftrightarrow> length (st_authority_root s) = 32 \<and> length (st_revocation_root s) = 32 \<and>
     length (st_transparency_root s) = 32 \<and> wf_str (st_authority_id s) \<and>
     length (st_root_pk s) = 32 \<and> length (st_prev_epoch_hash s) = 32"

subsection \<open>The transcripts determine their fields\<close>

lemma put_u64_eq: "put_u64 a @ x = put_u64 b @ y \<longleftrightarrow> a = b \<and> x = y"
  using u64.put_prefix_inj by auto

lemma put_rights_eq: "put_rights a @ x = put_rights b @ y \<longleftrightarrow> a = b \<and> x = y"
  using rights.put_prefix_inj by auto

lemma put_temporal_eq: "put_temporal_policy a @ x = put_temporal_policy b @ y \<longleftrightarrow> a = b \<and> x = y"
  using temporal.put_prefix_inj by auto

lemma put_bytes_eq:
  "length a < 2 ^ 32 \<Longrightarrow> length b < 2 ^ 32 \<Longrightarrow> put_bytes a @ x = put_bytes b @ y \<longleftrightarrow> a = b \<and> x = y"
  by (metis take_bytes.put_prefix_inj)

lemma put_str_eq:
  "length a < 2 ^ 32 \<Longrightarrow> length b < 2 ^ 32 \<Longrightarrow> put_str a @ x = put_str b @ y \<longleftrightarrow> a = b \<and> x = y"
  unfolding put_str_def by (rule put_bytes_eq)

lemmas put_eq = put_u64_eq put_rights_eq put_temporal_eq put_bytes_eq put_str_eq
lemmas put_eq_end = put_eq [where x = "[]" and y = "[]", simplified]

lemma ucast_u16_u64_inj: "(ucast (a :: u16) :: u64) = ucast b \<Longrightarrow> a = b"
  by (drule arg_cong [where f = "ucast :: u64 \<Rightarrow> u16"]) (simp add: ucast_up_ucast_id is_up)

lemma capability_transcript_inj:
  assumes "wf_capability c" "wf_capability d" "capability_transcript c = capability_transcript d"
  shows "c = d"
proof (rule capability.equality)
  show "cap_version c = cap_version d"
    using assms(3) unfolding capability_transcript_def put_eq by (blast intro: ucast_u16_u64_inj)
qed (use assms in \<open>simp_all add: capability_transcript_def wf_capability_def wf_str_def
    put_eq put_eq_end\<close>)

lemma context_transcript_inj:
  assumes "length oid < 2 ^ 32" "length oid' < 2 ^ 32" "length ph = 32" "length ph' = 32"
    "wf_state s" "wf_state s'" "length cs = 32" "length cs' = 32"
    and "context_transcript oid rr ph s cs p = context_transcript oid' rr' ph' s' cs' p'"
  shows "oid = oid' \<and> rr = rr' \<and> ph = ph' \<and> cs = cs' \<and> p = p' \<and> st_epoch s = st_epoch s' \<and>
    st_authority_root s = st_authority_root s' \<and> st_revocation_root s = st_revocation_root s' \<and>
    st_transparency_root s = st_transparency_root s' \<and> st_authority_id s = st_authority_id s'"
  using assms
  by (simp add: context_transcript_def wf_state_def wf_str_def put_eq put_eq_end)

lemma transparency_transcript_inj:
  assumes "wf_state s" "wf_state s'" "transparency_transcript s = transparency_transcript s'"
  shows "st_authority_root s = st_authority_root s' \<and> st_revocation_root s = st_revocation_root s' \<and>
    st_epoch s = st_epoch s' \<and> st_authority_id s = st_authority_id s' \<and>
    st_revocation_count s = st_revocation_count s'"
  using assms by (simp add: transparency_transcript_def wf_state_def wf_str_def put_eq put_eq_end)

text \<open>The stamp does not depend on the epoch or on the roots: it is stable across rotations.\<close>

lemma capability_stamp_cong:
  "st_authority_id s = st_authority_id s' \<Longrightarrow> capability_stamp C cap s = capability_stamp C cap s'"
  by (simp add: capability_stamp_def)

lemma hash_lengths:
  assumes "sha_32 C"
  shows "length (capability_leaf_hash C cap) = 32" "length (capability_stamp C cap s) = 32"
    "length (transparency_leaf_hash C s) = 32" "length (hash_policy C b) = 32"
    "length (context_hash C oid rr ph s cs p) = 32"
  using assms by (simp_all add: sha_32_def capability_leaf_hash_def capability_stamp_def
      transparency_leaf_hash_def hash_policy_def context_hash_def)

end
