(* ===== verification/Csk2_Wire.thy ===== *)
theory Csk2_Wire
  imports Csk2_Model
begin

text \<open>
  The crate's \<open>src/encoding/wire.rs\<close>: decode limits and profiles, and the wire formats of sealed
  objects, capabilities and threshold signature sets.

  An encoder that writes an element count panics when the count does not fit into 32 bits, so
  the two encoders that do return \<open>None\<close> there. Decoders are built from the \<open>take_*\<close> functions of
  \<open>Csk2_Codec\<close>; each decoder and its encoder form a codec in the sense of that theory, which
  gives the round trip, the uniqueness of encodings and the bounds on what is accepted.
\<close>

subsection \<open>Limits and profiles\<close>

record decode_limits =
  dl_max_suite_len :: nat
  dl_max_object_id_len :: nat
  dl_max_payload_ciphertext_len :: nat
  dl_max_wrappers :: nat
  dl_max_wrapped_dek_len :: nat
  dl_max_transparency_siblings :: nat

datatype decode_profile = Embedded | Strict | Server

definition strict_default :: decode_limits where
  "strict_default = \<lparr>dl_max_suite_len = 128, dl_max_object_id_len = 1024,
     dl_max_payload_ciphertext_len = 8 * 1024 * 1024, dl_max_wrappers = 1024,
     dl_max_wrapped_dek_len = 4096, dl_max_transparency_siblings = 64\<rparr>"

definition embedded_profile :: decode_limits where
  "embedded_profile = \<lparr>dl_max_suite_len = 64, dl_max_object_id_len = 256,
     dl_max_payload_ciphertext_len = 256 * 1024, dl_max_wrappers = 16,
     dl_max_wrapped_dek_len = 512, dl_max_transparency_siblings = 24\<rparr>"

definition server_profile :: decode_limits where
  "server_profile = \<lparr>dl_max_suite_len = 256, dl_max_object_id_len = 4096,
     dl_max_payload_ciphertext_len = 64 * 1024 * 1024, dl_max_wrappers = 8192,
     dl_max_wrapped_dek_len = 16 * 1024, dl_max_transparency_siblings = 256\<rparr>"

definition default_limits :: decode_limits where
  "default_limits = strict_default"

fun profile_limits :: "decode_profile \<Rightarrow> decode_limits" where
  "profile_limits Embedded = embedded_profile"
| "profile_limits Strict = strict_default"
| "profile_limits Server = server_profile"

text \<open>
  \<open>str::trim\<close> and \<open>to_ascii_lowercase\<close> work on characters, so a profile name is a list of code
  points here; \<open>trim\<close> removes the characters with the Unicode property White_Space.
\<close>

type_synonym chars = "nat list"

definition chars_of :: "string \<Rightarrow> chars" where
  "chars_of s = map of_char s"

fun as_str :: "decode_profile \<Rightarrow> chars" where
  "as_str Embedded = chars_of ''embedded''"
| "as_str Strict = chars_of ''strict''"
| "as_str Server = chars_of ''server''"

definition white_space :: "nat \<Rightarrow> bool" where
  "white_space c \<longleftrightarrow> 9 \<le> c \<and> c \<le> 13 \<or> c \<in> {32, 0x85, 0xA0, 0x1680} \<or> 0x2000 \<le> c \<and> c \<le> 0x200A \<or>
     c \<in> {0x2028, 0x2029, 0x202F, 0x205F, 0x3000}"

definition trim :: "chars \<Rightarrow> chars" where
  "trim s = rev (dropWhile white_space (rev (dropWhile white_space s)))"

definition ascii_lower :: "nat \<Rightarrow> nat" where
  "ascii_lower c = (if 65 \<le> c \<and> c \<le> 90 then c + 32 else c)"

definition from_cli_value :: "chars \<Rightarrow> decode_profile option" where
  "from_cli_value value =
     (let normalized = map ascii_lower (trim value) in
      if normalized = chars_of ''embedded'' \<or> normalized = chars_of ''embed'' then Some Embedded
      else if normalized = chars_of ''strict'' \<or> normalized = chars_of ''default'' then Some Strict
      else if normalized = chars_of ''server'' \<or> normalized = chars_of ''srv'' then Some Server
      else None)"

definition profile_from_str :: "chars \<Rightarrow> decode_profile result" where
  "profile_from_str s = ok_or (from_cli_value s) (Parse ''unknown decode profile'')"

definition decode_profile_from_env_value :: "chars option \<Rightarrow> decode_profile" where
  "decode_profile_from_env_value value =
     (case Option.bind value from_cli_value of Some profile \<Rightarrow> profile | None \<Rightarrow> Strict)"

text \<open>The process environment is a map from names to values; a missing name is the \<open>Err\<close> case.\<close>

definition decode_profile_from_env :: "(chars \<rightharpoonup> chars) \<Rightarrow> chars \<Rightarrow> decode_profile" where
  "decode_profile_from_env env var_name =
     (case env var_name of Some raw \<Rightarrow> decode_profile_from_env_value (Some raw) | None \<Rightarrow> Strict)"

subsection \<open>Sealed objects\<close>

definition MAGIC :: bytes where
  "MAGIC = ascii ''KCS2''"

definition put_transparency_proof :: "transparency_proof \<Rightarrow> bytes" where
  "put_transparency_proof p =
     put_bytes (tp_leaf_hash p) @
     put_u64 (tp_leaf_index p) @
     put_list put_bytes (tp_sibling_hashes p)"

definition put_wrapper :: "authority_wrapper \<Rightarrow> bytes" where
  "put_wrapper w =
     put_u64 (w_epoch w) @
     put_bytes (w_kem_ct_classical w) @
     put_bytes (w_kem_ct_pq w) @
     put_bytes (w_wrap_nonce w) @
     put_bytes (w_wrapped_dek w) @
     put_bytes (w_context_hash w) @
     put_bytes (w_capability_stamp w) @
     put_transparency_proof (w_transparency_proof w)"

definition put_object :: "csk2_object \<Rightarrow> bytes" where
  "put_object o' =
     put_u16 (o_version o') @
     put_str (o_suite o') @
     put_str (o_object_id o') @
     put_rights (o_required_rights o') @
     put_bytes (o_policy_hash o') @
     put_u64 (o_seal_epoch o') @
     put_temporal_policy (o_temporal_policy o') @
     put_bytes (o_authority_root o') @
     put_bytes (o_revocation_root o') @
     put_bytes (o_payload_nonce o') @
     put_bytes (o_payload_ciphertext o') @
     put_list put_wrapper (o_wrappers o')"

text \<open>\<open>u32::try_from(len).expect(..)\<close> panics on a count above \<open>u32::MAX\<close>.\<close>

definition encode_kyriotes_csk2_object :: "csk2_object \<Rightarrow> bytes option" where
  "encode_kyriotes_csk2_object o' =
     (if length (o_wrappers o') < 2 ^ 32 \<and>
         (\<forall>w \<in> set (o_wrappers o'). length (tp_sibling_hashes (w_transparency_proof w)) < 2 ^ 32)
      then Some (MAGIC @ put_object o') else None)"

definition take_transparency_proof :: "decode_limits \<Rightarrow> transparency_proof taker" where
  "take_transparency_proof limits =
     bind_t (take_fixed_limited 32 32) (\<lambda>leaf_hash.
     bind_t take_u64 (\<lambda>leaf_index.
     bind_t (take_list (dl_max_transparency_siblings limits)
        (Parse ''transparency sibling count exceeds maximum allowed'')
        (take_fixed_limited 32 32)) (\<lambda>sibling_hashes.
     return_t \<lparr>tp_leaf_hash = leaf_hash, tp_sibling_hashes = sibling_hashes,
       tp_leaf_index = leaf_index\<rparr>)))"

definition take_wrapper :: "decode_limits \<Rightarrow> authority_wrapper taker" where
  "take_wrapper limits =
     bind_t take_u64 (\<lambda>epoch.
     bind_t (take_fixed_limited 32 32) (\<lambda>kem_ct_classical.
     bind_t (take_bytes_limited (dl_max_wrapped_dek_len limits)) (\<lambda>kem_ct_pq.
     bind_t (take_fixed_limited 12 12) (\<lambda>wrap_nonce.
     bind_t (take_bytes_limited (dl_max_wrapped_dek_len limits)) (\<lambda>wrapped_dek.
     bind_t (take_fixed_limited 32 32) (\<lambda>ctx_hash.
     bind_t (take_fixed_limited 32 32) (\<lambda>cap_stamp.
     bind_t (take_transparency_proof limits) (\<lambda>proof.
     return_t \<lparr>w_epoch = epoch, w_kem_ct_classical = kem_ct_classical, w_kem_ct_pq = kem_ct_pq,
       w_wrap_nonce = wrap_nonce, w_wrapped_dek = wrapped_dek, w_context_hash = ctx_hash,
       w_capability_stamp = cap_stamp, w_transparency_proof = proof\<rparr>))))))))"

definition take_object :: "decode_limits \<Rightarrow> csk2_object taker" where
  "take_object limits =
     bind_t take_u16 (\<lambda>version.
     bind_t (take_str_limited (dl_max_suite_len limits)) (\<lambda>suite.
     bind_t (take_str_limited (dl_max_object_id_len limits)) (\<lambda>object_id.
     bind_t take_rights (\<lambda>required_rights.
     bind_t (take_fixed_limited 32 32) (\<lambda>policy_hash.
     bind_t take_u64 (\<lambda>seal_epoch.
     bind_t take_temporal_policy (\<lambda>policy.
     bind_t (take_fixed_limited 32 32) (\<lambda>authority_root.
     bind_t (take_fixed_limited 32 32) (\<lambda>revocation_root.
     bind_t (take_fixed_limited 12 12) (\<lambda>payload_nonce.
     bind_t (take_bytes_limited (dl_max_payload_ciphertext_len limits)) (\<lambda>payload_ciphertext.
     bind_t (take_list (dl_max_wrappers limits) (Parse ''wrapper count exceeds maximum allowed'')
        (take_wrapper limits)) (\<lambda>wrappers.
     return_t \<lparr>o_version = version, o_suite = suite, o_object_id = object_id,
       o_required_rights = required_rights, o_policy_hash = policy_hash,
       o_seal_epoch = seal_epoch, o_temporal_policy = policy,
       o_authority_root = authority_root, o_revocation_root = revocation_root,
       o_payload_nonce = payload_nonce, o_payload_ciphertext = payload_ciphertext,
       o_wrappers = wrappers\<rparr>))))))))))))"

text \<open>The check \<open>cursor != input.len()\<close> that ends every decoder.\<close>

definition decode_all :: "'a taker \<Rightarrow> csk2_error \<Rightarrow> bytes \<Rightarrow> nat \<Rightarrow> 'a result" where
  "decode_all tk e input c =
     (case tk input c of (Inl err, _) \<Rightarrow> Inl err
      | (Inr v, c') \<Rightarrow> if c' \<noteq> length input then Inl e else Inr v)"

definition decode_kyriotes_csk2_object_with_limits ::
    "bytes \<Rightarrow> decode_limits \<Rightarrow> csk2_object result" where
  "decode_kyriotes_csk2_object_with_limits input limits =
     (if length input < length MAGIC then Inl (Parse ''input too short for magic'')
      else if take 4 input \<noteq> MAGIC
      then Inl (Parse (''invalid Kyriot'' @ [CHR 0xC4, CHR 0x93] @ ''s-CSK2 object magic''))
      else decode_all (take_object limits)
        (Parse (''trailing bytes after Kyriot'' @ [CHR 0xC4, CHR 0x93] @ ''s-CSK2 object''))
        input 4)"

definition decode_kyriotes_csk2_object :: "bytes \<Rightarrow> csk2_object result" where
  "decode_kyriotes_csk2_object input =
     decode_kyriotes_csk2_object_with_limits input default_limits"

subsection \<open>Capabilities\<close>

definition encode_capability :: "capability \<Rightarrow> bytes" where
  "encode_capability cap =
     put_u16 (cap_version cap) @
     put_str (cap_subject cap) @
     put_str (cap_object_id cap) @
     put_rights (cap_rights cap) @
     put_bytes (cap_policy_hash cap) @
     put_u64 (cap_epoch_start cap) @
     put_u64 (cap_epoch_end cap) @
     put_u64 (cap_delegation_depth cap) @
     put_bytes (cap_parent_stamp cap) @
     put_bytes (cap_nonce cap)"

definition take_capability :: "nat \<Rightarrow> nat \<Rightarrow> capability taker" where
  "take_capability max_subject_len max_object_id_len =
     bind_t take_u16 (\<lambda>version.
     bind_t (take_str_limited max_subject_len) (\<lambda>subject.
     bind_t (take_str_limited max_object_id_len) (\<lambda>object_id.
     bind_t take_rights (\<lambda>rights.
     bind_t (take_fixed_limited 32 32) (\<lambda>policy_hash.
     bind_t take_u64 (\<lambda>epoch_start.
     bind_t take_u64 (\<lambda>epoch_end.
     bind_t take_u64 (\<lambda>delegation_depth.
     bind_t (take_fixed_limited 32 32) (\<lambda>parent_stamp.
     bind_t (take_fixed_limited 16 16) (\<lambda>nonce.
     return_t \<lparr>cap_version = version, cap_subject = subject, cap_object_id = object_id,
       cap_rights = rights, cap_policy_hash = policy_hash, cap_epoch_start = epoch_start,
       cap_epoch_end = epoch_end, cap_delegation_depth = delegation_depth,
       cap_parent_stamp = parent_stamp, cap_nonce = nonce\<rparr>))))))))))"

definition decode_capability_with_limits :: "bytes \<Rightarrow> nat \<Rightarrow> nat \<Rightarrow> capability result" where
  "decode_capability_with_limits input max_subject_len max_object_id_len =
     decode_all (take_capability max_subject_len max_object_id_len)
       (Parse ''trailing bytes after capability'') input 0"

definition decode_capability :: "bytes \<Rightarrow> capability result" where
  "decode_capability input = decode_capability_with_limits input 1024 1024"

subsection \<open>Threshold signature sets\<close>

definition put_partial_sig :: "threshold_partial_sig \<Rightarrow> bytes" where
  "put_partial_sig p = put_u32 (ps_signer_index p) @ ps_sig p"

definition encode_threshold_signature_set :: "threshold_signature_set \<Rightarrow> bytes option" where
  "encode_threshold_signature_set set' =
     (if length (ts_partials set') < 2 ^ 32
      then Some (put_u32 (ts_threshold set') @ put_list put_partial_sig (ts_partials set'))
      else None)"

text \<open>The raw 64 signature bytes, without a length prefix.\<close>

definition take_sig64 :: "bytes taker" where
  "take_sig64 input c =
     (if c + 64 > length input
      then (Inl (Parse ''unexpected EOF reading partial signature bytes''), c)
      else (Inr (take 64 (drop c input)), c + 64))"

definition take_partial_sig :: "threshold_partial_sig taker" where
  "take_partial_sig = bind_t take_u32 (\<lambda>signer_index. bind_t take_sig64 (\<lambda>sig.
     return_t \<lparr>ps_signer_index = signer_index, ps_sig = sig\<rparr>))"

definition take_signature_set :: "nat \<Rightarrow> threshold_signature_set taker" where
  "take_signature_set max_partials = bind_t take_u32 (\<lambda>threshold.
     bind_t (take_list max_partials (Parse ''partial signature count exceeds maximum allowed'')
        take_partial_sig) (\<lambda>partials.
     return_t \<lparr>ts_threshold = threshold, ts_partials = partials\<rparr>))"

definition decode_threshold_signature_set_with_max ::
    "bytes \<Rightarrow> nat \<Rightarrow> threshold_signature_set result" where
  "decode_threshold_signature_set_with_max input max_partials =
     decode_all (take_signature_set max_partials)
       (Parse ''trailing bytes after threshold signature set'') input 0"

definition decode_threshold_signature_set :: "bytes \<Rightarrow> threshold_signature_set result" where
  "decode_threshold_signature_set input = decode_threshold_signature_set_with_max input 1024"

subsection \<open>Values that fit the wire format\<close>

definition wire_bytes :: "nat \<Rightarrow> bytes \<Rightarrow> bool" where
  "wire_bytes m bs \<longleftrightarrow> length bs < 2 ^ 32 \<and> length bs \<le> m"

definition proof_fits :: "decode_limits \<Rightarrow> transparency_proof \<Rightarrow> bool" where
  "proof_fits l p \<longleftrightarrow> length (tp_leaf_hash p) = 32 \<and>
     length (tp_sibling_hashes p) < 2 ^ 32 \<and>
     length (tp_sibling_hashes p) \<le> dl_max_transparency_siblings l \<and>
     (\<forall>h \<in> set (tp_sibling_hashes p). length h = 32)"

definition wrapper_fits :: "decode_limits \<Rightarrow> authority_wrapper \<Rightarrow> bool" where
  "wrapper_fits l w \<longleftrightarrow> length (w_kem_ct_classical w) = 32 \<and>
     wire_bytes (dl_max_wrapped_dek_len l) (w_kem_ct_pq w) \<and> length (w_wrap_nonce w) = 12 \<and>
     wire_bytes (dl_max_wrapped_dek_len l) (w_wrapped_dek w) \<and> length (w_context_hash w) = 32 \<and>
     length (w_capability_stamp w) = 32 \<and> proof_fits l (w_transparency_proof w)"

definition object_fits :: "decode_limits \<Rightarrow> csk2_object \<Rightarrow> bool" where
  "object_fits l o' \<longleftrightarrow>
     wire_bytes (dl_max_suite_len l) (o_suite o') \<and> utf8_valid (o_suite o') \<and>
     wire_bytes (dl_max_object_id_len l) (o_object_id o') \<and> utf8_valid (o_object_id o') \<and>
     length (o_policy_hash o') = 32 \<and> length (o_authority_root o') = 32 \<and>
     length (o_revocation_root o') = 32 \<and> length (o_payload_nonce o') = 12 \<and>
     wire_bytes (dl_max_payload_ciphertext_len l) (o_payload_ciphertext o') \<and>
     length (o_wrappers o') < 2 ^ 32 \<and> length (o_wrappers o') \<le> dl_max_wrappers l \<and>
     (\<forall>w \<in> set (o_wrappers o'). wrapper_fits l w)"

definition capability_fits :: "nat \<Rightarrow> nat \<Rightarrow> capability \<Rightarrow> bool" where
  "capability_fits ms mo cap \<longleftrightarrow>
     wire_bytes ms (cap_subject cap) \<and> utf8_valid (cap_subject cap) \<and>
     wire_bytes mo (cap_object_id cap) \<and> utf8_valid (cap_object_id cap) \<and>
     length (cap_policy_hash cap) = 32 \<and> length (cap_parent_stamp cap) = 32 \<and>
     length (cap_nonce cap) = 16"

definition signature_set_fits :: "nat \<Rightarrow> threshold_signature_set \<Rightarrow> bool" where
  "signature_set_fits m set' \<longleftrightarrow> length (ts_partials set') < 2 ^ 32 \<and>
     length (ts_partials set') \<le> m \<and> (\<forall>p \<in> set (ts_partials set'). length (ps_sig p) = 64)"

lemmas [wf_simps] = wire_bytes_def proof_fits_def wrapper_fits_def object_fits_def
  capability_fits_def signature_set_fits_def

subsection \<open>The wire formats are codecs\<close>

lemma fixed32_valid [simp]:
  "((length (bs :: bytes) < 2 ^ 32 \<and> length bs \<le> n) \<and> length bs = n) = (length bs = n \<and> n < 2 ^ 32)"
  by auto

interpretation hash_list: codec "put_list put_bytes" "take_list m e (take_fixed_limited 32 32)"
    "\<lambda>xs. length xs < 2 ^ 32 \<and> length xs \<le> m \<and>
      (\<forall>x \<in> set xs. (length x < 2 ^ 32 \<and> length x \<le> 32) \<and> length x = 32)" for m e
  by (rule codec_list [OF fixed_limited.codec_axioms])

lemmas field_put = u16.take_put u32.take_put u64.take_put rights.take_put temporal.take_put
  str_limited.take_put fixed_limited.take_put bytes_limited.take_put hash_list.take_put

lemmas field_canonical = u16.take_canonical u32.take_canonical u64.take_canonical
  rights.take_canonical temporal.take_canonical str_limited.take_canonical
  fixed_limited.take_canonical bytes_limited.take_canonical hash_list.take_canonical

interpretation wire_proof: codec put_transparency_proof "take_transparency_proof l" "proof_fits l"
  for l
proof
  fix p
  assume "proof_fits l p"
  then show "decodes (take_transparency_proof l) p (put_transparency_proof p)"
    unfolding take_transparency_proof_def put_transparency_proof_def
    by (cases p, intro decodes_bind decodes_bind_last)
      (auto simp: wf_simps intro: decodes_return intro!: field_put)
next
  fix input c p c'
  assume "take_transparency_proof l input c = (Inr p, c')"
  then show "proof_fits l p \<and> read_at input c (put_transparency_proof p) c'"
    unfolding take_transparency_proof_def put_transparency_proof_def
    by (auto simp: taker_Inr wf_simps dest!: field_canonical) ((erule read_at_trans)+, assumption)
qed

interpretation wire_wrapper: codec put_wrapper "take_wrapper l" "wrapper_fits l" for l
proof
  fix w
  assume "wrapper_fits l w"
  then show "decodes (take_wrapper l) w (put_wrapper w)"
    unfolding take_wrapper_def put_wrapper_def
    by (cases w, intro decodes_bind decodes_bind_last)
      (auto simp: wrapper_fits_def wire_bytes_def intro: decodes_return
        intro!: field_put wire_proof.take_put)
next
  fix input c w c'
  assume "take_wrapper l input c = (Inr w, c')"
  then show "wrapper_fits l w \<and> read_at input c (put_wrapper w) c'"
    unfolding take_wrapper_def put_wrapper_def
    by (auto simp: taker_Inr wrapper_fits_def wire_bytes_def
        dest!: field_canonical wire_proof.take_canonical) ((erule read_at_trans)+, assumption)
qed

interpretation wrapper_list: codec "put_list put_wrapper" "take_list m e (take_wrapper l)"
    "\<lambda>xs. length xs < 2 ^ 32 \<and> length xs \<le> m \<and> (\<forall>x \<in> set xs. wrapper_fits l x)" for m e l
  by (rule codec_list [OF wire_wrapper.codec_axioms])

interpretation wire_object: codec put_object "take_object l" "object_fits l" for l
proof
  fix o'
  assume "object_fits l o'"
  then show "decodes (take_object l) o' (put_object o')"
    unfolding take_object_def put_object_def
    by (cases o', intro decodes_bind decodes_bind_last)
      (auto simp: object_fits_def wire_bytes_def intro: decodes_return
        intro!: field_put wrapper_list.take_put)
next
  fix input c o' c'
  assume "take_object l input c = (Inr o', c')"
  then show "object_fits l o' \<and> read_at input c (put_object o') c'"
    unfolding take_object_def put_object_def
    by (auto simp: taker_Inr object_fits_def wire_bytes_def
        dest!: field_canonical wrapper_list.take_canonical) ((erule read_at_trans)+, assumption)
qed

interpretation wire_capability: codec encode_capability "take_capability ms mo" "capability_fits ms mo"
  for ms mo
proof
  fix cap
  assume "capability_fits ms mo cap"
  then show "decodes (take_capability ms mo) cap (encode_capability cap)"
    unfolding take_capability_def encode_capability_def
    by (cases cap, intro decodes_bind decodes_bind_last)
      (auto simp: capability_fits_def wire_bytes_def intro: decodes_return intro!: field_put)
next
  fix input c cap c'
  assume "take_capability ms mo input c = (Inr cap, c')"
  then show "capability_fits ms mo cap \<and> read_at input c (encode_capability cap) c'"
    unfolding take_capability_def encode_capability_def
    by (auto simp: taker_Inr capability_fits_def wire_bytes_def dest!: field_canonical)
      ((erule read_at_trans)+, assumption)
qed

interpretation sig64: codec "\<lambda>s. s" take_sig64 "\<lambda>s. length s = 64"
proof
  show "decodes take_sig64 s s" if "length s = 64" for s
    using that drop_eq_append_length by (fastforce simp: decodes_def take_sig64_def)
  show "length s = 64 \<and> read_at input c s c'" if "take_sig64 input c = (Inr s, c')" for input c s c'
    using that take_drop_prefix [of 64 input c]
    by (auto simp: take_sig64_def read_at_def split: if_splits)
qed

interpretation partial_sig: codec put_partial_sig take_partial_sig "\<lambda>p. length (ps_sig p) = 64"
proof
  show "decodes take_partial_sig p (put_partial_sig p)" if "length (ps_sig p) = 64" for p
    using that unfolding take_partial_sig_def put_partial_sig_def
    by (cases p, intro decodes_bind decodes_bind_last)
      (auto intro: decodes_return intro!: u32.take_put sig64.take_put)
  show "length (ps_sig p) = 64 \<and> read_at input c (put_partial_sig p) c'"
    if "take_partial_sig input c = (Inr p, c')" for input c p c'
    using that unfolding take_partial_sig_def put_partial_sig_def
    by (auto simp: taker_Inr dest!: u32.take_canonical sig64.take_canonical intro: read_at_trans)
qed

interpretation signature_set: codec
    "\<lambda>t. put_u32 (ts_threshold t) @ put_list put_partial_sig (ts_partials t)"
    "take_signature_set m" "signature_set_fits m" for m
proof -
  note list = codec_list [OF partial_sig.codec_axioms]
  show "codec (\<lambda>t. put_u32 (ts_threshold t) @ put_list put_partial_sig (ts_partials t))
    (take_signature_set m) (signature_set_fits m)"
  proof
    fix t
    assume "signature_set_fits m t"
    then show "decodes (take_signature_set m) t
        (put_u32 (ts_threshold t) @ put_list put_partial_sig (ts_partials t))"
      unfolding take_signature_set_def
      by (cases t, intro decodes_bind decodes_bind_last)
        (auto simp: signature_set_fits_def intro: decodes_return
          intro!: u32.take_put codec.take_put [OF list])
  next
    fix input c t c'
    assume "take_signature_set m input c = (Inr t, c')"
    then show "signature_set_fits m t \<and>
        read_at input c (put_u32 (ts_threshold t) @ put_list put_partial_sig (ts_partials t)) c'"
      unfolding take_signature_set_def
      by (auto simp: taker_Inr signature_set_fits_def dest!: u32.take_canonical
          codec.take_canonical [OF list] intro: read_at_trans)
  qed
qed

subsection \<open>Whole messages\<close>

context codec
begin

lemma decode_all_put:
  assumes "valid v" "drop c input = put v" "c \<le> length input"
  shows "decode_all tk e input c = Inr v"
proof -
  have "length (put v) = length input - c" by (metis assms(2) length_drop)
  with decodesD [OF take_put [OF assms(1)], of c input "[]"] assms show ?thesis
    by (simp add: decode_all_def)
qed

lemma decode_all_canonical:
  assumes "decode_all tk e input c = Inr v" "c \<le> length input"
  shows "valid v \<and> drop c input = put v"
proof -
  from assms(1) have "tk input c = (Inr v, length input)"
    by (auto simp: decode_all_def split: prod.splits sum.splits if_splits)
  from take_canonical [OF this] show ?thesis using assms(2)
    by (auto simp: read_at_def)
      (metis add_diff_cancel_left' append_self_conv length_0_conv length_append length_drop
        add_diff_cancel_left')
qed

end

lemma encode_object_fits:
  "object_fits l o' \<Longrightarrow> encode_kyriotes_csk2_object o' = Some (MAGIC @ put_object o')"
  by (auto simp: encode_kyriotes_csk2_object_def wf_simps)

lemma length_MAGIC [simp]: "length MAGIC = 4"
  by (simp add: MAGIC_def ascii_def)

lemma decode_object_iff:
  "decode_kyriotes_csk2_object_with_limits bs l = Inr o' \<longleftrightarrow>
     object_fits l o' \<and> encode_kyriotes_csk2_object o' = Some bs"
proof
  assume d: "decode_kyriotes_csk2_object_with_limits bs l = Inr o'"
  then have m: "take 4 bs = MAGIC" "4 \<le> length bs" and
    a: "\<exists>e. decode_all (take_object l) e bs 4 = Inr o'"
    by (auto simp: decode_kyriotes_csk2_object_with_limits_def split: if_splits)
  then have "object_fits l o' \<and> drop 4 bs = put_object o'"
    using wire_object.decode_all_canonical by blast
  with m show "object_fits l o' \<and> encode_kyriotes_csk2_object o' = Some bs"
    by (metis append_take_drop_id encode_object_fits)
next
  assume f: "object_fits l o' \<and> encode_kyriotes_csk2_object o' = Some bs"
  then have "bs = MAGIC @ put_object o'" using encode_object_fits by force
  with f show "decode_kyriotes_csk2_object_with_limits bs l = Inr o'"
    by (simp add: decode_kyriotes_csk2_object_with_limits_def wire_object.decode_all_put)
qed

lemma decode_capability_iff:
  "decode_capability_with_limits bs ms mo = Inr cap \<longleftrightarrow> capability_fits ms mo cap \<and> encode_capability cap = bs"
  unfolding decode_capability_with_limits_def
  using wire_capability.decode_all_canonical [of ms mo _ bs 0 cap]
    wire_capability.decode_all_put [of ms mo cap 0 bs] by auto

lemma decode_signature_set_iff:
  "decode_threshold_signature_set_with_max bs m = Inr t \<longleftrightarrow>
     signature_set_fits m t \<and> encode_threshold_signature_set t = Some bs"
  unfolding decode_threshold_signature_set_with_max_def encode_threshold_signature_set_def
  using signature_set.decode_all_canonical [of m _ bs 0 t] signature_set.decode_all_put [of m t 0 bs]
  by (auto simp: signature_set_fits_def)

lemma object_fits_mono:
  assumes "object_fits l o'" "dl_max_suite_len l \<le> dl_max_suite_len m"
    "dl_max_object_id_len l \<le> dl_max_object_id_len m"
    "dl_max_payload_ciphertext_len l \<le> dl_max_payload_ciphertext_len m"
    "dl_max_wrappers l \<le> dl_max_wrappers m" "dl_max_wrapped_dek_len l \<le> dl_max_wrapped_dek_len m"
    "dl_max_transparency_siblings l \<le> dl_max_transparency_siblings m"
  shows "object_fits m o'"
proof -
  have "wrapper_fits m w" if "wrapper_fits l w" for w
    using that assms(6,7) by (auto simp: wrapper_fits_def proof_fits_def wire_bytes_def)
  with assms show ?thesis by (auto simp: object_fits_def wire_bytes_def)
qed

text \<open>An encoding has one value, whichever limits it is decoded under.\<close>

lemma object_encoding_inj:
  assumes "object_fits l v" "object_fits m w" "encode_kyriotes_csk2_object v = encode_kyriotes_csk2_object w"
  shows "v = w"
proof -
  let ?M = "\<lparr>dl_max_suite_len = max (dl_max_suite_len l) (dl_max_suite_len m),
    dl_max_object_id_len = max (dl_max_object_id_len l) (dl_max_object_id_len m),
    dl_max_payload_ciphertext_len = max (dl_max_payload_ciphertext_len l) (dl_max_payload_ciphertext_len m),
    dl_max_wrappers = max (dl_max_wrappers l) (dl_max_wrappers m),
    dl_max_wrapped_dek_len = max (dl_max_wrapped_dek_len l) (dl_max_wrapped_dek_len m),
    dl_max_transparency_siblings = max (dl_max_transparency_siblings l) (dl_max_transparency_siblings m)\<rparr>"
  have "object_fits ?M v" "object_fits ?M w"
    using object_fits_mono [OF assms(1), of ?M] object_fits_mono [OF assms(2), of ?M] by simp_all
  then show ?thesis
    using wire_object.put_inj [of ?M v w] encode_object_fits [OF assms(1)] encode_object_fits [OF assms(2)] assms(3)
    by simp
qed

subsection \<open>Profile names\<close>

lemma trim_padding:
  assumes "\<forall>c \<in> set l \<union> set r. white_space c" "\<forall>c \<in> set s. \<not> white_space c"
  shows "trim (l @ s @ r) = s"
proof -
  have drop: "dropWhile white_space (l @ xs) = dropWhile white_space xs"
    if "\<forall>c \<in> set l. white_space c" for l xs using that by (simp add: dropWhile_append2)
  have keep: "dropWhile white_space (xs @ ys) = xs @ ys"
    if "xs \<noteq> []" "\<forall>c \<in> set xs. \<not> white_space c" for xs ys using that by (cases xs) simp_all
  show ?thesis
  proof (cases "s = []")
    case True
    have "dropWhile white_space (l @ r) = []" using assms(1) by (simp only: dropWhile_eq_Nil_conv set_append)
    then show ?thesis unfolding True trim_def append_Nil by (simp only: rev.simps dropWhile.simps)
  next
    case False
    then show ?thesis
      using assms drop [of l "s @ r"] keep [of s r] drop [of "rev r" "rev s"] keep [of "rev s" "[]"]
      by (simp add: trim_def)
  qed
qed

lemma profile_letters: "c \<in> set (as_str p) \<Longrightarrow> 97 \<le> c \<and> c \<le> 122"
  by (cases p) (auto simp: chars_of_def)

lemma lower_letter: "97 \<le> ascii_lower c \<Longrightarrow> ascii_lower c \<le> 122 \<Longrightarrow> \<not> white_space c"
  by (auto simp: ascii_lower_def white_space_def split: if_splits)

lemma profile_lookup:
  assumes "map ascii_lower (trim v) = as_str p"
  shows "from_cli_value v = Some p"
  unfolding from_cli_value_def Let_def assms by (cases p) (simp_all add: chars_of_def)

lemma profile_name_parse:
  assumes "\<forall>c \<in> set l \<union> set r. white_space c" "map ascii_lower s = as_str p"
  shows "from_cli_value (l @ s @ r) = Some p"
proof (rule profile_lookup)
  have "\<not> white_space c" if "c \<in> set s" for c
  proof -
    have "ascii_lower c \<in> set (as_str p)" using that assms(2) by (metis imageI set_map)
    then show ?thesis using profile_letters lower_letter by blast
  qed
  then have "trim (l @ s @ r) = s" by (intro trim_padding assms(1)) blast
  then show "map ascii_lower (trim (l @ s @ r)) = as_str p" using assms(2) by simp
qed

text \<open>
  A profile is recognised by its name in any mixture of cases and with any white space around
  it, and an environment variable that is missing or holds another word selects the strict profile.
\<close>

lemma profile_names_are_recognised:
  assumes "\<forall>c \<in> set l \<union> set r. white_space c" "map ascii_lower name = as_str p"
  shows "from_cli_value (l @ name @ r) = Some p \<and>
    decode_profile_from_env (env(var \<mapsto> l @ name @ r)) var = p \<and>
    decode_profile_from_env (env(var := None)) var = Strict"
  using profile_name_parse [OF assms] by (simp add: decode_profile_from_env_def decode_profile_from_env_value_def)

end
