(* ===== verification/Csk2_Merkle.thy ===== *)
theory Csk2_Merkle
  imports Csk2_Model
begin

text \<open>
  The Merkle trees of the crate: \<open>merkle_root\<close>, the proof generator and the proof walk of
  \<open>src/kyriotes_csk2/transparency.rs\<close>, and the second generator and walk that
  \<open>src/kyriotes_csk2/capability_tree.rs\<close> has of its own (here with the suffix \<open>_cap\<close>).

  The loops over a level and over the levels are the recursive functions \<open>merkle_next\<close>,
  \<open>merkle_levels\<close> and \<open>merkle_siblings\<close>; \<open>pair_up\<close> is the reference they are related to.
  Completeness (a generated proof verifies) is unconditional and is the law of the locale
  \<open>merkle_scheme\<close>, which both copies satisfy. Binding (a proof of the full depth that verifies
  is for the leaf at its index) needs that the node hashes involved do not collide; the
  hypothesis names the finite set of node inputs it speaks about.
\<close>

subsection \<open>Nodes and roots\<close>

definition LONE_NODE_SENTINEL :: bytes where
  "LONE_NODE_SENTINEL = replicate 32 0xff"

definition hash_transparency_node :: "crypto \<Rightarrow> bytes \<Rightarrow> bytes \<Rightarrow> bytes" where
  "hash_transparency_node C left right =
     sha256 C (ascii ''KYRIOTES-CSK2-TRANSPARENCY-NODE-v1'' @ left @ right)"

text \<open>The inner loop \<open>while i < level.len()\<close> that builds the next level.\<close>

function merkle_next :: "crypto \<Rightarrow> bytes list \<Rightarrow> nat \<Rightarrow> bytes list \<Rightarrow> bytes list" where
  "merkle_next C level i next_level =
     (if i < length level then
        let left = level ! i;
            right = (if i + 1 < length level then level ! (i + 1) else LONE_NODE_SENTINEL)
        in merkle_next C level (i + 2) (next_level @ [hash_transparency_node C left right])
      else next_level)"
  by pat_completeness auto
termination
  by (relation "measure (\<lambda>(C, level, i, next_level). length level - i)") auto

declare merkle_next.simps [simp del]

text \<open>The reference for one level: neighbours are hashed together, a lone last node with the sentinel.\<close>

fun pair_up :: "crypto \<Rightarrow> bytes list \<Rightarrow> bytes list" where
  "pair_up C [] = []"
| "pair_up C [x] = [hash_transparency_node C x LONE_NODE_SENTINEL]"
| "pair_up C (x # y # xs) = hash_transparency_node C x y # pair_up C xs"

lemma pair_up_drop:
  "i < length level \<Longrightarrow> pair_up C (drop i level) =
     hash_transparency_node C (level ! i)
       (if i + 1 < length level then level ! (i + 1) else LONE_NODE_SENTINEL)
     # pair_up C (drop (i + 2) level)"
  by (cases "i + 1 < length level") (simp_all flip: Cons_nth_drop_Suc)

lemma merkle_next_pair_up: "merkle_next C level i acc = acc @ pair_up C (drop i level)"
proof (induction C level i acc rule: merkle_next.induct)
  case (1 C level i acc)
  show ?case
  proof (cases "i < length level")
    case True
    with 1 [OF True refl refl] show ?thesis
      by (simp add: merkle_next.simps [of C level i acc] pair_up_drop Let_def)
  next
    case False
    then show ?thesis by (simp add: merkle_next.simps [of C level i acc])
  qed
qed

lemma merkle_next_eq: "merkle_next C level 0 [] = pair_up C level"
  by (simp add: merkle_next_pair_up)

lemma length_pair_up: "length (pair_up C xs) = (length xs + 1) div 2"
  by (induction C xs rule: pair_up.induct) simp_all

lemma nth_pair_up:
  "i < length xs \<Longrightarrow> pair_up C xs ! (i div 2) =
     (let j = 2 * (i div 2) in hash_transparency_node C (xs ! j)
       (if j + 1 < length xs then xs ! (j + 1) else LONE_NODE_SENTINEL))"
proof (induction C xs arbitrary: i rule: pair_up.induct)
  case (3 C x y xs)
  show ?case
  proof (cases "i < 2")
    case True
    then show ?thesis by (simp add: Let_def)
  next
    case False
    then have "i div 2 = Suc ((i - 2) div 2)" by simp
    with 3 False show ?thesis by (simp add: Let_def)
  qed
qed (simp_all add: Let_def)

text \<open>The outer loop \<open>while level.len() > 1\<close>.\<close>

function merkle_levels :: "crypto \<Rightarrow> bytes list \<Rightarrow> bytes" where
  "merkle_levels C level =
     (if length level > 1 then merkle_levels C (merkle_next C level 0 []) else level ! 0)"
  by pat_completeness auto
termination
  by (relation "measure (\<lambda>(C, level). length level)") (auto simp: merkle_next_eq length_pair_up)

declare merkle_levels.simps [simp del]

definition merkle_root :: "crypto \<Rightarrow> bytes list \<Rightarrow> bytes" where
  "merkle_root C leaves = (if leaves = [] then zeros 32 else merkle_levels C leaves)"

subsection \<open>Proofs of \<open>transparency.rs\<close>\<close>

definition merkle_sibling_is_right :: "u64 \<Rightarrow> bool" where
  "merkle_sibling_is_right index \<longleftrightarrow> index AND 1 = 0"

definition next_merkle_index :: "u64 \<Rightarrow> u64" where
  "next_merkle_index index = drop_bit 1 index"

function merkle_siblings :: "crypto \<Rightarrow> bytes list \<Rightarrow> nat \<Rightarrow> bytes list \<Rightarrow> bytes list" where
  "merkle_siblings C level idx siblings =
     (if length level > 1 then
        merkle_siblings C (merkle_next C level 0 [])
          (unat (next_merkle_index (word_of_nat idx)))
          (siblings @ [if merkle_sibling_is_right (word_of_nat idx)
             then (if idx + 1 < length level then level ! (idx + 1) else LONE_NODE_SENTINEL)
             else level ! (idx - 1)])
      else siblings)"
  by pat_completeness auto
termination
  by (relation "measure (\<lambda>(C, level, idx, siblings). length level)")
    (auto simp: merkle_next_eq length_pair_up)

declare merkle_siblings.simps [simp del]

definition merkle_proof_for_index :: "crypto \<Rightarrow> bytes list \<Rightarrow> nat \<Rightarrow> bytes list" where
  "merkle_proof_for_index C leaves index =
     (if leaves = [] \<or> index \<ge> length leaves then [] else merkle_siblings C leaves index [])"

fun merkle_root_from_proof :: "crypto \<Rightarrow> bytes \<Rightarrow> bytes list \<Rightarrow> u64 \<Rightarrow> bytes" where
  "merkle_root_from_proof C acc [] idx = acc"
| "merkle_root_from_proof C acc (sibling # siblings) idx =
     merkle_root_from_proof C
       (if merkle_sibling_is_right idx then hash_transparency_node C acc sibling
        else hash_transparency_node C sibling acc) siblings (next_merkle_index idx)"

subsection \<open>Proofs of \<open>capability_tree.rs\<close>\<close>

function merkle_siblings_cap :: "crypto \<Rightarrow> bytes list \<Rightarrow> nat \<Rightarrow> bytes list \<Rightarrow> bytes list" where
  "merkle_siblings_cap C level idx siblings =
     (if length level > 1 then
        merkle_siblings_cap C (merkle_next C level 0 []) (idx div 2)
          (siblings @ [if idx mod 2 = 0
             then (if idx + 1 < length level then level ! (idx + 1) else LONE_NODE_SENTINEL)
             else level ! (idx - 1)])
      else siblings)"
  by pat_completeness auto
termination
  by (relation "measure (\<lambda>(C, level, idx, siblings). length level)")
    (auto simp: merkle_next_eq length_pair_up)

declare merkle_siblings_cap.simps [simp del]

definition merkle_proof_for_index_cap :: "crypto \<Rightarrow> bytes list \<Rightarrow> nat \<Rightarrow> bytes list" where
  "merkle_proof_for_index_cap C leaves index =
     (if leaves = [] \<or> index \<ge> length leaves then [] else merkle_siblings_cap C leaves index [])"

definition merkle_sibling_is_right_child :: "u64 \<Rightarrow> bool" where
  "merkle_sibling_is_right_child leaf_index \<longleftrightarrow> leaf_index AND 1 = 0"

definition next_merkle_index_cap :: "u64 \<Rightarrow> u64" where
  "next_merkle_index_cap leaf_index = drop_bit 1 leaf_index"

fun merkle_walk_cap :: "crypto \<Rightarrow> bytes \<Rightarrow> bytes list \<Rightarrow> u64 \<Rightarrow> bytes" where
  "merkle_walk_cap C acc [] idx = acc"
| "merkle_walk_cap C acc (sibling # siblings) idx =
     merkle_walk_cap C
       (if merkle_sibling_is_right_child idx then hash_transparency_node C acc sibling
        else hash_transparency_node C sibling acc) siblings (next_merkle_index_cap idx)"

definition verify_merkle_path :: "crypto \<Rightarrow> bytes \<Rightarrow> bytes list \<Rightarrow> u64 \<Rightarrow> bytes \<Rightarrow> bool" where
  "verify_merkle_path C leaf sibling_hashes leaf_index root \<longleftrightarrow>
     merkle_walk_cap C leaf sibling_hashes leaf_index = root"

subsection \<open>The two copies agree\<close>

lemma sibling_is_right_even: "merkle_sibling_is_right idx \<longleftrightarrow> even (unat idx)"
  unfolding merkle_sibling_is_right_def and_one_eq
  by (simp add: word_unat_eq_iff unat_mod_distrib even_iff_mod_2_eq_zero)

lemma unat_next_index: "unat (next_merkle_index idx) = unat idx div 2"
  unfolding next_merkle_index_def unat_drop_bit_eq by (simp add: drop_bit_eq_div)

lemma walk_cap_eq: "merkle_walk_cap C leaf sibs idx = merkle_root_from_proof C leaf sibs idx"
  by (induction sibs arbitrary: leaf idx)
    (simp_all add: merkle_sibling_is_right_child_def merkle_sibling_is_right_def
      next_merkle_index_cap_def next_merkle_index_def)

lemma unat_index: "i < 2 ^ 64 \<Longrightarrow> unat (word_of_nat i :: u64) = i"
  by (simp add: unat_of_nat)

lemma siblings_cap_eq:
  "idx < 2 ^ 64 \<Longrightarrow> merkle_siblings_cap C level idx sibs = merkle_siblings C level idx sibs"
proof (induction C level idx sibs rule: merkle_siblings_cap.induct)
  case (1 C level idx sibs)
  have "idx div 2 < 2 ^ 64" using 1(2) by simp
  with 1 show ?case
    by (simp add: merkle_siblings_cap.simps [of C level idx] merkle_siblings.simps [of C level idx]
        sibling_is_right_even unat_next_index unat_index even_iff_mod_2_eq_zero)
qed

lemma proof_cap_eq:
  "length leaves \<le> 2 ^ 64 \<Longrightarrow>
   merkle_proof_for_index_cap C leaves i = merkle_proof_for_index C leaves i"
  by (simp add: merkle_proof_for_index_cap_def merkle_proof_for_index_def siblings_cap_eq)

subsection \<open>Generated proofs verify\<close>

lemma siblings_acc: "merkle_siblings C level idx acc = acc @ merkle_siblings C level idx []"
proof (induction C level arbitrary: idx acc rule: merkle_levels.induct)
  case (1 C level)
  show ?case
  proof (cases "length level > 1")
    case True
    show ?thesis
      by (subst (1 2) merkle_siblings.simps, subst (1 2) 1 [OF True]) (simp add: True)
  next
    case False
    then show ?thesis by (simp add: merkle_siblings.simps [of C level idx])
  qed
qed

text \<open>The sibling of index \<open>i\<close> at one level, and the node above the two.\<close>

definition level_sibling :: "bytes list \<Rightarrow> nat \<Rightarrow> bytes" where
  "level_sibling level i =
     (if even i then (if i + 1 < length level then level ! (i + 1) else LONE_NODE_SENTINEL)
      else level ! (i - 1))"

definition level_parent :: "crypto \<Rightarrow> nat \<Rightarrow> bytes \<Rightarrow> bytes \<Rightarrow> bytes" where
  "level_parent C i x s = (if even i then hash_transparency_node C x s
     else hash_transparency_node C s x)"

lemma pair_up_parent:
  "i < length level \<Longrightarrow>
   pair_up C level ! (i div 2) = level_parent C i (level ! i) (level_sibling level i)"
  by (cases "even i")
    (auto simp: nth_pair_up level_parent_def level_sibling_def Let_def elim: oddE)

lemma siblings_step:
  "length level > 1 \<Longrightarrow> i < length level \<Longrightarrow> length level \<le> 2 ^ 64 \<Longrightarrow>
   merkle_siblings C level i [] =
     level_sibling level i # merkle_siblings C (pair_up C level) (i div 2) []"
  by (subst merkle_siblings.simps, subst siblings_acc)
    (simp add: merkle_next_eq sibling_is_right_even unat_next_index unat_index level_sibling_def)

lemma root_step:
  "length level > 1 \<Longrightarrow> merkle_levels C level = merkle_levels C (pair_up C level)"
  by (subst merkle_levels.simps) (simp add: merkle_next_eq)

lemma walk_step:
  "merkle_root_from_proof C x (s # sibs) idx =
   merkle_root_from_proof C (level_parent C (unat idx) x s) sibs (next_merkle_index idx)"
  by (simp add: level_parent_def sibling_is_right_even)

lemma walk_siblings:
  "unat idx < length level \<Longrightarrow> length level \<le> 2 ^ 64 \<Longrightarrow>
   merkle_root_from_proof C (level ! unat idx) (merkle_siblings C level (unat idx) []) idx =
   merkle_levels C level"
proof (induction C level arbitrary: idx rule: merkle_levels.induct)
  case (1 C level)
  show ?case
  proof (cases "length level > 1")
    case True
    have le: "length (pair_up C level) \<le> 2 ^ 64" and
      lt: "unat (next_merkle_index idx) < length (pair_up C level)"
      using 1(2,3) by (auto simp: length_pair_up unat_next_index)
    from 1(1) [OF True, unfolded merkle_next_eq, OF lt le] True 1(2,3) show ?thesis
      by (simp add: siblings_step walk_step pair_up_parent root_step unat_next_index
          del: merkle_root_from_proof.simps)
  next
    case False
    then have "unat idx = 0" using 1(2) by linarith
    with False show ?thesis by (simp add: merkle_siblings.simps merkle_levels.simps)
  qed
qed

lemma proof_for_index_walk:
  assumes "i < length leaves" "length leaves \<le> 2 ^ 64"
  shows "merkle_root_from_proof C (leaves ! i) (merkle_proof_for_index C leaves i) (word_of_nat i) =
    merkle_root C leaves"
proof -
  have "unat (word_of_nat i :: u64) = i" using assms by (intro unat_index) linarith
  with walk_siblings [of "word_of_nat i" leaves C] assms show ?thesis
    by (auto simp: merkle_proof_for_index_def merkle_root_def)
qed

text \<open>
  The interface both users of the trees rely on: a generator whose proofs the walk takes to the
  root.
\<close>

locale merkle_scheme =
  fixes root :: "bytes list \<Rightarrow> bytes"
    and prove :: "bytes list \<Rightarrow> nat \<Rightarrow> bytes list"
    and walk :: "bytes \<Rightarrow> bytes list \<Rightarrow> u64 \<Rightarrow> bytes"
  assumes walk_prove: "i < length leaves \<Longrightarrow> length leaves \<le> 2 ^ 64 \<Longrightarrow>
    walk (leaves ! i) (prove leaves i) (word_of_nat i) = root leaves"
begin

lemma walk_position:
  assumes "position (\<lambda>h. h = leaf) leaves = Some i" "length leaves \<le> 2 ^ 64"
  shows "walk leaf (prove leaves i) (word_of_nat i) = root leaves"
  using walk_prove [of i leaves] position_Some [OF assms(1)] assms(2) by auto

lemma walk_member:
  assumes "leaf \<in> set leaves" "length leaves \<le> 2 ^ 64"
  shows "\<exists>i < length leaves. walk leaf (prove leaves i) (word_of_nat i) = root leaves"
  using walk_prove assms by (auto simp: in_set_conv_nth)

end

interpretation transparency_merkle:
  merkle_scheme "merkle_root C" "merkle_proof_for_index C" "merkle_root_from_proof C" for C
  by unfold_locales (rule proof_for_index_walk)

interpretation capability_merkle:
  merkle_scheme "merkle_root C" "merkle_proof_for_index_cap C" "merkle_walk_cap C" for C
  by unfold_locales (simp add: walk_cap_eq proof_cap_eq proof_for_index_walk)

subsection \<open>Binding\<close>

text \<open>The pairs of nodes hashed at one level, in the whole tree, and along a proof.\<close>

fun level_pairs :: "bytes list \<Rightarrow> (bytes \<times> bytes) set" where
  "level_pairs [] = {}"
| "level_pairs [x] = {(x, LONE_NODE_SENTINEL)}"
| "level_pairs (x # y # xs) = insert (x, y) (level_pairs xs)"

function tree_pairs :: "crypto \<Rightarrow> bytes list \<Rightarrow> (bytes \<times> bytes) set" where
  "tree_pairs C level =
     (if length level > 1 then level_pairs level \<union> tree_pairs C (pair_up C level) else {})"
  by pat_completeness auto
termination
  by (relation "measure (\<lambda>(C, level). length level)") (auto simp: length_pair_up)

declare tree_pairs.simps [simp del]

fun path_pairs :: "crypto \<Rightarrow> bytes \<Rightarrow> bytes list \<Rightarrow> u64 \<Rightarrow> (bytes \<times> bytes) set" where
  "path_pairs C acc [] idx = {}"
| "path_pairs C acc (s # sibs) idx =
     insert (if even (unat idx) then (acc, s) else (s, acc))
       (path_pairs C (level_parent C (unat idx) acc s) sibs (next_merkle_index idx))"

definition node_collision_free :: "crypto \<Rightarrow> (bytes \<times> bytes) set \<Rightarrow> bool" where
  "node_collision_free C P \<longleftrightarrow> inj_on (\<lambda>(l, r). hash_transparency_node C l r) P"

text \<open>The number of levels above the leaves of a tree with \<open>n\<close> leaves.\<close>

fun merkle_depth :: "nat \<Rightarrow> nat" where
  "merkle_depth n = (if n > 1 then Suc (merkle_depth ((n + 1) div 2)) else 0)"

declare merkle_depth.simps [simp del]

lemma level_pairs_nth:
  "i < length level \<Longrightarrow>
   (if even i then (level ! i, level_sibling level i) else (level_sibling level i, level ! i))
     \<in> level_pairs level"
proof (induction level arbitrary: i rule: level_pairs.induct)
  case (3 x y xs)
  show ?case
  proof (cases "i < 2")
    case True
    then have "i = 0 \<or> i = 1" by linarith
    then show ?thesis by (auto simp: level_sibling_def)
  next
    case False
    then obtain j where i: "i = Suc (Suc j)" by (metis add_2_eq_Suc le_Suc_ex not_less)
    with 3(2) have "j < length xs" by simp
    from 3(1) [OF this] i show ?thesis by (auto simp: level_sibling_def elim: oddE split: if_splits)
  qed
qed (auto simp: level_sibling_def)

lemma level_parent_hash:
  "level_parent C i x s = (\<lambda>(l, r). hash_transparency_node C l r) (if even i then (x, s) else (s, x))"
  by (simp add: level_parent_def)

lemma walk_binding:
  assumes "unat idx < length level" "length level \<le> 2 ^ 64"
    and "length sibs = merkle_depth (length level)"
    and "node_collision_free C (tree_pairs C level \<union> path_pairs C x sibs idx)"
    and "merkle_root_from_proof C x sibs idx = merkle_levels C level"
  shows "x = level ! unat idx \<and> sibs = merkle_siblings C level (unat idx) []"
  using assms
proof (induction C level arbitrary: idx x sibs rule: merkle_levels.induct)
  case (1 C level)
  show ?case
  proof (cases "length level > 1")
    case True
    let ?i = "unat idx" and ?up = "pair_up C level"
    obtain s ss where sibs: "sibs = s # ss"
      using 1(4) True by (cases sibs) (auto simp: merkle_depth.simps [of "length level"])
    let ?p = "level_parent C ?i x s"
    have tree: "tree_pairs C level = level_pairs level \<union> tree_pairs C ?up"
      using True by (subst tree_pairs.simps) simp
    have free: "node_collision_free C (tree_pairs C ?up \<union> path_pairs C ?p ss (next_merkle_index idx))"
      using 1(5) unfolding node_collision_free_def tree sibs by (auto elim: inj_on_subset)
    have "?p = ?up ! unat (next_merkle_index idx) \<and>
        ss = merkle_siblings C ?up (unat (next_merkle_index idx)) []"
    proof (rule 1(1) [OF True, unfolded merkle_next_eq])
      show "unat (next_merkle_index idx) < length ?up" "length ?up \<le> 2 ^ 64"
        using 1(2,3) by (auto simp: length_pair_up unat_next_index)
      show "length ss = merkle_depth (length ?up)"
        using 1(4) True by (simp add: sibs length_pair_up merkle_depth.simps [of "length level"])
      show "merkle_root_from_proof C ?p ss (next_merkle_index idx) = merkle_levels C ?up"
        using 1(6) True by (simp add: sibs walk_step root_step del: merkle_root_from_proof.simps)
    qed (rule free)
    then have up: "?p = level_parent C ?i (level ! ?i) (level_sibling level ?i)"
      and ss: "ss = merkle_siblings C ?up (?i div 2) []"
      using pair_up_parent [OF 1(2), of C] by (simp_all add: unat_next_index)
    have "(if even ?i then (x, s) else (s, x)) =
        (if even ?i then (level ! ?i, level_sibling level ?i) else (level_sibling level ?i, level ! ?i))"
      using 1(5) up level_pairs_nth [OF 1(2)] unfolding level_parent_hash node_collision_free_def
      by (elim inj_onD) (auto simp: sibs tree)
    then have "x = level ! ?i \<and> s = level_sibling level ?i" by (auto split: if_splits)
    with ss sibs True 1(2,3) show ?thesis by (simp add: siblings_step)
  next
    case False
    then have "unat idx = 0" "sibs = []" using 1(2,4) by (auto simp: merkle_depth.simps)
    with False 1(6) show ?thesis by (simp add: merkle_siblings.simps merkle_levels.simps)
  qed
qed

lemma merkle_binding:
  assumes "unat idx < length leaves" "length leaves \<le> 2 ^ 64"
    and "length sibs = merkle_depth (length leaves)"
    and "node_collision_free C (tree_pairs C leaves \<union> path_pairs C x sibs idx)"
    and "merkle_root_from_proof C x sibs idx = merkle_root C leaves"
  shows "x = leaves ! unat idx"
  using walk_binding [OF assms(1-4)] assms(1,5) by (auto simp: merkle_root_def split: if_splits)

subsection \<open>Membership\<close>

text \<open>
  A proof that is not known to have the depth of the tree still shows membership of its leaf, as
  long as leaves cannot be confused with nodes: neither a leaf of the tree, nor the proof's leaf,
  nor the two reserved values is the hash of one of the pairs involved.
\<close>

definition proof_pairs :: "crypto \<Rightarrow> bytes list \<Rightarrow> bytes \<Rightarrow> bytes list \<Rightarrow> u64 \<Rightarrow> (bytes \<times> bytes) set" where
  "proof_pairs C leaves x sibs idx = tree_pairs C leaves \<union> path_pairs C x sibs idx"

definition leaves_separated ::
    "crypto \<Rightarrow> bytes list \<Rightarrow> bytes \<Rightarrow> bytes list \<Rightarrow> u64 \<Rightarrow> bool" where
  "leaves_separated C leaves x sibs idx \<longleftrightarrow>
     (\<forall>p \<in> proof_pairs C leaves x sibs idx. (\<lambda>(l, r). hash_transparency_node C l r) p \<notin>
        insert x (set leaves \<union> {LONE_NODE_SENTINEL, zeros 32}))"

lemma separatedD:
  "leaves_separated C leaves x sibs idx \<Longrightarrow> p \<in> proof_pairs C leaves x sibs idx \<Longrightarrow>
   (\<lambda>(l, r). hash_transparency_node C l r) p \<notin> insert x (set leaves \<union> {LONE_NODE_SENTINEL, zeros 32})"
  by (auto simp: leaves_separated_def)

fun level_at :: "crypto \<Rightarrow> bytes list \<Rightarrow> nat \<Rightarrow> bytes list" where
  "level_at C leaves 0 = leaves"
| "level_at C leaves (Suc k) = pair_up C (level_at C leaves k)"

lemma pair_up_level_pairs: "h \<in> set (pair_up C level) \<Longrightarrow>
    \<exists>p \<in> level_pairs level. h = (\<lambda>(l, r). hash_transparency_node C l r) p"
  by (induction C level rule: pair_up.induct) auto

lemma level_pairs_members:
  "(l, r) \<in> level_pairs level \<Longrightarrow> l \<in> set level \<and> (r \<in> set level \<or> r = LONE_NODE_SENTINEL)"
  by (induction level rule: level_pairs.induct) auto

lemma level_pairs_tree_pairs:
  "length (level_at C leaves k) > 1 \<Longrightarrow> level_pairs (level_at C leaves k) \<subseteq> tree_pairs C leaves"
proof (induction k arbitrary: leaves)
  case 0
  then show ?case by (auto simp: tree_pairs.simps [of C leaves])
next
  case (Suc k)
  have shift: "level_at C leaves (Suc j) = level_at C (pair_up C leaves) j" for j
    by (induction j) simp_all
  have "length (level_at C ls j) > 1 \<Longrightarrow> length ls > 1" for ls j
    by (induction j) (auto simp: length_pair_up)
  from this [of leaves "Suc k"] have "length leaves > 1" using Suc.prems by blast
  moreover have "level_pairs (level_at C leaves (Suc k)) \<subseteq> tree_pairs C (pair_up C leaves)"
    using Suc.IH [of "pair_up C leaves"] Suc.prems unfolding shift .
  ultimately show ?case by (subst tree_pairs.simps) auto
qed

lemma level_at_root: "leaves \<noteq> [] \<Longrightarrow>
    \<exists>k. level_at C leaves k = [merkle_levels C leaves] \<and> (\<forall>j < k. length (level_at C leaves j) > 1)"
proof (induction C leaves rule: merkle_levels.induct)
  case (1 C leaves)
  show ?case
  proof (cases "length leaves > 1")
    case True
    have shift: "level_at C leaves (Suc j) = level_at C (pair_up C leaves) j" for j
      by (induction j) simp_all
    have "pair_up C leaves \<noteq> []" using True by (auto simp: length_pair_up simp flip: length_0_conv)
    then obtain k where k: "level_at C (pair_up C leaves) k = [merkle_levels C leaves]"
        "\<forall>j < k. length (level_at C (pair_up C leaves) j) > 1"
      using 1(1) [OF True] root_step [OF True] by (auto simp: merkle_next_eq)
    have "length (level_at C leaves j) > 1" if "j < Suc k" for j
      using that k(2) True by (cases j) (auto simp: shift simp del: level_at.simps(2))
    with k(1) shift show ?thesis by (intro exI [of _ "Suc k"]) auto
  next
    case False
    with 1(2) have "leaves = [leaves ! 0]" by (cases leaves) auto
    then show ?thesis using False by (intro exI [of _ 0]) (simp add: merkle_levels.simps)
  qed
qed

fun walk_index :: "bytes list \<Rightarrow> u64 \<Rightarrow> u64" where
  "walk_index [] idx = idx"
| "walk_index (s # sibs) idx = walk_index sibs (next_merkle_index idx)"

lemma walk_snoc:
  "merkle_root_from_proof C x (sibs @ [s]) idx =
     level_parent C (unat (walk_index sibs idx)) (merkle_root_from_proof C x sibs idx) s"
  by (induction sibs arbitrary: x idx) (simp_all add: level_parent_def sibling_is_right_even)

lemma path_pairs_snoc:
  "path_pairs C x (sibs @ [s]) idx = insert
     (if even (unat (walk_index sibs idx)) then (merkle_root_from_proof C x sibs idx, s)
      else (s, merkle_root_from_proof C x sibs idx)) (path_pairs C x sibs idx)"
  by (induction sibs arbitrary: x idx)
    (auto simp: level_parent_def sibling_is_right_even insert_commute)

lemma walk_is_hash: "sibs \<noteq> [] \<Longrightarrow> \<exists>p \<in> path_pairs C x sibs idx.
    merkle_root_from_proof C x sibs idx = (\<lambda>(l, r). hash_transparency_node C l r) p"
  by (cases sibs rule: rev_cases) (auto simp: walk_snoc path_pairs_snoc level_parent_def)

lemma walk_not_reserved:
  assumes "leaves_separated C leaves x sibs idx" "v \<in> {LONE_NODE_SENTINEL, zeros 32}" "x \<noteq> v"
  shows "merkle_root_from_proof C x sibs idx \<noteq> v"
proof (cases "sibs = []")
  case False
  then obtain p where "p \<in> path_pairs C x sibs idx"
      "merkle_root_from_proof C x sibs idx = (\<lambda>(l, r). hash_transparency_node C l r) p"
    using walk_is_hash by blast
  with separatedD [OF assms(1), of p] assms(2) show ?thesis by (auto simp: proof_pairs_def)
qed (use assms in simp)

lemma walk_in_level:
  assumes "merkle_root_from_proof C x sibs idx \<in> set (level_at C leaves k)"
    and "\<forall>j < k. length (level_at C leaves j) > 1" "x \<noteq> LONE_NODE_SENTINEL"
    and "node_collision_free C (proof_pairs C leaves x sibs idx)"
    and "leaves_separated C leaves x sibs idx"
  shows "x \<in> set leaves"
  using assms
proof (induction sibs arbitrary: k rule: rev_induct)
  case Nil
  show ?case
  proof (cases k)
    case (Suc j)
    then obtain p where "p \<in> level_pairs (level_at C leaves j)"
        "x = (\<lambda>(l, r). hash_transparency_node C l r) p"
      using Nil(1) pair_up_level_pairs by fastforce
    moreover from this have "p \<in> proof_pairs C leaves x [] idx"
      using Nil(2) level_pairs_tree_pairs [of C leaves j] Suc by (auto simp: proof_pairs_def)
    ultimately show ?thesis using separatedD [OF Nil(5), of p] by blast
  qed (use Nil in simp)
next
  case (snoc s sibs)
  let ?v = "merkle_root_from_proof C x sibs idx"
  let ?pair = "if even (unat (walk_index sibs idx)) then (?v, s) else (s, ?v)"
  have root: "merkle_root_from_proof C x (sibs @ [s]) idx = (\<lambda>(l, r). hash_transparency_node C l r) ?pair"
    by (simp add: walk_snoc level_parent_def)
  have pair: "?pair \<in> proof_pairs C leaves x (sibs @ [s]) idx"
    by (simp add: proof_pairs_def path_pairs_snoc)
  have sub: "proof_pairs C leaves x sibs idx \<subseteq> proof_pairs C leaves x (sibs @ [s]) idx"
    by (auto simp: proof_pairs_def path_pairs_snoc)
  show ?case
  proof (cases k)
    case 0
    then show ?thesis using snoc.prems(1) separatedD [OF snoc.prems(5) pair] root by auto
  next
    case (Suc j)
    then obtain p where p: "p \<in> level_pairs (level_at C leaves j)"
        "(\<lambda>(l, r). hash_transparency_node C l r) ?pair = (\<lambda>(l, r). hash_transparency_node C l r) p"
      using snoc.prems(1) pair_up_level_pairs [of _ C "level_at C leaves j"]
      unfolding root Suc level_at.simps by blast
    moreover have "p \<in> proof_pairs C leaves x (sibs @ [s]) idx"
      using p(1) level_pairs_tree_pairs [of C leaves j] snoc.prems(2) Suc by (auto simp: proof_pairs_def)
    ultimately have "?pair = p"
      using snoc.prems(4) pair unfolding node_collision_free_def by (blast dest: inj_onD)
    then have "?v \<in> set (level_at C leaves j) \<or> ?v = LONE_NODE_SENTINEL"
      using p(1) level_pairs_members [of "fst p" "snd p"] by (auto split: if_splits)
    moreover have sep: "leaves_separated C leaves x sibs idx"
      using snoc.prems(5) sub by (auto simp: leaves_separated_def)
    moreover have "node_collision_free C (proof_pairs C leaves x sibs idx)"
      using snoc.prems(4) sub unfolding node_collision_free_def by (rule inj_on_subset)
    ultimately show ?thesis
      using snoc.IH [of j] snoc.prems(2,3) Suc walk_not_reserved [OF sep] by auto
  qed
qed

lemma merkle_membership:
  assumes "merkle_root_from_proof C x sibs idx = merkle_root C leaves"
    and "x \<notin> {LONE_NODE_SENTINEL, zeros 32}"
    and "node_collision_free C (proof_pairs C leaves x sibs idx)"
    and "leaves_separated C leaves x sibs idx"
  shows "x \<in> set leaves"
proof (cases "leaves = []")
  case True
  then have "merkle_root_from_proof C x sibs idx = zeros 32" using assms(1) by (simp add: merkle_root_def)
  then show ?thesis using assms(2) walk_not_reserved [OF assms(4), of "zeros 32"] by auto
next
  case False
  then obtain k where "level_at C leaves k = [merkle_levels C leaves]"
      "\<forall>j < k. length (level_at C leaves j) > 1" using level_at_root by blast
  with assms False show ?thesis
    by (intro walk_in_level [of C x sibs idx leaves k]) (simp_all add: merkle_root_def)
qed

subsection \<open>Membership of hashed leaves\<close>

text \<open>
  When the leaves are digests of messages in another domain than the nodes, all that is needed
  is that SHA-256 has no collision on the messages involved and gives none of the two reserved
  values for them.
\<close>

definition node_input :: "bytes \<times> bytes \<Rightarrow> bytes" where
  "node_input p = ascii ''KYRIOTES-CSK2-TRANSPARENCY-NODE-v1'' @ fst p @ snd p"

definition sha_safe :: "crypto \<Rightarrow> bytes set \<Rightarrow> bool" where
  "sha_safe C M \<longleftrightarrow> inj_on (sha256 C) M \<and> sha256 C ` M \<inter> {LONE_NODE_SENTINEL, zeros 32} = {}"

lemma node_input_hash: "(\<lambda>(l, r). hash_transparency_node C l r) p = sha256 C (node_input p)"
  by (simp add: hash_transparency_node_def node_input_def split: prod.splits)

lemma length_sentinel [simp]: "length LONE_NODE_SENTINEL = 32"
  by (simp add: LONE_NODE_SENTINEL_def)

lemma level_pairs_length:
  "\<forall>h \<in> set level. length h = 32 \<Longrightarrow> p \<in> level_pairs level \<Longrightarrow> length (fst p) = 32 \<and> length (snd p) = 32"
  by (induction level rule: level_pairs.induct) auto

lemma pair_up_length: "sha_32 C \<Longrightarrow> h \<in> set (pair_up C level) \<Longrightarrow> length h = 32"
  by (induction C level rule: pair_up.induct) (auto simp: sha_32_def hash_transparency_node_def)

lemma tree_pairs_length:
  "sha_32 C \<Longrightarrow> \<forall>h \<in> set level. length h = 32 \<Longrightarrow> p \<in> tree_pairs C level \<Longrightarrow>
   length (fst p) = 32 \<and> length (snd p) = 32"
proof (induction C level rule: tree_pairs.induct)
  case (1 C level)
  then have "length level > 1" "p \<in> level_pairs level \<or> p \<in> tree_pairs C (pair_up C level)"
    by (simp_all add: tree_pairs.simps [of C level] split: if_splits)
  then show ?case
    using level_pairs_length [OF 1(3), of p] 1(1) [OF _ 1(2)] pair_up_length [OF 1(2), of _ level]
    by blast
qed

lemma path_pairs_length:
  "sha_32 C \<Longrightarrow> \<forall>h \<in> insert x (set sibs). length h = 32 \<Longrightarrow> p \<in> path_pairs C x sibs idx \<Longrightarrow>
   length (fst p) = 32 \<and> length (snd p) = 32"
proof (induction sibs arbitrary: x idx)
  case (Cons s sibs)
  then show ?case
    by (auto simp: level_parent_def hash_transparency_node_def sha_32_def split: if_splits)
qed simp

lemma node_input_inj_on:
  assumes "\<And>p. p \<in> P \<Longrightarrow> length (fst p) = 32"
  shows "inj_on node_input P"
  using assms by (intro inj_onI) (auto simp: node_input_def prod_eq_iff)

lemma hashed_membership:
  assumes root: "merkle_root_from_proof C (sha256 C m) sibs idx = merkle_root C (map (sha256 C) ms)"
    and safe: "sha_safe C (insert m (set ms) \<union>
      node_input ` proof_pairs C (map (sha256 C) ms) (sha256 C m) sibs idx)"
    and domain: "\<And>m' p. m' \<in> insert m (set ms) \<Longrightarrow> m' \<noteq> node_input p"
    and len: "sha_32 C" "\<forall>h \<in> set sibs. length h = 32"
  shows "m \<in> set ms"
proof -
  let ?P = "proof_pairs C (map (sha256 C) ms) (sha256 C m) sibs idx" and ?M = "insert m (set ms)"
  have inj: "inj_on (sha256 C) (?M \<union> node_input ` ?P)"
    and reserved: "\<And>m'. m' \<in> ?M \<union> node_input ` ?P \<Longrightarrow> sha256 C m' \<notin> {LONE_NODE_SENTINEL, zeros 32}"
    using safe by (auto simp: sha_safe_def disjoint_iff simp del: Un_insert_left)
  have "length (fst p) = 32" if "p \<in> tree_pairs C (map (sha256 C) ms)" for p
    using tree_pairs_length [OF len(1) _ that] len(1) by (simp add: sha_32_def)
  moreover have "length (fst p) = 32" if "p \<in> path_pairs C (sha256 C m) sibs idx" for p
    using path_pairs_length [OF len(1) _ that] len by (simp add: sha_32_def)
  ultimately have "inj_on node_input ?P" unfolding proof_pairs_def by (intro node_input_inj_on) blast
  moreover have "inj_on (sha256 C) (node_input ` ?P)" by (rule inj_on_subset [OF inj]) blast
  ultimately have free: "node_collision_free C ?P"
    unfolding node_collision_free_def node_input_hash by (rule comp_inj_on [unfolded comp_def])
  have differ: "sha256 C (node_input p) \<noteq> sha256 C m'" if "p \<in> ?P" "m' \<in> ?M" for p m'
  proof
    assume "sha256 C (node_input p) = sha256 C m'"
    then have "node_input p = m'" by (rule inj_onD [OF inj]) (use that in auto)
    with domain that show False by blast
  qed
  have "sha256 C (node_input p) \<notin> insert (sha256 C m) (set (map (sha256 C) ms) \<union>
      {LONE_NODE_SENTINEL, zeros 32})" if "p \<in> ?P" for p
    using that differ [OF that] reserved [of "node_input p"] by auto
  then have "leaves_separated C (map (sha256 C) ms) (sha256 C m) sibs idx"
    unfolding leaves_separated_def node_input_hash by blast
  with root free reserved [of m] have "sha256 C m \<in> set (map (sha256 C) ms)"
    by (intro merkle_membership [of C "sha256 C m" sibs idx]) blast+
  then obtain m' where "m' \<in> set ms" "sha256 C m = sha256 C m'" by auto
  moreover from this have "m = m'" by (intro inj_onD [OF inj, of m m']) simp_all
  ultimately show ?thesis by simp
qed

subsection \<open>The root commits to hashed leaves\<close>

text \<open>
  One level: two levels that pair up to the same nodes are equal, unless a node is the sentinel
  or two of their pairs collide. Going down level by level from a common root, and with leaves that
  are no nodes, both trees have the same depth and the same leaves.
\<close>

lemma pair_up_inj:
  assumes "pair_up C xs = pair_up C ys" "node_collision_free C (level_pairs xs \<union> level_pairs ys)"
    and "LONE_NODE_SENTINEL \<notin> set xs \<union> set ys"
  shows "xs = ys"
  using assms
proof (induction C xs arbitrary: ys rule: pair_up.induct)
  case (1 C)
  then show ?case by (cases ys rule: level_pairs.cases) auto
next
  case (2 C x)
  show ?case
  proof (cases ys rule: level_pairs.cases)
    case (3 a b zs)
    have "(x, LONE_NODE_SENTINEL) = (a, b)"
      by (rule inj_onD [OF "2.prems"(2) [unfolded node_collision_free_def]]) (use "2.prems"(1) 3 in auto)
    then show ?thesis using "2.prems"(3) 3 by simp
  qed (use 2 in \<open>auto simp: node_collision_free_def dest: inj_onD\<close>)
next
  case (3 C x y xs)
  show ?case
  proof (cases ys rule: level_pairs.cases)
    case (3 a b zs)
    have "node_collision_free C (level_pairs xs \<union> level_pairs zs)"
      using "3.prems"(2) unfolding node_collision_free_def 3 by (rule inj_on_subset) auto
    with "3.IH" [of zs] "3.prems" 3 have "xs = zs" by simp
    moreover have "(x, y) = (a, b)"
      by (rule inj_onD [OF "3.prems"(2) [unfolded node_collision_free_def]]) (use "3.prems"(1) 3 in auto)
    ultimately show ?thesis using 3 by simp
  next
    case (2 a)
    then have "(x, y) = (a, LONE_NODE_SENTINEL)"
      by (intro inj_onD [OF "3.prems"(2) [unfolded node_collision_free_def]]) (use "3.prems"(1) in auto)
    then show ?thesis using "3.prems"(3) by simp
  qed (use "3.prems"(1) in simp)
qed

text \<open>No node of a tree above its leaves, and no leaf, is the sentinel or hashes like a pair.\<close>

definition tree_separated :: "crypto \<Rightarrow> (bytes \<times> bytes) set \<Rightarrow> bytes list \<Rightarrow> bool" where
  "tree_separated C P leaves \<longleftrightarrow> tree_pairs C leaves \<subseteq> P \<and>
     (\<forall>h \<in> set leaves \<union> {LONE_NODE_SENTINEL}. h \<notin> (\<lambda>(l, r). hash_transparency_node C l r) ` P) \<and>
     LONE_NODE_SENTINEL \<notin> set leaves"

lemma level_at_hash:
  assumes "tree_separated C P leaves" "\<forall>j < k. length (level_at C leaves j) > 1" "j < k"
    and "h \<in> set (level_at C leaves (Suc j))"
  shows "h \<in> (\<lambda>(l, r). hash_transparency_node C l r) ` P"
  using pair_up_level_pairs [of h C "level_at C leaves j"] level_pairs_tree_pairs [of C leaves j] assms
  by (fastforce simp: tree_separated_def)

lemma level_at_sentinel:
  assumes "tree_separated C P leaves" "\<forall>j < k. length (level_at C leaves j) > 1" "j \<le> k"
  shows "LONE_NODE_SENTINEL \<notin> set (level_at C leaves j)"
proof (cases j)
  case (Suc i)
  then show ?thesis using level_at_hash [OF assms(1,2), of i] assms(1,3) by (auto simp: tree_separated_def)
qed (use assms(1) in \<open>simp add: tree_separated_def\<close>)

lemma levels_agree_down:
  assumes "tree_separated C P xs" "\<forall>j < k. length (level_at C xs j) > 1"
    and "tree_separated C P ys" "\<forall>j < l. length (level_at C ys j) > 1"
    and "node_collision_free C P" "level_at C xs k = level_at C ys l" "i \<le> k" "i \<le> l"
  shows "level_at C xs (k - i) = level_at C ys (l - i)"
  using assms(7,8)
proof (induction i)
  case (Suc i)
  have down: "k - i = Suc (k - Suc i)" "l - i = Suc (l - Suc i)" using Suc.prems by auto
  have "pair_up C (level_at C xs (k - Suc i)) = pair_up C (level_at C ys (l - Suc i))"
    using Suc.IH Suc.prems unfolding down by simp
  moreover have "level_pairs (level_at C xs (k - Suc i)) \<union> level_pairs (level_at C ys (l - Suc i)) \<subseteq> P"
    using level_pairs_tree_pairs [of C xs "k - Suc i"] level_pairs_tree_pairs [of C ys "l - Suc i"]
      assms(1-4) Suc.prems by (auto simp: tree_separated_def)
  then have "node_collision_free C
      (level_pairs (level_at C xs (k - Suc i)) \<union> level_pairs (level_at C ys (l - Suc i)))"
    using assms(5) unfolding node_collision_free_def by (blast intro: inj_on_subset)
  moreover have "LONE_NODE_SENTINEL \<notin> set (level_at C xs (k - Suc i)) \<union> set (level_at C ys (l - Suc i))"
    using level_at_sentinel [OF assms(1,2)] level_at_sentinel [OF assms(3,4)] by simp
  ultimately show ?case by (rule pair_up_inj)
qed (use assms(6) in simp)

lemma levels_inj:
  assumes "tree_separated C P xs" "tree_separated C P ys" "node_collision_free C P"
    and "xs \<noteq> []" "ys \<noteq> []" "merkle_levels C xs = merkle_levels C ys"
  shows "xs = ys"
proof -
  obtain k l where k: "level_at C xs k = [merkle_levels C xs]" "\<forall>j < k. length (level_at C xs j) > 1"
    and l: "level_at C ys l = [merkle_levels C ys]" "\<forall>j < l. length (level_at C ys j) > 1"
    using level_at_root assms(4,5) by metis
  note down = levels_agree_down [OF assms(1) k(2) assms(2) l(2) assms(3)]
  have top: "level_at C xs k = level_at C ys l" using k(1) l(1) assms(6) by simp
  have "\<not> k < l"
  proof
    assume "k < l"
    then have "xs = level_at C ys (Suc (l - Suc k))" using down [OF top, of k] by (simp add: Suc_diff_Suc)
    then have "hd xs \<in> (\<lambda>(l, r). hash_transparency_node C l r) ` P"
      using level_at_hash [OF assms(2) l(2), of "l - Suc k" "hd xs"] assms(4) \<open>k < l\<close> by simp
    then show False using assms(1,4) by (simp add: tree_separated_def)
  qed
  moreover have "\<not> l < k"
  proof
    assume "l < k"
    then have "ys = level_at C xs (Suc (k - Suc l))" using down [OF top, of l] by (simp add: Suc_diff_Suc)
    then have "hd ys \<in> (\<lambda>(l, r). hash_transparency_node C l r) ` P"
      using level_at_hash [OF assms(1) k(2), of "k - Suc l" "hd ys"] assms(5) \<open>l < k\<close> by simp
    then show False using assms(2,5) by (simp add: tree_separated_def)
  qed
  ultimately show ?thesis using down [OF top, of k] by simp
qed

lemma node_inputs_collision_free:
  assumes "inj_on (sha256 C) (node_input ` P)" "\<And>p. p \<in> P \<Longrightarrow> length (fst p) = 32"
  shows "node_collision_free C P"
  using comp_inj_on [OF node_input_inj_on [OF assms(2)] assms(1)]
  unfolding node_collision_free_def node_input_hash by (simp add: comp_def)

lemma merkle_root_not_zero:
  assumes "sha_safe C (set ms \<union> node_input ` tree_pairs C (map (sha256 C) ms))" "ms \<noteq> []"
  shows "merkle_root C (map (sha256 C) ms) \<noteq> zeros 32"
proof -
  let ?xs = "map (sha256 C) ms"
  obtain k where k: "level_at C ?xs k = [merkle_levels C ?xs]" "\<forall>j < k. length (level_at C ?xs j) > 1"
    using level_at_root [of ?xs C] assms(2) by auto
  have "merkle_levels C ?xs \<in> sha256 C ` (set ms \<union> node_input ` tree_pairs C ?xs)"
  proof (cases k)
    case 0
    then have "merkle_levels C ?xs \<in> set ?xs" using k(1) list.set_intros(1) by (metis level_at.simps(1))
    then show ?thesis by auto
  next
    case (Suc j)
    then obtain p where "p \<in> level_pairs (level_at C ?xs j)" "merkle_levels C ?xs = sha256 C (node_input p)"
      using pair_up_level_pairs [of "merkle_levels C ?xs" C "level_at C ?xs j"] k(1)
      by (auto simp: node_input_hash)
    then show ?thesis using level_pairs_tree_pairs [of C ?xs j] k(2) Suc by auto
  qed
  then show ?thesis using assms by (auto simp: sha_safe_def merkle_root_def)
qed

lemma hashed_root_inj:
  fixes C ms ns
  defines "P \<equiv> tree_pairs C (map (sha256 C) ms) \<union> tree_pairs C (map (sha256 C) ns)"
  assumes root: "merkle_root C (map (sha256 C) ms) = merkle_root C (map (sha256 C) ns)"
    and safe: "sha_safe C (set ms \<union> set ns \<union> node_input ` P)"
    and domain: "\<And>m p. m \<in> set ms \<union> set ns \<Longrightarrow> m \<noteq> node_input p"
    and len: "sha_32 C"
  shows "ms = ns"
proof -
  let ?xs = "map (sha256 C) ms" and ?ys = "map (sha256 C) ns" and ?M = "set ms \<union> set ns \<union> node_input ` P"
  have inj: "inj_on (sha256 C) ?M" and reserved: "sha256 C ` ?M \<inter> {LONE_NODE_SENTINEL, zeros 32} = {}"
    using safe by (simp_all add: sha_safe_def)
  have zero: "merkle_root C (map (sha256 C) zs) = zeros 32 \<longleftrightarrow> zs = []" if "zs = ms \<or> zs = ns" for zs
    using merkle_root_not_zero [of C zs] sha_safe_def safe that
    by (auto simp: P_def merkle_root_def sha_safe_def intro: inj_on_subset)
  show ?thesis
  proof (cases "ms = [] \<or> ns = []")
    case True
    then show ?thesis using zero [of ms] zero [of ns] root by auto
  next
    case False
    have "length (fst p) = 32" if "p \<in> P" for p
      using that tree_pairs_length [OF len, of ?xs p] tree_pairs_length [OF len, of ?ys p] len
      by (auto simp: P_def sha_32_def)
    then have free: "node_collision_free C P"
      by (intro node_inputs_collision_free inj_on_subset [OF inj]) auto
    have "sha256 C m \<noteq> sha256 C (node_input p)" if "m \<in> set ms \<union> set ns" "p \<in> P" for m p
      using inj_onD [OF inj, of m "node_input p"] domain that by auto
    moreover have "LONE_NODE_SENTINEL \<notin> sha256 C ` ?M" using reserved by auto
    ultimately have "tree_separated C P ?xs" "tree_separated C P ?ys"
      unfolding tree_separated_def node_input_hash by (auto simp: P_def)
    then have "?xs = ?ys" using levels_inj [OF _ _ free] False root by (simp add: merkle_root_def)
    moreover have "inj_on (sha256 C) (set ms \<union> set ns)" by (rule inj_on_subset [OF inj]) blast
    ultimately show ?thesis by (rule map_inj_on)
  qed
qed

subsection \<open>Lengths of proofs\<close>

text \<open>Every level halves the tree: a proof has one sibling per level, at most \<open>k\<close> for \<open>2 ^ k\<close> leaves.\<close>

lemma merkle_depth_le: "n \<le> 2 ^ k \<Longrightarrow> merkle_depth n \<le> k"
proof (induction k arbitrary: n)
  case 0
  then show ?case by (simp add: merkle_depth.simps)
next
  case (Suc k)
  then have "(n + 1) div 2 \<le> 2 ^ k" by simp
  from Suc.IH [OF this] show ?case by (subst merkle_depth.simps) simp
qed

lemma merkle_depth_ge: "2 ^ k < n \<Longrightarrow> k < merkle_depth n"
proof (induction k arbitrary: n)
  case 0
  then show ?case by (subst merkle_depth.simps) simp
next
  case (Suc k)
  then have "2 ^ k < (n + 1) div 2" by simp
  moreover have "(1 :: nat) \<le> 2 ^ k" by simp
  then have "1 < n" using Suc.prems unfolding power_Suc by linarith
  ultimately show ?case using Suc.IH [of "(n + 1) div 2"] by (subst merkle_depth.simps) simp
qed

lemma length_siblings:
  "i < length level \<Longrightarrow> length level \<le> 2 ^ 64 \<Longrightarrow>
   length (merkle_siblings C level i []) = merkle_depth (length level)"
proof (induction C level arbitrary: i rule: merkle_levels.induct)
  case (1 C level)
  show ?case
  proof (cases "length level > 1")
    case True
    have "i div 2 < length (pair_up C level)" "length (pair_up C level) \<le> 2 ^ 64"
      using 1(2,3) by (auto simp: length_pair_up)
    from 1(1) [OF True, unfolded merkle_next_eq, OF this] True 1(2,3) show ?thesis
      by (simp add: siblings_step length_pair_up merkle_depth.simps [of "length level"])
  next
    case False
    then show ?thesis by (simp add: merkle_siblings.simps merkle_depth.simps)
  qed
qed

lemma length_merkle_proof:
  "i < length leaves \<Longrightarrow> length leaves \<le> 2 ^ 64 \<Longrightarrow>
   length (merkle_proof_for_index C leaves i) = merkle_depth (length leaves)"
  by (auto simp: merkle_proof_for_index_def length_siblings)

lemma siblings_32:
  "sha_32 C \<Longrightarrow> \<forall>h \<in> set level. length h = 32 \<Longrightarrow> i < length level \<Longrightarrow> length level \<le> 2 ^ 64 \<Longrightarrow>
   h \<in> set (merkle_siblings C level i []) \<Longrightarrow> length h = 32"
proof (induction C level arbitrary: i rule: merkle_levels.induct)
  case (1 C level)
  then have True: "length level > 1" by (auto simp: merkle_siblings.simps [of C level] split: if_splits)
  have up: "i div 2 < length (pair_up C level)" "length (pair_up C level) \<le> 2 ^ 64"
    using 1(4,5) by (auto simp: length_pair_up)
  have "length (level_sibling level i) = 32" using 1(3,4) by (auto simp: level_sibling_def)
  with 1(1) [OF True, unfolded merkle_next_eq, OF 1(2) _ up] 1(2,4-6) True show ?case
    by (auto simp: siblings_step dest: pair_up_length)
qed

lemma merkle_proof_32:
  assumes "sha_32 C" "\<forall>h \<in> set leaves. length h = 32" "length leaves \<le> 2 ^ 64"
  shows "\<forall>h \<in> set (merkle_proof_for_index C leaves i). length h = 32"
  using siblings_32 [OF assms(1,2) _ assms(3), of i] by (auto simp: merkle_proof_for_index_def)

end
