(* ===== verification/Csk2_Transparency.thy ===== *)
theory Csk2_Transparency
  imports Csk2_Merkle
begin

text \<open>
  The crate's \<open>src/kyriotes_csk2/transparency.rs\<close> (less its Merkle functions, which are in
  \<open>Csk2_Merkle\<close>) and \<open>src/kyriotes_csk2/async_transparency.rs\<close>.

  The trait \<open>TransparencyLog\<close> is a record of operations over a type of logs; code that is generic
  in the log takes such a record. A method with \<open>&mut self\<close> returns the log it leaves behind, also
  when it returns an error. The locale \<open>transparency_log\<close> is the contract of the trait; the
  in-memory log of the crate satisfies it as long as its indices fit into 64 bits, which the
  predicate \<open>log_small\<close> says.

  The abstract specification of the log is the partial map \<open>log_view\<close> from authority and epoch to
  the committed leaf hash.
\<close>

subsection \<open>The trait\<close>

record transparency_state_commit =
  tc_state :: authority_state
  tc_proof :: transparency_proof
  tc_chain_hash :: bytes

record 'l log_ops =
  lo_commit_state :: "'l \<Rightarrow> authority_state \<Rightarrow> transparency_state_commit result \<times> 'l"
  lo_proof_for_state :: "'l \<Rightarrow> authority_state \<Rightarrow> transparency_proof result"
  lo_current_root :: "'l \<Rightarrow> bytes"
  lo_store_chain_hash :: "'l \<Rightarrow> bytes \<Rightarrow> u64 \<Rightarrow> bytes \<Rightarrow> 'l"
  lo_chain_hash_for :: "'l \<Rightarrow> bytes \<Rightarrow> u64 \<Rightarrow> bytes option"

text \<open>The trait's default methods, for logs that keep no chain hashes.\<close>

definition default_store_chain_hash :: "'l \<Rightarrow> bytes \<Rightarrow> u64 \<Rightarrow> bytes \<Rightarrow> 'l" where
  "default_store_chain_hash log authority_id epoch chain_hash = log"

definition default_chain_hash_for :: "'l \<Rightarrow> bytes \<Rightarrow> u64 \<Rightarrow> bytes option" where
  "default_chain_hash_for log authority_id epoch = None"

definition bind_transparency_root_to_state :: "authority_state \<Rightarrow> bytes \<Rightarrow> authority_state" where
  "bind_transparency_root_to_state state transparency_root =
     state\<lparr>st_transparency_root := transparency_root\<rparr>"

subsection \<open>The in-memory log\<close>

record transparency_entry =
  te_authority_id :: bytes
  te_epoch :: u64
  te_leaf_hash :: bytes
  te_chain_hash :: bytes

record in_memory_log =
  lg_entries :: "transparency_entry list"

definition log_new :: in_memory_log where
  "log_new = \<lparr>lg_entries = []\<rparr>"

definition find_index :: "in_memory_log \<Rightarrow> bytes \<Rightarrow> u64 \<Rightarrow> nat option" where
  "find_index log authority_id epoch =
     position (\<lambda>e. te_authority_id e = authority_id \<and> te_epoch e = epoch) (lg_entries log)"

definition leaf_hashes :: "in_memory_log \<Rightarrow> bytes list" where
  "leaf_hashes log = map te_leaf_hash (lg_entries log)"

definition proof_for_index :: "crypto \<Rightarrow> in_memory_log \<Rightarrow> nat \<Rightarrow> transparency_proof result" where
  "proof_for_index C log index =
     (if lg_entries log = [] then Inl (AuthorityStateErr ''transparency log is empty'')
      else if index \<ge> length (lg_entries log)
      then Inl (AuthorityStateErr ''transparency log index out of bounds'')
      else
        let leaves = leaf_hashes log;
            sibling_hashes = merkle_proof_for_index C leaves index
        in Inr \<lparr>tp_leaf_hash = leaves ! index, tp_sibling_hashes = sibling_hashes,
             tp_leaf_index = word_of_nat index\<rparr>)"

definition current_root :: "crypto \<Rightarrow> in_memory_log \<Rightarrow> bytes" where
  "current_root C log = merkle_root C (leaf_hashes log)"

definition new_entry :: "authority_state \<Rightarrow> bytes \<Rightarrow> transparency_entry" where
  "new_entry state leaf_hash = \<lparr>te_authority_id = st_authority_id state,
     te_epoch = st_epoch state, te_leaf_hash = leaf_hash, te_chain_hash = zeros 32\<rparr>"

definition commit_state ::
    "crypto \<Rightarrow> in_memory_log \<Rightarrow> authority_state \<Rightarrow> transparency_state_commit result \<times> in_memory_log"
where
  "commit_state C log state =
     (let leaf_hash = transparency_leaf_hash C state;
          finish = (\<lambda>index log'.
            let root = current_root C log'
            in (bind_r (proof_for_index C log' index) (\<lambda>proof.
                  Inr \<lparr>tc_state = bind_transparency_root_to_state state root, tc_proof = proof,
                       tc_chain_hash = zeros 32\<rparr>), log'))
      in case find_index log (st_authority_id state) (st_epoch state) of
           Some existing_index \<Rightarrow>
             if te_leaf_hash (lg_entries log ! existing_index) \<noteq> leaf_hash
             then (Inl (AuthorityStateErr ''transparency log already contains different state for authority/epoch''), log)
             else finish existing_index log
         | None \<Rightarrow>
             let log' = log\<lparr>lg_entries := lg_entries log @ [new_entry state leaf_hash]\<rparr>
             in finish (length (lg_entries log') - 1) log')"

definition proof_for_state ::
    "crypto \<Rightarrow> in_memory_log \<Rightarrow> authority_state \<Rightarrow> transparency_proof result" where
  "proof_for_state C log state =
     bind_r (ok_or (find_index log (st_authority_id state) (st_epoch state))
       (AuthorityStateErr ''state not found in transparency log'')) (\<lambda>idx.
     let expected_leaf = transparency_leaf_hash C state
     in if te_leaf_hash (lg_entries log ! idx) \<noteq> expected_leaf
        then Inl (AuthorityStateErr ''transparency log leaf does not match authority state'')
        else proof_for_index C log idx)"

definition store_chain_hash :: "in_memory_log \<Rightarrow> bytes \<Rightarrow> u64 \<Rightarrow> bytes \<Rightarrow> in_memory_log" where
  "store_chain_hash log authority_id epoch chain_hash =
     (case find_index log authority_id epoch of
        Some idx \<Rightarrow> log\<lparr>lg_entries := (lg_entries log)
          [idx := (lg_entries log ! idx)\<lparr>te_chain_hash := chain_hash\<rparr>]\<rparr>
      | None \<Rightarrow> log)"

definition chain_hash_for :: "in_memory_log \<Rightarrow> bytes \<Rightarrow> u64 \<Rightarrow> bytes option" where
  "chain_hash_for log authority_id epoch =
     map_option (\<lambda>idx. te_chain_hash (lg_entries log ! idx)) (find_index log authority_id epoch)"

definition in_memory_ops :: "crypto \<Rightarrow> in_memory_log log_ops" where
  "in_memory_ops C = \<lparr>lo_commit_state = commit_state C, lo_proof_for_state = proof_for_state C,
     lo_current_root = current_root C, lo_store_chain_hash = store_chain_hash,
     lo_chain_hash_for = chain_hash_for\<rparr>"

text \<open>
  \<open>AsyncTransparencyLog\<close> for the in-memory log delegates to the synchronous methods: once awaited,
  they return what those return.
\<close>

definition async_commit_state ::
    "crypto \<Rightarrow> in_memory_log \<Rightarrow> authority_state \<Rightarrow> transparency_state_commit result \<times> in_memory_log"
where
  "async_commit_state C log state = commit_state C log state"

definition async_proof_for_state ::
    "crypto \<Rightarrow> in_memory_log \<Rightarrow> authority_state \<Rightarrow> transparency_proof result" where
  "async_proof_for_state C log state = proof_for_state C log state"

definition async_current_root :: "crypto \<Rightarrow> in_memory_log \<Rightarrow> bytes" where
  "async_current_root C log = current_root C log"

text \<open>
  The async trait has no chain-hash methods; code that is generic in an async log takes a record
  in which they are the defaults and are never called.
\<close>

definition async_in_memory_ops :: "crypto \<Rightarrow> in_memory_log log_ops" where
  "async_in_memory_ops C = \<lparr>lo_commit_state = async_commit_state C,
     lo_proof_for_state = async_proof_for_state C, lo_current_root = async_current_root C,
     lo_store_chain_hash = default_store_chain_hash, lo_chain_hash_for = default_chain_hash_for\<rparr>"

subsection \<open>Chain hashes and proofs\<close>

definition transparency_log_entry_hash ::
    "crypto \<Rightarrow> bytes \<Rightarrow> bytes \<Rightarrow> bytes \<Rightarrow> u64 \<Rightarrow> bytes \<Rightarrow> bytes \<Rightarrow> bytes" where
  "transparency_log_entry_hash C prev_hash authority_root revocation_root epoch epoch_pk
      epoch_root_sig =
     sha256 C ((if epoch = 0 then ascii ''KYRIOTES-CSK2-LOG-GENESIS-v1'' else prev_hash) @
       authority_root @ revocation_root @ put_u64 epoch @ epoch_pk @ epoch_root_sig)"

definition verify_transparency_proof ::
    "crypto \<Rightarrow> authority_state \<Rightarrow> transparency_proof \<Rightarrow> unit result" where
  "verify_transparency_proof C state proof =
     (let expected_leaf = transparency_leaf_hash C state
      in if tp_leaf_hash proof \<noteq> expected_leaf
         then Inl (AuthorityStateErr ''transparency proof leaf does not match authority state'')
         else if merkle_root_from_proof C (tp_leaf_hash proof) (tp_sibling_hashes proof)
             (tp_leaf_index proof) \<noteq> st_transparency_root state
         then Inl (AuthorityStateErr ''transparency proof root mismatch'')
         else Inr ())"

lemma verify_transparency_proof_ok [result_simps]:
  "verify_transparency_proof C s p = Inr u \<longleftrightarrow>
     tp_leaf_hash p = transparency_leaf_hash C s \<and>
     merkle_root_from_proof C (transparency_leaf_hash C s) (tp_sibling_hashes p) (tp_leaf_index p) =
       st_transparency_root s"
  by (auto simp: verify_transparency_proof_def Let_def)

lemma bind_root_simps [simp]:
  "st_transparency_root (bind_transparency_root_to_state s r) = r"
  "st_authority_root (bind_transparency_root_to_state s r) = st_authority_root s"
  "st_revocation_root (bind_transparency_root_to_state s r) = st_revocation_root s"
  "st_epoch (bind_transparency_root_to_state s r) = st_epoch s"
  "st_authority_id (bind_transparency_root_to_state s r) = st_authority_id s"
  "st_root_pk (bind_transparency_root_to_state s r) = st_root_pk s"
  "st_revocation_count (bind_transparency_root_to_state s r) = st_revocation_count s"
  "st_prev_epoch_hash (bind_transparency_root_to_state s r) = st_prev_epoch_hash s"
  "transparency_leaf_hash C (bind_transparency_root_to_state s r) = transparency_leaf_hash C s"
  by (simp_all add: bind_transparency_root_to_state_def transparency_leaf_hash_def
      transparency_transcript_def)

subsection \<open>The contract of a log\<close>

text \<open>
  The states of a log as its two mutating methods change it, in any order and whatever they
  return.
\<close>

inductive log_steps :: "'l log_ops \<Rightarrow> 'l \<Rightarrow> 'l \<Rightarrow> bool" for ops where
  log_refl: "log_steps ops log log"
| log_commit: "log_steps ops log log1 \<Longrightarrow> log_steps ops log (snd (lo_commit_state ops log1 s))"
| log_store: "log_steps ops log log1 \<Longrightarrow>
    log_steps ops log (lo_store_chain_hash ops log1 authority_id epoch h)"

locale transparency_log =
  fixes C :: crypto
    and ops :: "'l log_ops"
    and small :: "'l \<Rightarrow> bool"
  assumes commit_ok: "lo_commit_state ops log s = (Inr c, log') \<Longrightarrow> small log' \<Longrightarrow>
      tc_state c = bind_transparency_root_to_state s (lo_current_root ops log') \<and>
      verify_transparency_proof C (tc_state c) (tc_proof c) = Inr ()"
    and commit_err: "lo_commit_state ops log s = (Inl err, log') \<Longrightarrow> log' = log"
    and commit_provable: "lo_commit_state ops log s = (Inr c, log') \<Longrightarrow>
      lo_proof_for_state ops log' s = Inr (tc_proof c)"
    and commit_keeps: "is_ok (lo_proof_for_state ops log t) \<Longrightarrow>
      is_ok (lo_proof_for_state ops (snd (lo_commit_state ops log s)) t)"
    and proof_ok: "lo_proof_for_state ops log s = Inr p \<Longrightarrow> small log \<Longrightarrow>
      verify_transparency_proof C (bind_transparency_root_to_state s (lo_current_root ops log)) p
        = Inr ()"
    and store_root: "lo_current_root ops (lo_store_chain_hash ops log a e h) =
      lo_current_root ops log"
    and store_proof: "lo_proof_for_state ops (lo_store_chain_hash ops log a e h) t =
      lo_proof_for_state ops log t"
    and small_commit: "small (snd (lo_commit_state ops log s)) \<Longrightarrow> small log"
    and small_store: "small (lo_store_chain_hash ops log a e h) \<Longrightarrow> small log"
begin

lemma small_steps: "log_steps ops log log' \<Longrightarrow> small log' \<Longrightarrow> small log"
  by (induction rule: log_steps.induct) (auto dest: small_commit small_store)

lemma provable_forever:
  "log_steps ops log log' \<Longrightarrow> is_ok (lo_proof_for_state ops log t) \<Longrightarrow>
   is_ok (lo_proof_for_state ops log' t)"
  by (induction rule: log_steps.induct) (auto simp: store_proof intro: commit_keeps)

text \<open>
  Once committed, a state has at every later time a proof that verifies against the root the
  log has at that time.
\<close>

lemma committed_stays_verifiable:
  assumes "lo_commit_state ops log s = (Inr c, log1)" "log_steps ops log1 log2" "small log2"
  shows "\<exists>p. lo_proof_for_state ops log2 s = Inr p \<and>
    verify_transparency_proof C (bind_transparency_root_to_state s (lo_current_root ops log2)) p
      = Inr ()"
proof -
  have "is_ok (lo_proof_for_state ops log1 s)" using commit_provable [OF assms(1)] by simp
  then have "is_ok (lo_proof_for_state ops log2 s)" by (rule provable_forever [OF assms(2)])
  then show ?thesis using proof_ok assms(3) by (auto simp: is_ok_iff)
qed

lemma commit_fields:
  assumes "lo_commit_state ops log s = (Inr c, log')" "small log'"
  shows "st_authority_root (tc_state c) = st_authority_root s"
    "st_revocation_root (tc_state c) = st_revocation_root s"
    "st_epoch (tc_state c) = st_epoch s"
    "st_authority_id (tc_state c) = st_authority_id s"
    "st_root_pk (tc_state c) = st_root_pk s"
    "st_revocation_count (tc_state c) = st_revocation_count s"
    "st_prev_epoch_hash (tc_state c) = st_prev_epoch_hash s"
  using commit_ok [OF assms] by simp_all

end

subsection \<open>The in-memory log keeps the contract\<close>

definition log_small :: "in_memory_log \<Rightarrow> bool" where
  "log_small log \<longleftrightarrow> length (lg_entries log) \<le> 2 ^ 64"

text \<open>The abstract log: which leaf is committed for an authority and an epoch.\<close>

definition log_view :: "in_memory_log \<Rightarrow> bytes \<times> u64 \<Rightarrow> bytes option" where
  "log_view log = map_of (map (\<lambda>e. ((te_authority_id e, te_epoch e), te_leaf_hash e)) (lg_entries log))"

lemma map_of_position:
  "map_of (map (\<lambda>e. (k e, v e)) xs) y = map_option (\<lambda>i. v (xs ! i)) (position (\<lambda>e. k e = y) xs)"
proof (induction xs)
  case (Cons x xs)
  then show ?case by (cases "position (\<lambda>e. k e = y) xs") auto
qed simp

lemma log_view_find_index:
  "log_view log (a, e) = map_option (\<lambda>i. te_leaf_hash (lg_entries log ! i)) (find_index log a e)"
  using map_of_position [of "\<lambda>e. (te_authority_id e, te_epoch e)" te_leaf_hash "lg_entries log" "(a, e)"]
  by (simp add: log_view_def find_index_def)

lemma find_index_less: "find_index log a e = Some i \<Longrightarrow> i < length (lg_entries log)"
  using position_Some by (force simp: find_index_def)

lemma find_index_key: "find_index log a e = Some i \<Longrightarrow>
    te_authority_id (lg_entries log ! i) = a" "find_index log a e = Some i \<Longrightarrow> te_epoch (lg_entries log ! i) = e"
  using position_Some by (force simp: find_index_def)+

lemma proof_for_index_ok:
  "i < length (lg_entries log) \<Longrightarrow> proof_for_index C log i =
     Inr \<lparr>tp_leaf_hash = te_leaf_hash (lg_entries log ! i),
        tp_sibling_hashes = merkle_proof_for_index C (leaf_hashes log) i,
        tp_leaf_index = word_of_nat i\<rparr>"
  by (auto simp: proof_for_index_def leaf_hashes_def Let_def)

lemma new_entry_simps [simp]:
  "te_authority_id (new_entry s lh) = st_authority_id s" "te_epoch (new_entry s lh) = st_epoch s"
  "te_leaf_hash (new_entry s lh) = lh" "te_chain_hash (new_entry s lh) = zeros 32"
  by (simp_all add: new_entry_def)

lemma find_index_append:
  "find_index (log\<lparr>lg_entries := lg_entries log @ [new_entry s lh]\<rparr>) a e =
     (case find_index log a e of Some i \<Rightarrow> Some i
      | None \<Rightarrow> if st_authority_id s = a \<and> st_epoch s = e then Some (length (lg_entries log)) else None)"
  by (simp add: find_index_def position_append split: option.splits)

text \<open>What a commit leaves behind, and the index its proof is for.\<close>

lemma commit_state_cases:
  obtains (conflict) lh where "log_view log (st_authority_id s, st_epoch s) = Some lh"
      "lh \<noteq> transparency_leaf_hash C s"
      "commit_state C log s = (Inl (AuthorityStateErr ''transparency log already contains different state for authority/epoch''), log)"
  | (committed) log' i c where "commit_state C log s = (Inr c, log')"
      "find_index log' (st_authority_id s) (st_epoch s) = Some i"
      "te_leaf_hash (lg_entries log' ! i) = transparency_leaf_hash C s"
      "tc_state c = bind_transparency_root_to_state s (current_root C log')"
      "proof_for_index C log' i = Inr (tc_proof c)"
      "tc_chain_hash c = zeros 32"
      "lg_entries log' = lg_entries log @
         (if log_view log (st_authority_id s, st_epoch s) = None
          then [new_entry s (transparency_leaf_hash C s)] else [])"
      "log_view log (st_authority_id s, st_epoch s) \<in> {None, Some (transparency_leaf_hash C s)}"
proof (cases "find_index log (st_authority_id s) (st_epoch s)")
  case None
  let ?lh = "transparency_leaf_hash C s"
  let ?log = "log\<lparr>lg_entries := lg_entries log @ [new_entry s ?lh]\<rparr>"
  let ?n = "length (lg_entries log)"
  have p: "proof_for_index C ?log ?n = Inr \<lparr>tp_leaf_hash = ?lh,
      tp_sibling_hashes = merkle_proof_for_index C (leaf_hashes ?log) ?n,
      tp_leaf_index = word_of_nat ?n\<rparr>"
    by (subst proof_for_index_ok) simp_all
  show thesis
    by (rule committed [where i = ?n and log' = ?log])
      (simp_all add: commit_state_def None p Let_def find_index_append log_view_find_index)+
next
  case (Some i)
  note less = find_index_less [OF Some]
  show thesis
  proof (cases "te_leaf_hash (lg_entries log ! i) = transparency_leaf_hash C s")
    case True
    show thesis
      by (rule committed [where i = i and log' = log])
        (simp_all add: commit_state_def Some True proof_for_index_ok [OF less] Let_def
          log_view_find_index)+
  next
    case False
    then show thesis
      by (intro conflict) (simp_all add: commit_state_def Some log_view_find_index Let_def)
  qed
qed

lemma verify_proof_for_index:
  assumes "proof_for_index C log i = Inr p" "log_small log" "i < length (lg_entries log)"
    and "te_leaf_hash (lg_entries log ! i) = transparency_leaf_hash C s"
  shows "verify_transparency_proof C (bind_transparency_root_to_state s (current_root C log)) p = Inr ()"
proof -
  have "leaf_hashes log ! i = transparency_leaf_hash C s" "i < length (leaf_hashes log)"
    "length (leaf_hashes log) \<le> 2 ^ 64"
    using assms by (simp_all add: leaf_hashes_def log_small_def)
  moreover from this have "merkle_root_from_proof C (transparency_leaf_hash C s)
      (merkle_proof_for_index C (leaf_hashes log) i) (word_of_nat i) = current_root C log"
    using transparency_merkle.walk_prove by (metis current_root_def)
  ultimately show ?thesis
    using assms by (auto simp: verify_transparency_proof_ok proof_for_index_ok)
qed

lemma proof_for_state_ok:
  "proof_for_state C log s = Inr p \<longleftrightarrow>
     (\<exists>i. find_index log (st_authority_id s) (st_epoch s) = Some i \<and>
        te_leaf_hash (lg_entries log ! i) = transparency_leaf_hash C s \<and>
        proof_for_index C log i = Inr p)"
  by (auto simp: proof_for_state_def Let_def result_simps)

lemma provable_iff_view:
  "is_ok (proof_for_state C log s) \<longleftrightarrow>
     log_view log (st_authority_id s, st_epoch s) = Some (transparency_leaf_hash C s)"
  using proof_for_index_ok [OF find_index_less [of log "st_authority_id s" "st_epoch s"]]
  by (auto simp: is_ok_iff proof_for_state_ok log_view_find_index)

lemma log_view_append:
  "log_view (log\<lparr>lg_entries := lg_entries log @ es\<rparr>) =
     log_view \<lparr>lg_entries = es\<rparr> ++ log_view log"
  by (simp add: log_view_def)

lemma log_view_entries: "lg_entries log = lg_entries log1 @ es \<Longrightarrow>
    log_view log = log_view \<lparr>lg_entries = es\<rparr> ++ log_view log1"
  by (simp add: log_view_def)

text \<open>The refinement: a commit is an insertion into the abstract log that never overwrites.\<close>

lemma log_view_commit:
  assumes "commit_state C log s = (Inr c, log')"
  shows "log_view log' = (log_view log)((st_authority_id s, st_epoch s) \<mapsto> transparency_leaf_hash C s)"
proof (cases rule: commit_state_cases [of log s C])
  case (committed log1 i c1)
  then have "log1 = log'" using assms by simp
  with committed show ?thesis
    using log_view_entries [OF committed(7)]
    by (auto simp: log_view_def [of "\<lparr>lg_entries = _\<rparr>"] fun_eq_iff map_add_def split: option.splits)
qed (use assms in simp)

lemma log_view_snd_commit:
  "log_view log k = Some h \<Longrightarrow> log_view (snd (commit_state C log s)) k = Some h"
  by (cases rule: commit_state_cases [of log s C])
    (auto simp: log_view_entries map_add_def split: option.splits)

lemma position_map: "position P (map f xs) = position (\<lambda>x. P (f x)) xs"
  by (induction xs) simp_all

lemma map_store_chain_hash:
  assumes "\<And>e h. f (e\<lparr>te_chain_hash := h\<rparr>) = f e"
  shows "map f (lg_entries (store_chain_hash log a ep h)) = map f (lg_entries log)"
proof (cases "find_index log a ep")
  case (Some i)
  have "map f ((lg_entries log)[i := (lg_entries log ! i)\<lparr>te_chain_hash := h\<rparr>]) =
      (map f (lg_entries log))[i := map f (lg_entries log) ! i]"
    using find_index_less [OF Some] by (simp add: map_update assms)
  then show ?thesis by (simp add: store_chain_hash_def Some)
qed (simp add: store_chain_hash_def)

lemma store_chain_hash_keeps:
  "leaf_hashes (store_chain_hash log a ep h) = leaf_hashes log"
  "find_index (store_chain_hash log a ep h) b f = find_index log b f"
  "length (lg_entries (store_chain_hash log a ep h)) = length (lg_entries log)"
proof -
  show "leaf_hashes (store_chain_hash log a ep h) = leaf_hashes log"
    unfolding leaf_hashes_def by (rule map_store_chain_hash) simp
  have "map (\<lambda>e. (te_authority_id e, te_epoch e)) (lg_entries (store_chain_hash log a ep h)) =
      map (\<lambda>e. (te_authority_id e, te_epoch e)) (lg_entries log)"
    by (rule map_store_chain_hash) simp
  then have "position (\<lambda>(x, y). x = b \<and> y = f)
        (map (\<lambda>e. (te_authority_id e, te_epoch e)) (lg_entries (store_chain_hash log a ep h))) =
      position (\<lambda>(x, y). x = b \<and> y = f) (map (\<lambda>e. (te_authority_id e, te_epoch e)) (lg_entries log))"
    by simp
  then show "find_index (store_chain_hash log a ep h) b f = find_index log b f"
    unfolding position_map by (simp add: find_index_def)
  show "length (lg_entries (store_chain_hash log a ep h)) = length (lg_entries log)"
    using map_store_chain_hash [of "\<lambda>_. ()" log a ep h] by (metis length_map)
qed

lemma leaf_hashes_nth: "i < length (lg_entries log) \<Longrightarrow> te_leaf_hash (lg_entries log ! i) = leaf_hashes log ! i"
  by (simp add: leaf_hashes_def)

lemma store_chain_hash_proof:
  "proof_for_state C (store_chain_hash log a ep h) s = proof_for_state C log s"
proof (cases "find_index log (st_authority_id s) (st_epoch s)")
  case (Some i)
  note less = find_index_less [OF Some]
  have "lg_entries (store_chain_hash log a ep h) = [] \<longleftrightarrow> lg_entries log = []"
    by (metis length_0_conv store_chain_hash_keeps(3))
  with less Some show ?thesis
    by (simp add: proof_for_state_def proof_for_index_def store_chain_hash_keeps leaf_hashes_nth Let_def)
qed (simp add: proof_for_state_def store_chain_hash_keeps)

interpretation in_memory: transparency_log C "in_memory_ops C" log_small for C
proof
  fix log log' s c
  assume "lo_commit_state (in_memory_ops C) log s = (Inr c, log')"
  then have c: "commit_state C log s = (Inr c, log')" by (simp add: in_memory_ops_def)
  obtain i where i: "find_index log' (st_authority_id s) (st_epoch s) = Some i"
      "te_leaf_hash (lg_entries log' ! i) = transparency_leaf_hash C s"
      "tc_state c = bind_transparency_root_to_state s (current_root C log')"
      "proof_for_index C log' i = Inr (tc_proof c)"
    using c by (cases rule: commit_state_cases [of log s C]) auto
  show "lo_proof_for_state (in_memory_ops C) log' s = Inr (tc_proof c)"
    using i by (auto simp: in_memory_ops_def proof_for_state_ok)
  show "tc_state c = bind_transparency_root_to_state s (lo_current_root (in_memory_ops C) log') \<and>
      verify_transparency_proof C (tc_state c) (tc_proof c) = Inr ()" if "log_small log'"
    using verify_proof_for_index [OF i(4) that find_index_less [OF i(1)] i(2)] i(3)
    by (simp add: in_memory_ops_def)
next
  fix log log' s err
  assume "lo_commit_state (in_memory_ops C) log s = (Inl err, log')"
  then show "log' = log"
    by (cases rule: commit_state_cases [of log s C]) (simp_all add: in_memory_ops_def)
next
  fix log s t
  assume "is_ok (lo_proof_for_state (in_memory_ops C) log t)"
  then show "is_ok (lo_proof_for_state (in_memory_ops C) (snd (lo_commit_state (in_memory_ops C) log s)) t)"
    by (simp add: in_memory_ops_def provable_iff_view log_view_snd_commit)
next
  fix log s p
  assume "lo_proof_for_state (in_memory_ops C) log s = Inr p" and small: "log_small log"
  then obtain i where "find_index log (st_authority_id s) (st_epoch s) = Some i"
      "te_leaf_hash (lg_entries log ! i) = transparency_leaf_hash C s" "proof_for_index C log i = Inr p"
    by (auto simp: in_memory_ops_def proof_for_state_ok)
  with small show "verify_transparency_proof C
      (bind_transparency_root_to_state s (lo_current_root (in_memory_ops C) log)) p = Inr ()"
    by (simp add: in_memory_ops_def verify_proof_for_index find_index_less)
next
  fix log s
  show "log_small (snd (lo_commit_state (in_memory_ops C) log s)) \<Longrightarrow> log_small log"
    by (cases rule: commit_state_cases [of log s C])
      (auto simp: in_memory_ops_def log_small_def split: if_splits)
qed (simp_all add: log_small_def in_memory_ops_def current_root_def store_chain_hash_keeps store_chain_hash_proof)

interpretation async_in_memory: transparency_log C "async_in_memory_ops C" log_small for C
  by unfold_locales
    (use in_memory.commit_ok [of C] in_memory.commit_err [of C] in_memory.commit_provable [of C]
      in_memory.commit_keeps [of C] in_memory.proof_ok [of C] in_memory.small_commit [of C] in
      \<open>simp_all add: in_memory_ops_def async_in_memory_ops_def async_commit_state_def [abs_def]
        async_proof_for_state_def [abs_def] async_current_root_def [abs_def]
        default_store_chain_hash_def\<close>)

subsection \<open>Properties of the log\<close>

text \<open>One entry per authority and epoch, in whatever order the methods are called.\<close>

definition log_wf :: "in_memory_log \<Rightarrow> bool" where
  "log_wf log \<longleftrightarrow> distinct (map (\<lambda>e. (te_authority_id e, te_epoch e)) (lg_entries log))"

lemma log_wf_steps:
  assumes "log_steps (in_memory_ops C) log log'" "log_wf log"
  shows "log_wf log'"
  using assms
proof (induction rule: log_steps.induct)
  case (log_commit log log1 s)
  then have wf: "log_wf log1" by simp
  show ?case
  proof (cases rule: commit_state_cases [of log1 s C])
    case conflict
    then show ?thesis using wf by (simp add: in_memory_ops_def)
  next
    case (committed log' i c)
    have "log_view log1 k = None \<longleftrightarrow> k \<notin> (\<lambda>e. (te_authority_id e, te_epoch e)) ` set (lg_entries log1)" for k
      by (simp add: log_view_def map_of_eq_None_iff image_image)
    with wf committed show ?thesis by (simp add: in_memory_ops_def log_wf_def)
  qed
next
  case (log_store log log1 a ep h)
  have "map (\<lambda>e. (te_authority_id e, te_epoch e)) (lg_entries (store_chain_hash log1 a ep h)) =
      map (\<lambda>e. (te_authority_id e, te_epoch e)) (lg_entries log1)"
    by (rule map_store_chain_hash) simp
  with log_store show ?case by (simp add: log_wf_def in_memory_ops_def)
qed simp

text \<open>The leaves only grow at the end: every earlier log is a prefix.\<close>

lemma log_append_only:
  assumes "log_steps (in_memory_ops C) log log'"
  shows "\<exists>new. leaf_hashes log' = leaf_hashes log @ new"
  using assms
proof (induction rule: log_steps.induct)
  case (log_commit log log1 s)
  then show ?case
    by (cases rule: commit_state_cases [of log1 s C]) (auto simp: in_memory_ops_def leaf_hashes_def)
qed (simp_all add: in_memory_ops_def store_chain_hash_keeps)

text \<open>No recorded leaf is ever replaced or lost.\<close>

lemma log_view_store: "log_view (store_chain_hash log a ep h) = log_view log"
proof -
  have "map (\<lambda>e. ((te_authority_id e, te_epoch e), te_leaf_hash e)) (lg_entries (store_chain_hash log a ep h)) =
      map (\<lambda>e. ((te_authority_id e, te_epoch e), te_leaf_hash e)) (lg_entries log)"
    by (rule map_store_chain_hash) simp
  then show ?thesis by (simp add: log_view_def)
qed

lemma log_view_grows:
  "log_steps (in_memory_ops C) log log' \<Longrightarrow> log_view log \<subseteq>\<^sub>m log_view log'"
proof (induction rule: log_steps.induct)
  case (log_commit log log1 s)
  then show ?case using log_view_snd_commit [of log1 _ _ C s]
    by (fastforce simp: map_le_def in_memory_ops_def dom_def)
qed (simp_all add: in_memory_ops_def log_view_store)

lemma commit_idempotent:
  assumes "commit_state C log s = (Inr c, log')"
  shows "commit_state C log' s = (Inr c, log')"
proof -
  obtain i where i: "find_index log' (st_authority_id s) (st_epoch s) = Some i"
      "te_leaf_hash (lg_entries log' ! i) = transparency_leaf_hash C s"
      "tc_state c = bind_transparency_root_to_state s (current_root C log')"
      "proof_for_index C log' i = Inr (tc_proof c)" "tc_chain_hash c = zeros 32"
    using assms by (cases rule: commit_state_cases [of log s C]) auto
  then show ?thesis by (simp add: commit_state_def Let_def)
qed

lemma chain_hash_after_store:
  "chain_hash_for (store_chain_hash log a ep h) b f =
     (if b = a \<and> f = ep \<and> find_index log a ep \<noteq> None then Some h else chain_hash_for log b f)"
proof (cases "find_index log a ep")
  case (Some i)
  note i = find_index_key [OF Some] find_index_less [OF Some]
  have "chain_hash_for (store_chain_hash log a ep h) b f =
      map_option (\<lambda>j. if j = i then h else te_chain_hash (lg_entries log ! j)) (find_index log b f)"
    unfolding chain_hash_for_def store_chain_hash_keeps(2)
    using i(3) by (cases "find_index log b f") (auto simp: store_chain_hash_def Some)
  moreover have "find_index log b f = Some i \<Longrightarrow> b = a \<and> f = ep"
    using find_index_key [of log b f i] i by simp
  ultimately show ?thesis
    using Some by (cases "find_index log b f") (auto simp: chain_hash_for_def)
qed (simp add: chain_hash_for_def store_chain_hash_def)

text \<open>The first two entries of a log.\<close>

lemma commit_first:
  assumes "commit_state C log_new s = (Inr c, log)"
  shows "lg_entries log = [new_entry s (transparency_leaf_hash C s)]"
    "tc_state c = bind_transparency_root_to_state s (transparency_leaf_hash C s)"
proof -
  have "log_view log_new k = None" for k by (simp add: log_view_def log_new_def)
  then show e: "lg_entries log = [new_entry s (transparency_leaf_hash C s)]"
    using assms by (cases rule: commit_state_cases [of log_new s C]) (auto simp: log_new_def)
  have "tc_state c = bind_transparency_root_to_state s (current_root C log)"
    using assms by (cases rule: commit_state_cases [of log_new s C]) auto
  then show "tc_state c = bind_transparency_root_to_state s (transparency_leaf_hash C s)"
    by (simp add: current_root_def leaf_hashes_def e merkle_root_def merkle_levels.simps)
qed

lemma committed_proof_verifies:
  assumes "commit_state C log s = (Inr c, log')" "log_small log'"
  shows "verify_transparency_proof C (tc_state c) (tc_proof c) = Inr ()"
  using conjunct2 [OF in_memory.commit_ok [of C log s c log']] assms by (simp add: in_memory_ops_def)

lemma commit_second:
  assumes "lg_entries log = [new_entry s h]" "st_epoch s \<noteq> st_epoch t" "commit_state C log t = (Inr c, log')"
  shows "tc_state c = bind_transparency_root_to_state t (hash_transparency_node C h (transparency_leaf_hash C t))"
proof -
  have "log_view log (st_authority_id t, st_epoch t) = None" using assms(1,2) by (simp add: log_view_def)
  then have "lg_entries log' = [new_entry s h, new_entry t (transparency_leaf_hash C t)]"
      "tc_state c = bind_transparency_root_to_state t (current_root C log')"
    using assms(1,3) by (cases rule: commit_state_cases [of log t C]; auto)+
  then show ?thesis
    by (simp add: current_root_def leaf_hashes_def merkle_root_def merkle_levels.simps merkle_next_eq)
qed

subsection \<open>The root commits to the log\<close>

text \<open>
  The leaves of a log are digests of messages in their own domain, so a root determines the whole
  sequence of committed states, as far as a leaf describes a state.
\<close>

definition transparency_input :: "authority_state \<Rightarrow> bytes" where
  "transparency_input s = ascii ''KYRIOTES-CSK2-TRANSPARENCY-LEAF-v1'' @ transparency_transcript s"

lemma transparency_leaf_input: "transparency_leaf_hash C s = sha256 C (transparency_input s)"
  by (simp add: transparency_leaf_hash_def transparency_input_def)

lemma transparency_input_domain: "transparency_input s \<noteq> node_input p"
  unfolding transparency_input_def node_input_def by (rule ascii_clash [where n = 28]) simp_all

lemma transparency_input_inj:
  assumes "wf_state s" "wf_state t" "transparency_input s = transparency_input t"
  shows "st_authority_root s = st_authority_root t \<and> st_revocation_root s = st_revocation_root t \<and>
    st_epoch s = st_epoch t \<and> st_authority_id s = st_authority_id t \<and>
    st_revocation_count s = st_revocation_count t"
  using transparency_transcript_inj [OF assms(1,2)] assms(3) by (simp add: transparency_input_def)

definition log_inputs :: "crypto \<Rightarrow> authority_state list \<Rightarrow> bytes set" where
  "log_inputs C ss = transparency_input ` set ss \<union> node_input ` tree_pairs C (map (transparency_leaf_hash C) ss)"

lemma log_root_commits:
  assumes "merkle_root C (map (transparency_leaf_hash C) ss) = merkle_root C (map (transparency_leaf_hash C) ts)"
    and "sha_safe C (log_inputs C ss \<union> log_inputs C ts)" "sha_32 C"
  shows "map transparency_input ss = map transparency_input ts"
proof -
  have leaves: "map (transparency_leaf_hash C) us = map (sha256 C) (map transparency_input us)" for us
    by (simp add: transparency_leaf_input)
  have "log_inputs C ss \<union> log_inputs C ts = set (map transparency_input ss) \<union> set (map transparency_input ts) \<union>
      node_input ` (tree_pairs C (map (transparency_leaf_hash C) ss) \<union> tree_pairs C (map (transparency_leaf_hash C) ts))"
    by (auto simp: log_inputs_def)
  with assms(2) have safe: "sha_safe C (set (map transparency_input ss) \<union> set (map transparency_input ts) \<union>
      node_input ` (tree_pairs C (map (transparency_leaf_hash C) ss) \<union> tree_pairs C (map (transparency_leaf_hash C) ts)))"
    by simp
  show ?thesis
    by (rule hashed_root_inj [OF _ _ _ assms(3)])
      (use assms(1) safe transparency_input_domain in \<open>auto simp: leaves eq_commute [of "node_input _"]\<close>)
qed

text \<open>Every log that the methods build holds the leaves of some sequence of states.\<close>

lemma log_states:
  assumes "log_steps (in_memory_ops C) log0 log" "log0 = log_new"
  shows "\<exists>ss. leaf_hashes log = map (transparency_leaf_hash C) ss \<and>
    map (\<lambda>e. (te_authority_id e, te_epoch e)) (lg_entries log) = map (\<lambda>s. (st_authority_id s, st_epoch s)) ss"
  using assms
proof (induction rule: log_steps.induct)
  case (log_refl log)
  then show ?case by (simp add: leaf_hashes_def log_new_def)
next
  case (log_commit log log1 s)
  then obtain ss where ss: "leaf_hashes log1 = map (transparency_leaf_hash C) ss"
      "map (\<lambda>e. (te_authority_id e, te_epoch e)) (lg_entries log1) = map (\<lambda>s. (st_authority_id s, st_epoch s)) ss"
    by blast
  show ?case
  proof (cases rule: commit_state_cases [of log1 s C])
    case (committed log' i c)
    then show ?thesis using ss
      by (cases "log_view log1 (st_authority_id s, st_epoch s) = None")
        (auto simp: in_memory_ops_def leaf_hashes_def intro: exI [of _ "ss @ [s]"])
  qed (use ss in \<open>auto simp: in_memory_ops_def\<close>)
next
  case (log_store log log1 a e h)
  moreover have "map (\<lambda>e. (te_authority_id e, te_epoch e)) (lg_entries (store_chain_hash log1 a e h)) =
      map (\<lambda>e. (te_authority_id e, te_epoch e)) (lg_entries log1)"
    by (rule map_store_chain_hash) simp
  ultimately show ?case by (simp add: in_memory_ops_def store_chain_hash_keeps)
qed

text \<open>The log of a sequence of commits, and what a leaf says of a state.\<close>

definition log_of :: "crypto \<Rightarrow> authority_state list \<Rightarrow> in_memory_log" where
  "log_of C ss = foldl (\<lambda>log s. snd (commit_state C log s)) log_new ss"

definition log_key :: "authority_state \<Rightarrow> bytes \<times> u64" where
  "log_key s = (st_authority_id s, st_epoch s)"

definition leaf_fields :: "authority_state \<Rightarrow> bytes \<times> u64 \<times> bytes \<times> bytes \<times> u64" where
  "leaf_fields s = (st_authority_id s, st_epoch s, st_authority_root s, st_revocation_root s, st_revocation_count s)"

lemma log_of_entries:
  "distinct (map log_key ss) \<Longrightarrow>
   lg_entries (log_of C ss) = map (\<lambda>s. new_entry s (transparency_leaf_hash C s)) ss"
proof (induction ss rule: rev_induct)
  case (snoc s ss)
  then have e: "lg_entries (log_of C ss) = map (\<lambda>s. new_entry s (transparency_leaf_hash C s)) ss" by simp
  have "log_view (log_of C ss) (log_key s) = None"
    using snoc.prems by (auto simp: log_view_def e map_of_eq_None_iff log_key_def image_image)
  then show ?case
    by (cases rule: commit_state_cases [of "log_of C ss" s C]) (auto simp: log_of_def log_key_def e [unfolded log_of_def])
qed (simp add: log_of_def log_new_def)

lemma log_of_leaves:
  "distinct (map log_key ss) \<Longrightarrow> leaf_hashes (log_of C ss) = map (transparency_leaf_hash C) ss"
  by (simp add: leaf_hashes_def log_of_entries comp_def)

lemma leaf_fields_from_inputs:
  "map transparency_input ss = map transparency_input ts \<Longrightarrow> \<forall>s \<in> set ss \<union> set ts. wf_state s \<Longrightarrow>
   map leaf_fields ss = map leaf_fields ts"
proof (induction ss ts rule: list_induct2')
  case (4 s ss t ts)
  then show ?case using transparency_input_inj [of s t] by (auto simp: leaf_fields_def)
qed simp_all

end
