(* ===== verification/Csk2_Authority.thy ===== *)
theory Csk2_Authority
  imports Csk2_Model
begin

text \<open>
  The crate's \<open>src/kyriotes_csk2/authority.rs\<close>: the messages the offline root key and the epoch
  online key sign, their verification, and the two key pairs.

  \<open>SigningKey::from_bytes\<close> accepts every 32-byte seed, so a key pair is its seed. The conversion
  of a public key (\<open>VerifyingKey::from_bytes\<close>) can fail: \<open>ed_key_ok\<close> says when it succeeds.
  \<open>put_u64\<close> writes exactly \<open>to_le_bytes\<close>, so it stands for it in the messages.

  The locale \<open>signed_statement\<close> is the contract of a signer, a verifier and the message between
  them: an honestly made signature is accepted, and an accepted signature is one the primitive
  accepts for exactly the message of the statement's fields. Certificates, epoch roots and
  compromise notices satisfy it.
\<close>

subsection \<open>Signing messages\<close>

definition epoch_cert_signing_message :: "bytes \<Rightarrow> u64 \<Rightarrow> u64 \<Rightarrow> bytes" where
  "epoch_cert_signing_message epoch_pk epoch validity_window =
     ascii ''KYRIOTES-CSK2-EPOCH-KEY-v1'' @ epoch_pk @ put_u64 epoch @ put_u64 validity_window"

definition capability_issuance_signing_message :: "bytes \<Rightarrow> bytes \<Rightarrow> u64 \<Rightarrow> bytes" where
  "capability_issuance_signing_message leaf_hash authority_root epoch =
     ascii ''KYRIOTES-CSK2-CAPABILITY-ISSUE-v1'' @ leaf_hash @ authority_root @ put_u64 epoch"

definition epoch_root_signing_message ::
    "bytes \<Rightarrow> bytes \<Rightarrow> bytes \<Rightarrow> u64 \<Rightarrow> bytes \<Rightarrow> bytes" where
  "epoch_root_signing_message authority_root revocation_root transparency_root epoch
      prev_epoch_hash =
     ascii ''KYRIOTES-CSK2-EPOCH-ROOT-v2'' @ authority_root @ revocation_root @
     transparency_root @ put_u64 epoch @ prev_epoch_hash"

definition compromise_notice_signing_message :: "bytes \<Rightarrow> u64 \<Rightarrow> bytes \<Rightarrow> bytes" where
  "compromise_notice_signing_message compromised_epoch_pk compromised_epoch
      recovery_authority_root =
     ascii ''KYRIOTES-CSK2-COMPROMISE-v1'' @ compromised_epoch_pk @ put_u64 compromised_epoch @
     recovery_authority_root"

subsection \<open>Verification\<close>

text \<open>
  The shape all three verifiers share: \<open>VerifyingKey::from_bytes\<close> with its error, then
  \<open>verify_strict\<close> with its error.
\<close>

definition check_signature ::
    "crypto \<Rightarrow> bytes \<Rightarrow> csk2_error \<Rightarrow> bytes \<Rightarrow> bytes \<Rightarrow> csk2_error \<Rightarrow> unit result" where
  "check_signature C pk bad_key msg sig bad_sig =
     (if \<not> ed_key_ok C pk then Inl bad_key
      else if ed_verify_strict C pk msg sig then Inr () else Inl bad_sig)"

definition verify_epoch_cert :: "crypto \<Rightarrow> bytes \<Rightarrow> epoch_key_cert \<Rightarrow> unit result" where
  "verify_epoch_cert C root_pk_bytes cert =
     check_signature C root_pk_bytes (AuthorityStateErr ''invalid authority root public key'')
       (epoch_cert_signing_message (ec_epoch_pk cert) (ec_epoch cert) (ec_validity_window cert))
       (ec_signature cert) (AuthorityStateErr ''epoch key certificate signature invalid'')"

definition verify_epoch_root_sig ::
    "crypto \<Rightarrow> bytes \<Rightarrow> bytes \<Rightarrow> bytes \<Rightarrow> bytes \<Rightarrow> u64 \<Rightarrow> bytes \<Rightarrow> bytes \<Rightarrow> unit result" where
  "verify_epoch_root_sig C epoch_pk_bytes authority_root revocation_root transparency_root epoch
      prev_epoch_hash sig_bytes =
     check_signature C epoch_pk_bytes (AuthorityStateErr ''invalid epoch public key'')
       (epoch_root_signing_message authority_root revocation_root transparency_root epoch
          prev_epoch_hash)
       sig_bytes (AuthorityStateErr ''epoch root signature invalid'')"

definition verify_compromise_notice :: "crypto \<Rightarrow> bytes \<Rightarrow> compromise_notice \<Rightarrow> unit result" where
  "verify_compromise_notice C root_pk_bytes notice =
     check_signature C root_pk_bytes (AuthorityStateErr ''invalid authority root public key'')
       (compromise_notice_signing_message (cn_compromised_epoch_pk notice)
          (cn_compromised_epoch notice) (cn_recovery_authority_root notice))
       (cn_signature notice) (AuthorityStateErr ''compromise notice signature invalid'')"

subsection \<open>Key pairs\<close>

record authority_root_key_pair =
  rk_signing_key :: bytes

record epoch_signing_key_pair =
  ek_signing_key :: bytes

definition root_generate :: "rng \<Rightarrow> authority_root_key_pair \<times> rng" where
  "root_generate rng = (let (bs, rng') = fill_bytes 32 rng in (\<lparr>rk_signing_key = bs\<rparr>, rng'))"

definition root_from_seed :: "bytes \<Rightarrow> authority_root_key_pair" where
  "root_from_seed seed = \<lparr>rk_signing_key = seed\<rparr>"

definition root_verifying_key_bytes :: "crypto \<Rightarrow> authority_root_key_pair \<Rightarrow> bytes" where
  "root_verifying_key_bytes C kp = ed_verifying_key C (rk_signing_key kp)"

definition issue_epoch_cert ::
    "crypto \<Rightarrow> authority_root_key_pair \<Rightarrow> bytes \<Rightarrow> u64 \<Rightarrow> u64 \<Rightarrow> epoch_key_cert" where
  "issue_epoch_cert C kp epoch_pk epoch validity_window =
     (let msg = epoch_cert_signing_message epoch_pk epoch validity_window
      in \<lparr>ec_epoch_pk = epoch_pk, ec_epoch = epoch, ec_validity_window = validity_window,
          ec_signature = ed_sign C (rk_signing_key kp) msg\<rparr>)"

definition issue_compromise_notice ::
    "crypto \<Rightarrow> authority_root_key_pair \<Rightarrow> bytes \<Rightarrow> u64 \<Rightarrow> bytes \<Rightarrow> compromise_notice" where
  "issue_compromise_notice C kp compromised_epoch_pk compromised_epoch recovery_authority_root =
     (let msg = compromise_notice_signing_message compromised_epoch_pk compromised_epoch
            recovery_authority_root
      in \<lparr>cn_compromised_epoch_pk = compromised_epoch_pk,
          cn_compromised_epoch = compromised_epoch,
          cn_recovery_authority_root = recovery_authority_root,
          cn_signature = ed_sign C (rk_signing_key kp) msg\<rparr>)"

definition epoch_generate :: "rng \<Rightarrow> epoch_signing_key_pair \<times> rng" where
  "epoch_generate rng = (let (bs, rng') = fill_bytes 32 rng in (\<lparr>ek_signing_key = bs\<rparr>, rng'))"

definition epoch_from_seed :: "bytes \<Rightarrow> epoch_signing_key_pair" where
  "epoch_from_seed seed = \<lparr>ek_signing_key = seed\<rparr>"

definition epoch_verifying_key_bytes :: "crypto \<Rightarrow> epoch_signing_key_pair \<Rightarrow> bytes" where
  "epoch_verifying_key_bytes C kp = ed_verifying_key C (ek_signing_key kp)"

definition sign_epoch_root ::
    "crypto \<Rightarrow> epoch_signing_key_pair \<Rightarrow> bytes \<Rightarrow> bytes \<Rightarrow> bytes \<Rightarrow> u64 \<Rightarrow> bytes \<Rightarrow> bytes" where
  "sign_epoch_root C kp authority_root revocation_root transparency_root epoch prev_epoch_hash =
     ed_sign C (ek_signing_key kp)
       (epoch_root_signing_message authority_root revocation_root transparency_root epoch
          prev_epoch_hash)"

definition sign_capability_issuance ::
    "crypto \<Rightarrow> epoch_signing_key_pair \<Rightarrow> bytes \<Rightarrow> bytes \<Rightarrow> u64 \<Rightarrow> bytes" where
  "sign_capability_issuance C kp leaf_hash authority_root epoch =
     ed_sign C (ek_signing_key kp)
       (capability_issuance_signing_message leaf_hash authority_root epoch)"

definition sign_message :: "crypto \<Rightarrow> epoch_signing_key_pair \<Rightarrow> bytes \<Rightarrow> bytes" where
  "sign_message C kp msg = ed_sign C (ek_signing_key kp) msg"

definition signing_key_bytes :: "epoch_signing_key_pair \<Rightarrow> bytes" where
  "signing_key_bytes kp = ek_signing_key kp"

subsection \<open>Well-formed messages\<close>

definition wf_cert :: "epoch_key_cert \<Rightarrow> bool" where
  "wf_cert c \<longleftrightarrow> length (ec_epoch_pk c) = 32 \<and> length (ec_signature c) = 64"

definition wf_notice :: "compromise_notice \<Rightarrow> bool" where
  "wf_notice n \<longleftrightarrow> length (cn_compromised_epoch_pk n) = 32 \<and>
     length (cn_recovery_authority_root n) = 32 \<and> length (cn_signature n) = 64"

lemma check_signature_ok [result_simps]:
  "check_signature C pk e msg sig e' = Inr u \<longleftrightarrow>
     ed_key_ok C pk \<and> ed_verify_strict C pk msg sig"
  by (simp add: check_signature_def)

lemma check_signature_signed:
  "sig_correct C \<Longrightarrow> check_signature C (ed_verifying_key C sk) e msg (ed_sign C sk msg) e' = Inr ()"
  by (simp add: check_signature_def sig_correct_def)

subsection \<open>Domain separation\<close>

text \<open>
  The domain of a signing message is its prefix: no prefix is a prefix of another, and within
  a domain the fixed-size fields can be read off the message.
\<close>

lemma domains_differ:
  "epoch_cert_signing_message pk e w \<noteq> capability_issuance_signing_message lh ar e'"
  "epoch_cert_signing_message pk e w \<noteq> epoch_root_signing_message r1 r2 r3 e'' h"
  "epoch_cert_signing_message pk e w \<noteq> compromise_notice_signing_message pk' e3 rr"
  "capability_issuance_signing_message lh ar e' \<noteq> epoch_root_signing_message r1 r2 r3 e'' h"
  "capability_issuance_signing_message lh ar e' \<noteq> compromise_notice_signing_message pk' e3 rr"
  "epoch_root_signing_message r1 r2 r3 e'' h \<noteq> compromise_notice_signing_message pk' e3 rr"
  unfolding epoch_cert_signing_message_def capability_issuance_signing_message_def
    epoch_root_signing_message_def compromise_notice_signing_message_def
  by (rule ascii_clash [where n = 21]; simp)+

lemma epoch_cert_message_inj:
  assumes "length pk = 32" "length pk' = 32"
    and "epoch_cert_signing_message pk e w = epoch_cert_signing_message pk' e' w'"
  shows "pk = pk' \<and> e = e' \<and> w = w'"
  using assms by (auto simp: epoch_cert_signing_message_def put_eq put_eq_end)

lemma capability_issuance_message_inj:
  assumes "length lh = 32" "length lh' = 32" "length ar = 32" "length ar' = 32"
    and "capability_issuance_signing_message lh ar e = capability_issuance_signing_message lh' ar' e'"
  shows "lh = lh' \<and> ar = ar' \<and> e = e'"
  using assms by (auto simp: capability_issuance_signing_message_def put_eq put_eq_end)

lemma epoch_root_message_inj:
  assumes "length r1 = 32" "length r1' = 32" "length r2 = 32" "length r2' = 32"
    "length r3 = 32" "length r3' = 32"
    and "epoch_root_signing_message r1 r2 r3 e h = epoch_root_signing_message r1' r2' r3' e' h'"
  shows "r1 = r1' \<and> r2 = r2' \<and> r3 = r3' \<and> e = e' \<and> h = h'"
  using assms by (auto simp: epoch_root_signing_message_def put_eq put_eq_end)

lemma compromise_notice_message_inj:
  assumes "length pk = 32" "length pk' = 32"
    and "compromise_notice_signing_message pk e r = compromise_notice_signing_message pk' e' r'"
  shows "pk = pk' \<and> e = e' \<and> r = r'"
  using assms by (auto simp: compromise_notice_signing_message_def put_eq put_eq_end)

subsection \<open>The contract of a signed statement\<close>

locale signed_statement =
  fixes C :: crypto
    and msg :: "'s \<Rightarrow> bytes"
    and sg :: "'s \<Rightarrow> bytes"
    and verify :: "bytes \<Rightarrow> 's \<Rightarrow> unit result"
    and issue :: "bytes \<Rightarrow> 's \<Rightarrow> 's"
  assumes verify_iff: "verify pk s = Inr () \<longleftrightarrow> ed_key_ok C pk \<and> ed_verify_strict C pk (msg s) (sg s)"
    and issue_msg: "msg (issue sk s) = msg s"
    and issue_sg: "sg (issue sk s) = ed_sign C sk (msg s)"
begin

lemma issued_verifies: "sig_correct C \<Longrightarrow> verify (ed_verifying_key C sk) (issue sk s) = Inr ()"
  by (simp add: verify_iff issue_msg issue_sg sig_correct_def)

text \<open>
  If the key signed exactly the messages of \<open>made\<close> (nothing else verifies), an accepted statement
  has one of those messages.
\<close>

lemma accepted_was_signed:
  assumes "\<And>m s. ed_verify_strict C pk m s \<Longrightarrow> m \<in> made" "verify pk s = Inr ()"
  shows "msg s \<in> made"
  using assms by (auto simp: verify_iff)

end

interpretation cert_statement: signed_statement C
  "\<lambda>c. epoch_cert_signing_message (ec_epoch_pk c) (ec_epoch c) (ec_validity_window c)"
  ec_signature "verify_epoch_cert C"
  "\<lambda>sk c. issue_epoch_cert C \<lparr>rk_signing_key = sk\<rparr> (ec_epoch_pk c) (ec_epoch c) (ec_validity_window c)"
  for C
  by unfold_locales (simp_all add: verify_epoch_cert_def issue_epoch_cert_def Let_def result_simps)

interpretation notice_statement: signed_statement C
  "\<lambda>n. compromise_notice_signing_message (cn_compromised_epoch_pk n) (cn_compromised_epoch n)
     (cn_recovery_authority_root n)"
  cn_signature "verify_compromise_notice C"
  "\<lambda>sk n. issue_compromise_notice C \<lparr>rk_signing_key = sk\<rparr> (cn_compromised_epoch_pk n)
     (cn_compromised_epoch n) (cn_recovery_authority_root n)"
  for C
  by unfold_locales
    (simp_all add: verify_compromise_notice_def issue_compromise_notice_def Let_def result_simps)

text \<open>An epoch root statement is the authority state it covers together with the signature.\<close>

interpretation root_statement: signed_statement C
  "\<lambda>(s, _). epoch_root_signing_message (st_authority_root s) (st_revocation_root s)
     (st_transparency_root s) (st_epoch s) (st_prev_epoch_hash s)"
  snd
  "\<lambda>pk (s, sig). verify_epoch_root_sig C pk (st_authority_root s) (st_revocation_root s)
     (st_transparency_root s) (st_epoch s) (st_prev_epoch_hash s) sig"
  "\<lambda>sk (s, _). (s, sign_epoch_root C \<lparr>ek_signing_key = sk\<rparr> (st_authority_root s)
     (st_revocation_root s) (st_transparency_root s) (st_epoch s) (st_prev_epoch_hash s))"
  for C
  by unfold_locales
    (auto simp: verify_epoch_root_sig_def sign_epoch_root_def check_signature_ok split: prod.splits)

lemma issued_cert_verifies:
  "sig_correct C \<Longrightarrow> verify_epoch_cert C (root_verifying_key_bytes C kp)
     (issue_epoch_cert C kp pk e w) = Inr ()"
  using cert_statement.issued_verifies [of C "rk_signing_key kp"
      "\<lparr>ec_epoch_pk = pk, ec_epoch = e, ec_validity_window = w, ec_signature = []\<rparr>"]
  by (simp add: root_verifying_key_bytes_def issue_epoch_cert_def)

lemma signed_root_verifies:
  "sig_correct C \<Longrightarrow> verify_epoch_root_sig C (epoch_verifying_key_bytes C kp) r1 r2 r3 e h
     (sign_epoch_root C kp r1 r2 r3 e h) = Inr ()"
  by (simp add: verify_epoch_root_sig_def sign_epoch_root_def epoch_verifying_key_bytes_def
      check_signature_signed)

lemma issued_notice_verifies:
  "sig_correct C \<Longrightarrow> verify_compromise_notice C (root_verifying_key_bytes C kp)
     (issue_compromise_notice C kp pk e r) = Inr ()"
  using notice_statement.issued_verifies [of C "rk_signing_key kp"
      "\<lparr>cn_compromised_epoch_pk = pk, cn_compromised_epoch = e,
        cn_recovery_authority_root = r, cn_signature = []\<rparr>"]
  by (simp add: root_verifying_key_bytes_def issue_compromise_notice_def)

end
