(* ===== verification/Csk2_Tsig.thy ===== *)
theory Csk2_Tsig
  imports Csk2_Authority
begin

text \<open>
  The crate's \<open>src/kyriotes_csk2/tsig.rs\<close>: threshold co-signing of an epoch state. The loop of
  \<open>tsig_verify\<close> is \<open>tsig_scan\<close>, which carries the vector \<open>seen\<close> and the 32-bit counter. Its
  specification is \<open>tsig_valid_signers\<close>, the set of signers whose first partial signature is valid;
  the verifier accepts exactly when that set has at least the threshold's size. The counter
  cannot wrap while the key set has fewer than \<open>2 ^ 32\<close> members: it counts distinct signers.
\<close>

subsection \<open>Signature sets\<close>

definition tsig_new :: "u32 \<Rightarrow> threshold_signature_set" where
  "tsig_new threshold = \<lparr>ts_threshold = threshold, ts_partials = []\<rparr>"

definition tsig_add ::
    "threshold_signature_set \<Rightarrow> threshold_partial_sig \<Rightarrow> threshold_signature_set" where
  "tsig_add s partial = s\<lparr>ts_partials := ts_partials s @ [partial]\<rparr>"

definition tsig_epoch_signing_message ::
    "bytes \<Rightarrow> bytes \<Rightarrow> bytes \<Rightarrow> u64 \<Rightarrow> bytes \<Rightarrow> bytes" where
  "tsig_epoch_signing_message authority_root revocation_root transparency_root epoch
      prev_epoch_hash =
     ascii ''KYRIOTES-CSK2-TSIG-EPOCH-v2'' @ authority_root @ revocation_root @
     transparency_root @ put_u64 epoch @ prev_epoch_hash"

definition tsig_sign ::
    "crypto \<Rightarrow> bytes \<Rightarrow> bytes \<Rightarrow> bytes \<Rightarrow> u64 \<Rightarrow> bytes \<Rightarrow> epoch_signing_key_pair \<Rightarrow> u32 \<Rightarrow>
     threshold_partial_sig" where
  "tsig_sign C authority_root revocation_root transparency_root epoch prev_epoch_hash epoch_kp
      signer_index =
     (let msg = tsig_epoch_signing_message authority_root revocation_root transparency_root epoch
            prev_epoch_hash
      in \<lparr>ps_signer_index = signer_index, ps_sig = sign_message C epoch_kp msg\<rparr>)"

lemma tsig_fold_add: "foldl tsig_add s ps = s\<lparr>ts_partials := ts_partials s @ ps\<rparr>"
  by (induction ps arbitrary: s) (simp_all add: tsig_add_def)

subsection \<open>Verification\<close>

text \<open>\<open>if let Ok(pk) = VerifyingKey::from_bytes(..)\<close> and \<open>verify_strict(..).is_ok()\<close>.\<close>

definition partial_valid :: "crypto \<Rightarrow> bytes \<Rightarrow> bytes \<Rightarrow> bytes \<Rightarrow> bool" where
  "partial_valid C key msg sig \<longleftrightarrow> ed_key_ok C key \<and> ed_verify_strict C key msg sig"

fun tsig_scan ::
    "crypto \<Rightarrow> bytes \<Rightarrow> bytes list \<Rightarrow> threshold_partial_sig list \<Rightarrow> bool list \<Rightarrow> u32 \<Rightarrow> u32" where
  "tsig_scan C msg keys [] seen valid_count = valid_count"
| "tsig_scan C msg keys (partial # partials) seen valid_count =
     (let idx = unat (ps_signer_index partial)
      in if idx \<ge> length keys then tsig_scan C msg keys partials seen valid_count
         else if seen ! idx then tsig_scan C msg keys partials seen valid_count
         else tsig_scan C msg keys partials (seen[idx := True])
           (if partial_valid C (keys ! idx) msg (ps_sig partial)
            then valid_count + 1 else valid_count))"

definition tsig_verify ::
    "crypto \<Rightarrow> bytes \<Rightarrow> bytes \<Rightarrow> bytes \<Rightarrow> u64 \<Rightarrow> bytes \<Rightarrow> threshold_signature_set \<Rightarrow> bytes list \<Rightarrow>
     unit result" where
  "tsig_verify C authority_root revocation_root transparency_root epoch prev_epoch_hash sset
      authorized_keys =
     (if ts_threshold sset = 0 then Inl (Crypto ''threshold must be > 0'')
      else if unat (ts_threshold sset) > length authorized_keys
      then Inl (Crypto ''threshold exceeds authorized key count'')
      else
        let msg = tsig_epoch_signing_message authority_root revocation_root transparency_root
              epoch prev_epoch_hash;
            valid_count = tsig_scan C msg authorized_keys (ts_partials sset)
              (replicate (length authorized_keys) False) 0
        in if valid_count \<ge> ts_threshold sset then Inr ()
           else Inl (Crypto ''threshold not met: insufficient valid signatures''))"

subsection \<open>What the scan counts\<close>

text \<open>The first partial signature that claims an index, and the signers whose first one is valid.\<close>

definition first_partial :: "threshold_partial_sig list \<Rightarrow> nat \<Rightarrow> threshold_partial_sig option" where
  "first_partial ps i = List.find (\<lambda>p. unat (ps_signer_index p) = i) ps"

definition tsig_valid_signers ::
    "crypto \<Rightarrow> bytes \<Rightarrow> bytes list \<Rightarrow> threshold_partial_sig list \<Rightarrow> nat set" where
  "tsig_valid_signers C msg keys ps =
     {i. i < length keys \<and> (case first_partial ps i of None \<Rightarrow> False
        | Some p \<Rightarrow> partial_valid C (keys ! i) msg (ps_sig p))}"

lemma finite_valid_signers [simp]: "finite (tsig_valid_signers C msg keys ps)"
  by (rule finite_subset [of _ "{..<length keys}"]) (auto simp: tsig_valid_signers_def)

lemma card_valid_signers_le: "card (tsig_valid_signers C msg keys ps) \<le> length keys"
  by (rule order_trans [OF card_mono [of "{..<length keys}"]]) (auto simp: tsig_valid_signers_def)

text \<open>The signers the rest of a scan still counts: those not yet seen.\<close>

definition unseen :: "bool list \<Rightarrow> nat set" where
  "unseen seen = {i. i < length seen \<and> \<not> seen ! i}"

lemma valid_signers_Cons:
  "tsig_valid_signers C msg keys (p # ps) =
     (let i = unat (ps_signer_index p) in
      tsig_valid_signers C msg keys ps - {i} \<union>
      (if i < length keys \<and> partial_valid C (keys ! i) msg (ps_sig p) then {i} else {}))"
  by (auto simp: tsig_valid_signers_def first_partial_def Let_def)

lemma unseen_update: "unseen (seen[i := True]) = unseen seen - {i}"
  by (cases "i < length seen") (auto simp: unseen_def nth_list_update split: if_splits)

lemma tsig_scan_count:
  assumes "length seen = length keys"
    and "unat n + card (tsig_valid_signers C msg keys ps \<inter> unseen seen) < 2 ^ 32"
  shows "unat (tsig_scan C msg keys ps seen n) =
    unat n + card (tsig_valid_signers C msg keys ps \<inter> unseen seen)"
  using assms
proof (induction ps arbitrary: seen n)
  case Nil
  then show ?case by (simp add: tsig_valid_signers_def first_partial_def)
next
  case (Cons p ps)
  let ?i = "unat (ps_signer_index p)"
  let ?V = "tsig_valid_signers C msg keys"
  let ?S = "?V ps \<inter> unseen (seen[?i := True])"
  show ?case
  proof (cases "?i < length keys \<and> \<not> seen ! ?i")
    case False
    then have "?V (p # ps) \<inter> unseen seen = ?V ps \<inter> unseen seen"
      using Cons.prems(1) by (auto simp: tsig_valid_signers_def first_partial_def unseen_def)
    moreover have "tsig_scan C msg keys (p # ps) seen n = tsig_scan C msg keys ps seen n"
      using False by (auto simp: Let_def)
    ultimately show ?thesis using Cons by simp
  next
    case True
    let ?ok = "partial_valid C (keys ! ?i) msg (ps_sig p)"
    let ?n = "if ?ok then n + 1 else n"
    have V: "?V (p # ps) \<inter> unseen seen = (if ?ok then insert ?i ?S else ?S)"
      using True Cons.prems(1) unfolding valid_signers_Cons Let_def unseen_update
      by (auto simp: unseen_def)
    have "?i \<notin> ?S" by (simp add: unseen_update)
    then have card: "card (?V (p # ps) \<inter> unseen seen) = (if ?ok then 1 else 0) + card ?S"
      by (simp add: V)
    have "unat ?n = unat n + (if ?ok then 1 else 0)"
      using Cons.prems(2) card by (cases ?ok) (simp_all add: unat_word_ariths)
    then have "unat (tsig_scan C msg keys ps (seen[?i := True]) ?n) = unat ?n + card ?S"
      using Cons.prems card by (intro Cons.IH) simp_all
    with True card \<open>unat ?n = _\<close> show ?thesis by (simp add: Let_def)
  qed
qed

lemma tsig_verify_iff:
  assumes "length keys < 2 ^ 32"
  shows "tsig_verify C r1 r2 r3 e h sset keys = Inr () \<longleftrightarrow>
    0 < unat (ts_threshold sset) \<and> unat (ts_threshold sset) \<le>
      card (tsig_valid_signers C (tsig_epoch_signing_message r1 r2 r3 e h) keys (ts_partials sset))"
    (is "_ \<longleftrightarrow> 0 < ?t \<and> ?t \<le> card ?V")
proof -
  have "?V \<inter> unseen (replicate (length keys) False) = ?V"
    by (auto simp: unseen_def tsig_valid_signers_def)
  moreover have "card ?V < 2 ^ 32" using card_valid_signers_le assms by (rule le_less_trans)
  ultimately have "unat (tsig_scan C (tsig_epoch_signing_message r1 r2 r3 e h) keys
      (ts_partials sset) (replicate (length keys) False) 0) = card ?V"
    using tsig_scan_count [of "replicate (length keys) False" keys 0] by simp
  moreover have "ts_threshold sset = 0 \<longleftrightarrow> ?t = 0" by (simp add: unat_eq_0)
  moreover have "?t \<le> card ?V \<Longrightarrow> ?t \<le> length keys"
    by (rule order_trans [OF _ card_valid_signers_le])
  ultimately show ?thesis by (simp add: tsig_verify_def Let_def word_le_nat_alt) fastforce
qed

lemma tsig_message_domain:
  "tsig_epoch_signing_message r1 r2 r3 e h \<noteq> epoch_root_signing_message q1 q2 q3 e' h'"
  "tsig_epoch_signing_message r1 r2 r3 e h \<noteq> epoch_cert_signing_message pk e2 w"
  "tsig_epoch_signing_message r1 r2 r3 e h \<noteq> capability_issuance_signing_message lh ar e3"
  "tsig_epoch_signing_message r1 r2 r3 e h \<noteq> compromise_notice_signing_message pk' e4 rr"
  unfolding epoch_cert_signing_message_def capability_issuance_signing_message_def
    epoch_root_signing_message_def compromise_notice_signing_message_def
    tsig_epoch_signing_message_def
  by (rule ascii_clash [where n = 21]; simp)+

text \<open>Honest signers: enough distinct participants that sign one state are accepted.\<close>

lemma tsig_honest_signers:
  assumes "sig_correct C" "length kps < 2 ^ 32" "distinct is" "\<forall>i \<in> set is. i < length kps"
  shows "set is \<subseteq> tsig_valid_signers C (tsig_epoch_signing_message r1 r2 r3 e h)
      (map (epoch_verifying_key_bytes C) kps)
      (map (\<lambda>i. tsig_sign C r1 r2 r3 e h (kps ! i) (word_of_nat i)) is)"
proof
  fix i
  assume i: "i \<in> set is"
  let ?sign = "\<lambda>i. tsig_sign C r1 r2 r3 e h (kps ! i) (word_of_nat i)"
  have idx: "unat (ps_signer_index (?sign j)) = j" if "j < length kps" for j
    using that assms(2) by (simp add: tsig_sign_def unat_of_nat)
  have "first_partial (map ?sign js) i = Some (?sign i)"
    if "i \<in> set js" "\<forall>j \<in> set js. j < length kps" for js
    using that by (induction js) (auto simp: first_partial_def idx)
  with i assms(4) have "first_partial (map ?sign is) i = Some (?sign i)" by blast
  moreover have "i < length kps" using i assms(4) by blast
  ultimately show "i \<in> tsig_valid_signers C (tsig_epoch_signing_message r1 r2 r3 e h)
      (map (epoch_verifying_key_bytes C) kps) (map ?sign is)"
    using assms(1) by (simp add: tsig_valid_signers_def partial_valid_def tsig_sign_def
        sign_message_def epoch_verifying_key_bytes_def sig_correct_def Let_def)
qed

text \<open>
  Enough honest signers are accepted: if at least \<open>t > 0\<close> distinct participants sign one epoch
  state, the set of their partial signatures passes verification of that state at threshold \<open>t\<close>.
\<close>

lemma honest_threshold_accepted:
  assumes "sig_correct C" "length kps < 2 ^ 32" "distinct signers" "\<forall>i \<in> set signers. i < length kps"
    and "0 < t" "unat t \<le> length signers"
  shows "tsig_verify C r1 r2 r3 e h
    (foldl tsig_add (tsig_new t) (map (\<lambda>i. tsig_sign C r1 r2 r3 e h (kps ! i) (word_of_nat i)) signers))
    (map (epoch_verifying_key_bytes C) kps) = Inr ()"
proof -
  let ?ps = "map (\<lambda>i. tsig_sign C r1 r2 r3 e h (kps ! i) (word_of_nat i)) signers"
  let ?V = "tsig_valid_signers C (tsig_epoch_signing_message r1 r2 r3 e h) (map (epoch_verifying_key_bytes C) kps) ?ps"
  have "length signers \<le> card ?V"
    using card_mono [OF finite_valid_signers tsig_honest_signers [OF assms(1-4)]] distinct_card [OF assms(3)] by metis
  moreover have "foldl tsig_add (tsig_new t) ?ps = \<lparr>ts_threshold = t, ts_partials = ?ps\<rparr>"
    by (simp add: tsig_fold_add tsig_new_def)
  ultimately show ?thesis using assms(2,5,6) by (simp add: tsig_verify_iff word_less_nat_alt)
qed

end
