(* ===== verification/Csk2_Verify.thy ===== *)
theory Csk2_Verify
  imports Csk2_Transparency Csk2_Tsig
begin

text \<open>
  The crate's \<open>src/kyriotes_csk2/verify.rs\<close>: verified authority states, the evidence registry and the
  three verifiers. The trait \<open>AuthorityVerifier\<close> has one method, so code that is generic in a
  verifier takes that function. The locale \<open>authority_verifier\<close> is what every verifier of the crate
  guarantees: it returns the state it was given, and only when the transparency proof holds.
\<close>

subsection \<open>Verified states\<close>

datatype verification_path = Legacy | CertChain | Stub

record authority_verification_evidence =
  av_path :: verification_path

record verified_authority_state =
  va_inner :: authority_state
  va_evidence :: authority_verification_evidence

definition verified_new ::
    "authority_state \<Rightarrow> authority_verification_evidence \<Rightarrow> verified_authority_state" where
  "verified_new inner evidence = \<lparr>va_inner = inner, va_evidence = evidence\<rparr>"

definition as_state :: "verified_authority_state \<Rightarrow> authority_state" where
  "as_state v = va_inner v"

definition verified_authority_root :: "verified_authority_state \<Rightarrow> bytes" where
  "verified_authority_root v = st_authority_root (va_inner v)"

definition verified_revocation_root :: "verified_authority_state \<Rightarrow> bytes" where
  "verified_revocation_root v = st_revocation_root (va_inner v)"

definition verified_transparency_root :: "verified_authority_state \<Rightarrow> bytes" where
  "verified_transparency_root v = st_transparency_root (va_inner v)"

definition verified_epoch :: "verified_authority_state \<Rightarrow> u64" where
  "verified_epoch v = st_epoch (va_inner v)"

definition verified_authority_id :: "verified_authority_state \<Rightarrow> bytes" where
  "verified_authority_id v = st_authority_id (va_inner v)"

definition verified_revocation_count :: "verified_authority_state \<Rightarrow> u64" where
  "verified_revocation_count v = st_revocation_count (va_inner v)"

definition verified_prev_epoch_hash :: "verified_authority_state \<Rightarrow> bytes" where
  "verified_prev_epoch_hash v = st_prev_epoch_hash (va_inner v)"

type_synonym verifier = "authority_state \<Rightarrow> transparency_proof \<Rightarrow> verified_authority_state result"

subsection \<open>The stub verifiers\<close>

definition stub_verify_state :: "crypto \<Rightarrow> verifier" where
  "stub_verify_state C state transparency_proof =
     bind_r (verify_transparency_proof C state transparency_proof) (\<lambda>_.
     Inr (verified_new state \<lparr>av_path = Stub\<rparr>))"

definition basic_verify_state :: "crypto \<Rightarrow> verifier" where
  "basic_verify_state C state transparency_proof = stub_verify_state C state transparency_proof"

subsection \<open>The evidence registry\<close>

record tsig_evidence =
  tg_authorized_keys :: "bytes list"
  tg_set :: threshold_signature_set

record authority_epoch_evidence =
  ae_authority_id :: bytes
  ae_epoch :: u64
  ae_epoch_pk :: bytes
  ae_epoch_root_sig :: bytes
  ae_epoch_cert :: epoch_key_cert
  ae_tsig :: "tsig_evidence option"

record authority_evidence_registry =
  rg_entries :: "authority_epoch_evidence list"

definition registry_new :: authority_evidence_registry where
  "registry_new = \<lparr>rg_entries = []\<rparr>"

definition registry_add ::
    "authority_evidence_registry \<Rightarrow> authority_epoch_evidence \<Rightarrow> authority_evidence_registry" where
  "registry_add reg evidence =
     (case replace_first
          (\<lambda>e. ae_authority_id e = ae_authority_id evidence \<and> ae_epoch e = ae_epoch evidence)
          evidence (rg_entries reg) of
        Some entries \<Rightarrow> reg\<lparr>rg_entries := entries\<rparr>
      | None \<Rightarrow> reg\<lparr>rg_entries := rg_entries reg @ [evidence]\<rparr>)"

definition registry_find ::
    "authority_evidence_registry \<Rightarrow> bytes \<Rightarrow> u64 \<Rightarrow> authority_epoch_evidence option" where
  "registry_find reg authority_id epoch =
     List.find (\<lambda>e. ae_authority_id e = authority_id \<and> ae_epoch e = epoch) (rg_entries reg)"

subsection \<open>The cryptographic verifier\<close>

record crypto_authority_verifier =
  cv_evidence_registry :: authority_evidence_registry
  cv_root_pk :: "bytes option"

definition verifier_new :: crypto_authority_verifier where
  "verifier_new = \<lparr>cv_evidence_registry = registry_new, cv_root_pk = None\<rparr>"

definition with_root_pk :: "bytes \<Rightarrow> crypto_authority_verifier" where
  "with_root_pk root_pk = \<lparr>cv_evidence_registry = registry_new, cv_root_pk = Some root_pk\<rparr>"

definition add_evidence ::
    "crypto_authority_verifier \<Rightarrow> bytes \<Rightarrow> u64 \<Rightarrow> bytes \<Rightarrow> bytes \<Rightarrow> epoch_key_cert \<Rightarrow>
     crypto_authority_verifier" where
  "add_evidence v authority_id epoch epoch_pk epoch_root_sig epoch_cert =
     v\<lparr>cv_evidence_registry := registry_add (cv_evidence_registry v)
        \<lparr>ae_authority_id = authority_id, ae_epoch = epoch, ae_epoch_pk = epoch_pk,
         ae_epoch_root_sig = epoch_root_sig, ae_epoch_cert = epoch_cert, ae_tsig = None\<rparr>\<rparr>"

definition add_evidence_tsig ::
    "crypto_authority_verifier \<Rightarrow> bytes \<Rightarrow> u64 \<Rightarrow> bytes \<Rightarrow> epoch_key_cert \<Rightarrow> bytes list \<Rightarrow>
     threshold_signature_set \<Rightarrow> crypto_authority_verifier" where
  "add_evidence_tsig v authority_id epoch epoch_pk epoch_cert authorized_keys tsig_set =
     v\<lparr>cv_evidence_registry := registry_add (cv_evidence_registry v)
        \<lparr>ae_authority_id = authority_id, ae_epoch = epoch, ae_epoch_pk = epoch_pk,
         ae_epoch_root_sig = zeros 64, ae_epoch_cert = epoch_cert,
         ae_tsig = Some \<lparr>tg_authorized_keys = authorized_keys, tg_set = tsig_set\<rparr>\<rparr>\<rparr>"

definition authority_state_signing_message :: "authority_state \<Rightarrow> bytes" where
  "authority_state_signing_message state =
     ascii ''KYRIOTES-CSK2-AUTHORITY-STATE-SIG-v2'' @
     put_bytes (st_authority_root state) @
     put_bytes (st_revocation_root state) @
     put_bytes (st_transparency_root state) @
     put_u64 (st_epoch state) @
     put_str (st_authority_id state) @
     put_u64 (st_revocation_count state) @
     put_bytes (st_prev_epoch_hash state)"

text \<open>The two arms of \<open>match &self.root_pk\<close>.\<close>

definition verify_cert_chain ::
    "crypto \<Rightarrow> bytes \<Rightarrow> authority_epoch_evidence \<Rightarrow> authority_state \<Rightarrow> verification_path result" where
  "verify_cert_chain C root_pk evidence state =
     bind_r (verify_epoch_cert C root_pk (ae_epoch_cert evidence)) (\<lambda>_.
     let cert = ae_epoch_cert evidence;
         cert_epoch_end = saturating_add (ec_epoch cert) (ec_validity_window cert)
     in if st_epoch state \<ge> cert_epoch_end
        then Inl (AuthorityStateErr ''epoch key certificate has expired for this epoch'')
        else bind_r
          (case ae_tsig evidence of
             Some tsig_ev \<Rightarrow>
               map_err (\<lambda>_. AuthorityStateErr ''threshold epoch root signature failed'')
                 (tsig_verify C (st_authority_root state) (st_revocation_root state)
                    (st_transparency_root state) (st_epoch state) (st_prev_epoch_hash state)
                    (tg_set tsig_ev) (tg_authorized_keys tsig_ev))
           | None \<Rightarrow>
               verify_epoch_root_sig C (ec_epoch_pk cert) (st_authority_root state)
                 (st_revocation_root state) (st_transparency_root state) (st_epoch state)
                 (st_prev_epoch_hash state) (ae_epoch_root_sig evidence))
          (\<lambda>_. Inr CertChain))"

definition verify_legacy ::
    "crypto \<Rightarrow> authority_epoch_evidence \<Rightarrow> authority_state \<Rightarrow> verification_path result" where
  "verify_legacy C evidence state =
     bind_r (check_signature C (ae_epoch_pk evidence)
       (AuthorityStateErr ''invalid authority public key'')
       (authority_state_signing_message state) (ae_epoch_root_sig evidence)
       (AuthorityStateErr ''invalid authority signature'')) (\<lambda>_. Inr Legacy)"

definition crypto_verify_state :: "crypto \<Rightarrow> crypto_authority_verifier \<Rightarrow> verifier" where
  "crypto_verify_state C v state transparency_proof =
     bind_r (ok_or (registry_find (cv_evidence_registry v) (st_authority_id state) (st_epoch state))
       (AuthorityStateErr ''missing authority key/signature evidence for epoch'')) (\<lambda>evidence.
     bind_r (case cv_root_pk v of
         Some root_pk \<Rightarrow> verify_cert_chain C root_pk evidence state
       | None \<Rightarrow> verify_legacy C evidence state) (\<lambda>path.
     bind_r (verify_transparency_proof C state transparency_proof) (\<lambda>_.
     Inr (verified_new state \<lparr>av_path = path\<rparr>))))"

subsection \<open>The registry\<close>

text \<open>A registry is a map from authority and epoch to the evidence registered last.\<close>

lemma registry_find_add:
  "registry_find (registry_add reg ev) a e =
     (if a = ae_authority_id ev \<and> e = ae_epoch ev then Some ev else registry_find reg a e)"
proof -
  let ?P = "\<lambda>x. ae_authority_id x = ae_authority_id ev \<and> ae_epoch x = ae_epoch ev"
  let ?Q = "\<lambda>x. ae_authority_id x = a \<and> ae_epoch x = e"
  have other: "?P x \<Longrightarrow> \<not> ?Q x" if "\<not> (a = ae_authority_id ev \<and> e = ae_epoch ev)" for x
    using that by auto
  show ?thesis
  proof (cases "replace_first ?P ev (rg_entries reg)")
    case None
    then have "List.find ?P (rg_entries reg) = None"
      by (simp add: replace_first_None find_None_iff)
    with None show ?thesis
      by (auto simp: registry_find_def registry_add_def find_append split: option.splits)
  next
    case (Some entries)
    with find_replace_first [OF Some] find_replace_first_other [OF Some, of ?Q] other show ?thesis
      by (auto simp: registry_find_def registry_add_def)
  qed
qed

subsection \<open>The contract of a verifier\<close>

locale authority_verifier =
  fixes C :: crypto
    and verify_state :: verifier
  assumes verified_inner: "verify_state s p = Inr v \<Longrightarrow> va_inner v = s"
    and verified_logged: "verify_state s p = Inr v \<Longrightarrow> verify_transparency_proof C s p = Inr ()"
begin

lemma verified_as_state: "verify_state s p = Inr v \<Longrightarrow> as_state v = s"
  by (simp add: as_state_def verified_inner)

lemma verified_leaf: "verify_state s p = Inr v \<Longrightarrow>
    merkle_root_from_proof C (transparency_leaf_hash C (as_state v)) (tp_sibling_hashes p)
      (tp_leaf_index p) = st_transparency_root (as_state v)"
  using verified_logged [of s p v] by (simp add: verify_transparency_proof_ok verified_as_state)

end

interpretation stub_verifier: authority_verifier C "stub_verify_state C" for C
  by unfold_locales (auto simp: stub_verify_state_def verified_new_def bind_r_eq_Inr)

interpretation basic_verifier: authority_verifier C "basic_verify_state C" for C
  using stub_verifier.authority_verifier_axioms by (simp add: basic_verify_state_def [abs_def])

lemma crypto_verify_state_ok:
  "crypto_verify_state C v s p = Inr x \<longleftrightarrow>
     (\<exists>ev path. registry_find (cv_evidence_registry v) (st_authority_id s) (st_epoch s) = Some ev \<and>
        (case cv_root_pk v of Some pk \<Rightarrow> verify_cert_chain C pk ev s | None \<Rightarrow> verify_legacy C ev s)
          = Inr path \<and>
        verify_transparency_proof C s p = Inr () \<and> x = verified_new s \<lparr>av_path = path\<rparr>)"
  by (auto simp: crypto_verify_state_def bind_r_eq_Inr ok_or_eq_Inr)

interpretation crypto_verifier: authority_verifier C "crypto_verify_state C v" for C v
  by unfold_locales (auto simp: crypto_verify_state_ok verified_new_def)

subsection \<open>What the certificate chain establishes\<close>

lemma verify_cert_chain_ok:
  "verify_cert_chain C pk ev s = Inr path \<longleftrightarrow>
     (let cert = ae_epoch_cert ev in
      path = CertChain \<and> verify_epoch_cert C pk cert = Inr () \<and>
      unat (st_epoch s) < min (unat (ec_epoch cert) + unat (ec_validity_window cert)) (2 ^ 64 - 1) \<and>
      (case ae_tsig ev of
         Some t \<Rightarrow> tsig_verify C (st_authority_root s) (st_revocation_root s) (st_transparency_root s)
           (st_epoch s) (st_prev_epoch_hash s) (tg_set t) (tg_authorized_keys t) = Inr ()
       | None \<Rightarrow> verify_epoch_root_sig C (ec_epoch_pk cert) (st_authority_root s)
           (st_revocation_root s) (st_transparency_root s) (st_epoch s) (st_prev_epoch_hash s)
           (ae_epoch_root_sig ev) = Inr ()))"
  by (auto simp: verify_cert_chain_def Let_def bind_r_eq_Inr map_err_eq_Inr word_le_nat_alt
      unat_saturating_add not_le split: option.splits)

lemma crypto_verifier_path:
  assumes "crypto_verify_state C v s p = Inr x"
  shows "av_path (va_evidence x) = (if cv_root_pk v = None then Legacy else CertChain)"
  using assms
  by (auto simp: crypto_verify_state_ok verify_cert_chain_ok verify_legacy_def verified_new_def
      bind_r_eq_Inr Let_def split: option.splits)

lemma chain_verifier_accepts:
  assumes "sig_correct C" "verify_transparency_proof C s p = Inr ()"
    and "registry_find (cv_evidence_registry v) (st_authority_id s) (st_epoch s) = Some ev"
    and "cv_root_pk v = Some (root_verifying_key_bytes C rkp)"
    and "ae_epoch_cert ev = issue_epoch_cert C rkp (epoch_verifying_key_bytes C kp) e w"
    and "ae_tsig ev = None"
    and "ae_epoch_root_sig ev = sign_epoch_root C kp (st_authority_root s) (st_revocation_root s)
      (st_transparency_root s) (st_epoch s) (st_prev_epoch_hash s)"
    and "unat (st_epoch s) < min (unat e + unat w) (2 ^ 64 - 1)"
  shows "crypto_verify_state C v s p = Inr (verified_new s \<lparr>av_path = CertChain\<rparr>)"
  using assms issued_cert_verifies [OF assms(1), of rkp] signed_root_verifies [OF assms(1), of kp]
  by (simp add: crypto_verify_state_ok verify_cert_chain_ok Let_def issue_epoch_cert_def)

lemma legacy_verifier_accepts:
  assumes "sig_correct C" "verify_transparency_proof C s p = Inr ()"
    and "registry_find (cv_evidence_registry v) (st_authority_id s) (st_epoch s) = Some ev"
    and "cv_root_pk v = None" "ae_epoch_pk ev = ed_verifying_key C sk"
    and "ae_epoch_root_sig ev = ed_sign C sk (authority_state_signing_message s)"
  shows "crypto_verify_state C v s p = Inr (verified_new s \<lparr>av_path = Legacy\<rparr>)"
  using assms by (simp add: crypto_verify_state_ok verify_legacy_def check_signature_signed)

lemma legacy_message_domain:
  "authority_state_signing_message s \<noteq> epoch_cert_signing_message pk e w"
  "authority_state_signing_message s \<noteq> capability_issuance_signing_message lh ar e2"
  "authority_state_signing_message s \<noteq> epoch_root_signing_message r1 r2 r3 e3 h"
  "authority_state_signing_message s \<noteq> compromise_notice_signing_message pk' e4 rr"
  "authority_state_signing_message s \<noteq> tsig_epoch_signing_message q1 q2 q3 e5 h'"
  unfolding epoch_cert_signing_message_def capability_issuance_signing_message_def
    epoch_root_signing_message_def compromise_notice_signing_message_def
    tsig_epoch_signing_message_def authority_state_signing_message_def
  by (rule ascii_clash [where n = 21]; simp)+

lemma authority_state_message_inj:
  assumes "wf_state s" "wf_state t"
    and "authority_state_signing_message s = authority_state_signing_message t"
  shows "s = t\<lparr>st_root_pk := st_root_pk s\<rparr>"
  using assms by (intro authority_state.equality)
    (simp_all add: authority_state_signing_message_def wf_state_def wf_str_def put_eq put_eq_end)

text \<open>
  The evidence registry is a map from authority and epoch: adding evidence through the verifier
  replaces what was registered for that authority and epoch and leaves everything else, and the
  root key, alone.
\<close>

lemma evidence_registry_is_map:
  "registry_find (cv_evidence_registry (add_evidence v a e pk sig cert)) b f =
     (if b = a \<and> f = e
      then Some \<lparr>ae_authority_id = a, ae_epoch = e, ae_epoch_pk = pk, ae_epoch_root_sig = sig,
        ae_epoch_cert = cert, ae_tsig = None\<rparr>
      else registry_find (cv_evidence_registry v) b f) \<and>
   registry_find (cv_evidence_registry (add_evidence_tsig v a e pk cert keys sigs)) b f =
     (if b = a \<and> f = e
      then Some \<lparr>ae_authority_id = a, ae_epoch = e, ae_epoch_pk = pk, ae_epoch_root_sig = zeros 64,
        ae_epoch_cert = cert, ae_tsig = Some \<lparr>tg_authorized_keys = keys, tg_set = sigs\<rparr>\<rparr>
      else registry_find (cv_evidence_registry v) b f) \<and>
   cv_root_pk (add_evidence v a e pk sig cert) = cv_root_pk v \<and>
   cv_root_pk (add_evidence_tsig v a e pk cert keys sigs) = cv_root_pk v"
  by (simp add: add_evidence_def add_evidence_tsig_def registry_find_add)

text \<open>A verifier that was given an epoch's certificate and signature accepts the committed state, and loses nothing.\<close>

lemma evidence_accepted:
  assumes "sig_correct C" "cv_root_pk v = Some (root_verifying_key_bytes C rkp)" "verify_transparency_proof C s tp = Inr ()"
    and "0 < w" "unat (st_epoch s) + unat w < 2 ^ 64 - 1"
  shows "is_ok (crypto_verify_state C (add_evidence v (st_authority_id s) (st_epoch s) (epoch_verifying_key_bytes C kp)
    (sign_epoch_root C kp (st_authority_root s) (st_revocation_root s) (st_transparency_root s) (st_epoch s) (st_prev_epoch_hash s))
    (issue_epoch_cert C rkp (epoch_verifying_key_bytes C kp) (st_epoch s) w)) s tp)"
proof -
  have "0 < unat w" using assms(4) by (simp add: word_less_nat_alt)
  with assms show ?thesis
    by (simp add: is_ok_iff crypto_verify_state_ok add_evidence_def registry_find_add verify_cert_chain_ok
        issued_cert_verifies signed_root_verifies Let_def) (simp add: issue_epoch_cert_def signed_root_verifies)
qed

lemma evidence_kept:
  assumes "is_ok (crypto_verify_state C v s tp)" "st_epoch s \<noteq> e"
  shows "is_ok (crypto_verify_state C (add_evidence v a e pk sig cert) s tp)"
  using assms by (auto simp: is_ok_iff crypto_verify_state_ok add_evidence_def registry_find_add)

end
