(* ===== verification/Csk2_Capability_Tree.thy ===== *)
theory Csk2_Capability_Tree
  imports Csk2_Merkle Csk2_Authority
begin

text \<open>
  The crate's \<open>src/kyriotes_csk2/capability_tree.rs\<close>: the authority's capability set and its
  sorted revocation set, the proofs it generates and the standalone verifiers.

  The invariant \<open>tree_wf\<close> (distinct leaves, revoked stamps in strictly ascending order) holds in
  every reachable tree. The revocation set is specified by the set of revoked stamps. For the
  verifiers there is completeness (what the tree generates is accepted) and, for proofs that
  have the depth of the tree, soundness; the verifiers do not check the depth themselves.
\<close>

subsection \<open>The tree\<close>

record authority_capability_tree =
  ct_leaf_hashes :: "bytes list"
  ct_revoked_stamps :: "bytes list"

definition tree_new :: authority_capability_tree where
  "tree_new = \<lparr>ct_leaf_hashes = [], ct_revoked_stamps = []\<rparr>"

definition add_capability ::
    "crypto \<Rightarrow> authority_capability_tree \<Rightarrow> capability \<Rightarrow> bytes \<times> authority_capability_tree" where
  "add_capability C tree cap =
     (let leaf_hash = capability_leaf_hash C cap
      in (leaf_hash,
          if leaf_hash \<in> set (ct_leaf_hashes tree) then tree
          else tree\<lparr>ct_leaf_hashes := ct_leaf_hashes tree @ [leaf_hash]\<rparr>))"

definition revoke_stamp :: "authority_capability_tree \<Rightarrow> bytes \<Rightarrow> authority_capability_tree" where
  "revoke_stamp tree stamp =
     (let revoked = ct_revoked_stamps tree;
          pos = partition_point (\<lambda>s. s < stamp) revoked
      in if pos < length revoked \<and> revoked ! pos = stamp then tree
         else tree\<lparr>ct_revoked_stamps := insert_at pos stamp revoked\<rparr>)"

definition tree_revoke_capability ::
    "crypto \<Rightarrow> authority_capability_tree \<Rightarrow> capability \<Rightarrow> authority_state \<Rightarrow>
     authority_capability_tree" where
  "tree_revoke_capability C tree cap state = revoke_stamp tree (capability_stamp C cap state)"

definition revocation_proof_for_index ::
    "crypto \<Rightarrow> authority_capability_tree \<Rightarrow> nat \<Rightarrow> capability_inclusion_proof" where
  "revocation_proof_for_index C tree index =
     \<lparr>ip_leaf_hash = ct_revoked_stamps tree ! index,
      ip_sibling_hashes = merkle_proof_for_index_cap C (ct_revoked_stamps tree) index,
      ip_leaf_index = word_of_nat index\<rparr>"

definition tree_non_revocation_witness ::
    "crypto \<Rightarrow> authority_capability_tree \<Rightarrow> bytes \<Rightarrow> non_revocation_witness result" where
  "tree_non_revocation_witness C tree stamp =
     (let revoked = ct_revoked_stamps tree;
          pos = partition_point (\<lambda>s. s < stamp) revoked
      in if pos < length revoked \<and> revoked ! pos = stamp
         then Inl (InvalidCapability ''capability is revoked; no non-revocation witness possible'')
         else Inr
           \<lparr>nw_stamp = stamp,
            nw_total_revoked = word_of_nat (length revoked),
            nw_left =
              (if pos > 0
               then Some \<lparr>nb_stamp = revoked ! (pos - 1),
                      nb_proof = revocation_proof_for_index C tree (pos - 1)\<rparr>
               else None),
            nw_right =
              (if pos < length revoked
               then Some \<lparr>nb_stamp = revoked ! pos,
                      nb_proof = revocation_proof_for_index C tree pos\<rparr>
               else None)\<rparr>)"

definition tree_authority_root :: "crypto \<Rightarrow> authority_capability_tree \<Rightarrow> bytes" where
  "tree_authority_root C tree = merkle_root C (ct_leaf_hashes tree)"

definition tree_revocation_root :: "crypto \<Rightarrow> authority_capability_tree \<Rightarrow> bytes" where
  "tree_revocation_root C tree = merkle_root C (ct_revoked_stamps tree)"

definition inclusion_proof ::
    "crypto \<Rightarrow> authority_capability_tree \<Rightarrow> capability \<Rightarrow> capability_inclusion_proof option" where
  "inclusion_proof C tree cap =
     (let leaf_hash = capability_leaf_hash C cap
      in map_option (\<lambda>index.
           \<lparr>ip_leaf_hash = leaf_hash,
            ip_sibling_hashes = merkle_proof_for_index_cap C (ct_leaf_hashes tree) index,
            ip_leaf_index = word_of_nat index\<rparr>)
         (position (\<lambda>h. h = leaf_hash) (ct_leaf_hashes tree)))"

definition is_revoked :: "authority_capability_tree \<Rightarrow> bytes \<Rightarrow> bool" where
  "is_revoked tree stamp \<longleftrightarrow> stamp \<in> set (ct_revoked_stamps tree)"

definition tree_len :: "authority_capability_tree \<Rightarrow> nat" where
  "tree_len tree = length (ct_leaf_hashes tree)"

definition tree_is_empty :: "authority_capability_tree \<Rightarrow> bool" where
  "tree_is_empty tree \<longleftrightarrow> ct_leaf_hashes tree = []"

definition tree_revocation_count :: "authority_capability_tree \<Rightarrow> u64" where
  "tree_revocation_count tree = word_of_nat (length (ct_revoked_stamps tree))"

subsection \<open>Verifiers\<close>

definition capability_proof_leaf_matches :: "bytes \<Rightarrow> bytes \<Rightarrow> bool" where
  "capability_proof_leaf_matches proof_leaf expected_leaf \<longleftrightarrow> proof_leaf = expected_leaf"

definition non_revocation_left_order_valid :: "bytes \<Rightarrow> bytes \<Rightarrow> bool" where
  "non_revocation_left_order_valid left_stamp target_stamp \<longleftrightarrow> left_stamp < target_stamp"

definition non_revocation_right_order_valid :: "bytes \<Rightarrow> bytes \<Rightarrow> bool" where
  "non_revocation_right_order_valid target_stamp right_stamp \<longleftrightarrow> target_stamp < right_stamp"

definition non_revocation_left_is_last :: "u64 \<Rightarrow> u64 \<Rightarrow> bool" where
  "non_revocation_left_is_last left_index expected_revocation_count \<longleftrightarrow>
     expected_revocation_count > 0 \<and> left_index = expected_revocation_count - 1"

definition non_revocation_right_is_first :: "u64 \<Rightarrow> bool" where
  "non_revocation_right_is_first right_index \<longleftrightarrow> right_index = 0"

definition non_revocation_boundaries_are_adjacent :: "u64 \<Rightarrow> u64 \<Rightarrow> bool" where
  "non_revocation_boundaries_are_adjacent left_index right_index \<longleftrightarrow>
     checked_add left_index 1 = Some right_index"

definition verify_capability_inclusion ::
    "crypto \<Rightarrow> capability \<Rightarrow> capability_inclusion_proof \<Rightarrow> bytes \<Rightarrow> unit result" where
  "verify_capability_inclusion C cap proof authority_root =
     (let expected_leaf = capability_leaf_hash C cap
      in if \<not> capability_proof_leaf_matches (ip_leaf_hash proof) expected_leaf
         then Inl (InvalidCapability ''inclusion proof leaf hash does not match capability'')
         else if \<not> verify_merkle_path C (ip_leaf_hash proof) (ip_sibling_hashes proof)
             (ip_leaf_index proof) authority_root
         then Inl (InvalidCapability ''capability Merkle inclusion proof root mismatch'')
         else Inr ())"

text \<open>The two blocks \<open>if let Some(left)\<close> and \<open>if let Some(right)\<close> of \<open>verify_non_revocation\<close>.\<close>

definition check_left_bound ::
    "crypto \<Rightarrow> bytes \<Rightarrow> bytes \<Rightarrow> non_revocation_bound option \<Rightarrow> unit result" where
  "check_left_bound C stamp revocation_root bound =
     (case bound of None \<Rightarrow> Inr ()
      | Some left \<Rightarrow>
          if \<not> capability_proof_leaf_matches (ip_leaf_hash (nb_proof left)) (nb_stamp left)
          then Inl (InvalidCapability ''non-revocation left bound: proof leaf hash does not match stamp'')
          else if \<not> non_revocation_left_order_valid (nb_stamp left) stamp
          then Inl (InvalidCapability ''non-revocation left bound is not strictly less than target stamp'')
          else if \<not> verify_merkle_path C (nb_stamp left) (ip_sibling_hashes (nb_proof left))
              (ip_leaf_index (nb_proof left)) revocation_root
          then Inl (InvalidCapability ''non-revocation left bound Merkle proof invalid'')
          else Inr ())"

definition check_right_bound ::
    "crypto \<Rightarrow> bytes \<Rightarrow> bytes \<Rightarrow> non_revocation_bound option \<Rightarrow> unit result" where
  "check_right_bound C stamp revocation_root bound =
     (case bound of None \<Rightarrow> Inr ()
      | Some right \<Rightarrow>
          if \<not> capability_proof_leaf_matches (ip_leaf_hash (nb_proof right)) (nb_stamp right)
          then Inl (InvalidCapability ''non-revocation right bound: proof leaf hash does not match stamp'')
          else if \<not> non_revocation_right_order_valid stamp (nb_stamp right)
          then Inl (InvalidCapability ''non-revocation right bound is not strictly greater than target stamp'')
          else if \<not> verify_merkle_path C (nb_stamp right) (ip_sibling_hashes (nb_proof right))
              (ip_leaf_index (nb_proof right)) revocation_root
          then Inl (InvalidCapability ''non-revocation right bound Merkle proof invalid'')
          else Inr ())"

text \<open>The final \<open>match (&witness.left, &witness.right)\<close>.\<close>

fun check_bound_positions ::
    "u64 \<Rightarrow> non_revocation_bound option \<Rightarrow> non_revocation_bound option \<Rightarrow> unit result" where
  "check_bound_positions count None None =
     Inl (InvalidCapability ''non-revocation witness has no bounds for non-empty revocation set'')"
| "check_bound_positions count (Some left) None =
     (if \<not> non_revocation_left_is_last (ip_leaf_index (nb_proof left)) count
      then Inl (InvalidCapability ''non-revocation left boundary is not the last leaf'') else Inr ())"
| "check_bound_positions count None (Some right) =
     (if \<not> non_revocation_right_is_first (ip_leaf_index (nb_proof right))
      then Inl (InvalidCapability ''non-revocation right boundary is not the first leaf'') else Inr ())"
| "check_bound_positions count (Some left) (Some right) =
     (if \<not> non_revocation_boundaries_are_adjacent (ip_leaf_index (nb_proof left))
          (ip_leaf_index (nb_proof right))
      then Inl (InvalidCapability ''non-revocation boundaries are not adjacent leaves'') else Inr ())"

definition verify_non_revocation ::
    "crypto \<Rightarrow> non_revocation_witness \<Rightarrow> bytes \<Rightarrow> u64 \<Rightarrow> unit result" where
  "verify_non_revocation C witness revocation_root expected_revocation_count =
     (if nw_total_revoked witness \<noteq> expected_revocation_count
      then Inl (InvalidCapability ''non-revocation witness total_revoked does not match authority revocation_count'')
      else if nw_total_revoked witness = 0 then
        (if revocation_root \<noteq> zeros 32
         then Inl (InvalidCapability ''non-revocation witness claims empty set but revocation root is non-zero'')
         else if nw_left witness \<noteq> None \<or> nw_right witness \<noteq> None
         then Inl (InvalidCapability ''non-revocation witness has bounds but claims empty revocation set'')
         else Inr ())
      else bind_r (check_left_bound C (nw_stamp witness) revocation_root (nw_left witness)) (\<lambda>_.
           bind_r (check_right_bound C (nw_stamp witness) revocation_root (nw_right witness)) (\<lambda>_.
           check_bound_positions expected_revocation_count (nw_left witness) (nw_right witness))))"

definition verify_capability_issuance ::
    "crypto \<Rightarrow> capability \<Rightarrow> bytes \<Rightarrow> u64 \<Rightarrow> capability_issuance_proof \<Rightarrow> bytes \<Rightarrow> unit result" where
  "verify_capability_issuance C cap authority_root epoch proof root_pk =
     bind_r (verify_epoch_cert C root_pk (is_epoch_cert proof)) (\<lambda>_.
     let cert = is_epoch_cert proof;
         cert_epoch_end = saturating_add (ec_epoch cert) (ec_validity_window cert)
     in if epoch < ec_epoch cert \<or> epoch \<ge> cert_epoch_end
        then Inl (InvalidCapability ''capability issuance epoch is outside epoch cert validity window'')
        else if ec_epoch cert < cap_epoch_start cap \<or> ec_epoch cert > cap_epoch_end cap
        then Inl (InvalidCapability ''epoch cert epoch is outside capability validity range'')
        else check_signature C (ec_epoch_pk cert)
          (InvalidCapability ''invalid epoch public key in issuance proof'')
          (capability_issuance_signing_message (capability_leaf_hash C cap) authority_root epoch)
          (is_sig proof) (InvalidCapability ''capability issuance signature invalid''))"

subsection \<open>The invariant\<close>

definition tree_wf :: "authority_capability_tree \<Rightarrow> bool" where
  "tree_wf tree \<longleftrightarrow> distinct (ct_leaf_hashes tree) \<and> strict_sorted (ct_revoked_stamps tree)"

text \<open>The trees an authority can have: any sequence of its mutating methods, from the empty tree.\<close>

inductive reachable_tree :: "crypto \<Rightarrow> authority_capability_tree \<Rightarrow> bool" for C where
  tree_init: "reachable_tree C tree_new"
| tree_add: "reachable_tree C tree \<Longrightarrow> reachable_tree C (snd (add_capability C tree cap))"
| tree_revoke: "reachable_tree C tree \<Longrightarrow> reachable_tree C (revoke_stamp tree stamp)"

lemma revoked_pos_iff:
  "strict_sorted xs \<Longrightarrow>
   partition_point (\<lambda>s. s < x) xs < length xs \<and> xs ! partition_point (\<lambda>s. s < x) xs = x \<longleftrightarrow> x \<in> set xs"
  for x :: bytes
  by (simp add: strict_sorted_mem_iff)

lemma revoke_stamp_eq:
  assumes "tree_wf tree"
  shows "revoke_stamp tree stamp = (if is_revoked tree stamp then tree
     else tree\<lparr>ct_revoked_stamps :=
       insert_at (partition_point (\<lambda>s. s < stamp) (ct_revoked_stamps tree)) stamp (ct_revoked_stamps tree)\<rparr>)"
  using assms revoked_pos_iff by (simp add: revoke_stamp_def is_revoked_def tree_wf_def Let_def)

lemma tree_wf_new: "tree_wf tree_new"
  by (simp add: tree_wf_def tree_new_def)

lemma tree_wf_add: "tree_wf tree \<Longrightarrow> tree_wf (snd (add_capability C tree cap))"
  by (simp add: tree_wf_def add_capability_def Let_def)

lemma tree_wf_revoke: "tree_wf tree \<Longrightarrow> tree_wf (revoke_stamp tree stamp)"
  by (simp add: revoke_stamp_eq) (simp add: tree_wf_def is_revoked_def strict_sorted_insert)

lemma reachable_tree_wf: "reachable_tree C tree \<Longrightarrow> tree_wf tree"
  by (induction rule: reachable_tree.induct) (simp_all add: tree_wf_new tree_wf_add tree_wf_revoke)

lemma is_revoked_after: "is_revoked (revoke_stamp tree stamp) x \<longleftrightarrow> x = stamp \<or> is_revoked tree x"
proof -
  let ?r = "ct_revoked_stamps tree" and ?p = "partition_point (\<lambda>s. s < stamp) (ct_revoked_stamps tree)"
  show ?thesis
  proof (cases "?p < length ?r \<and> ?r ! ?p = stamp")
    case True
    then have "revoke_stamp tree stamp = tree"
      unfolding revoke_stamp_def Let_def by (rule if_P)
    moreover have "stamp \<in> set ?r" using nth_mem [OF conjunct1 [OF True]] conjunct2 [OF True] by metis
    ultimately show ?thesis unfolding is_revoked_def by metis
  next
    case False
    then have "revoke_stamp tree stamp = tree\<lparr>ct_revoked_stamps := insert_at ?p stamp ?r\<rparr>"
      unfolding revoke_stamp_def Let_def by (simp only: if_False)
    then show ?thesis by (simp add: is_revoked_def)
  qed
qed

lemma revocation_length:
  "tree_wf tree \<Longrightarrow> length (ct_revoked_stamps (revoke_stamp tree stamp)) =
     length (ct_revoked_stamps tree) + (if is_revoked tree stamp then 0 else 1)"
  by (simp add: revoke_stamp_eq)

lemma add_capability_simps [simp]:
  "fst (add_capability C tree cap) = capability_leaf_hash C cap"
  "ct_revoked_stamps (snd (add_capability C tree cap)) = ct_revoked_stamps tree"
  "set (ct_leaf_hashes (snd (add_capability C tree cap))) =
     insert (capability_leaf_hash C cap) (set (ct_leaf_hashes tree))"
  by (auto simp: add_capability_def Let_def)

lemma revoke_stamp_leaves [simp]: "ct_leaf_hashes (revoke_stamp tree s) = ct_leaf_hashes tree"
  by (simp add: revoke_stamp_def Let_def)

subsection \<open>What the verifiers accept\<close>

definition bound_ok :: "crypto \<Rightarrow> bytes \<Rightarrow> non_revocation_bound \<Rightarrow> bool" where
  "bound_ok C root b \<longleftrightarrow> ip_leaf_hash (nb_proof b) = nb_stamp b \<and>
     merkle_root_from_proof C (nb_stamp b) (ip_sibling_hashes (nb_proof b)) (ip_leaf_index (nb_proof b)) = root"

lemma check_left_ok [result_simps]:
  "check_left_bound C stamp root b = Inr u \<longleftrightarrow>
     (case b of None \<Rightarrow> True | Some l \<Rightarrow> bound_ok C root l \<and> nb_stamp l < stamp)"
  by (auto simp: check_left_bound_def capability_proof_leaf_matches_def bound_ok_def
      non_revocation_left_order_valid_def verify_merkle_path_def walk_cap_eq split: option.splits)

lemma check_right_ok [result_simps]:
  "check_right_bound C stamp root b = Inr u \<longleftrightarrow>
     (case b of None \<Rightarrow> True | Some r \<Rightarrow> bound_ok C root r \<and> stamp < nb_stamp r)"
  by (auto simp: check_right_bound_def capability_proof_leaf_matches_def bound_ok_def
      non_revocation_right_order_valid_def verify_merkle_path_def walk_cap_eq split: option.splits)

lemma check_positions_ok [result_simps]:
  "check_bound_positions n l r = Inr u \<longleftrightarrow>
     (case (l, r) of (None, None) \<Rightarrow> False
      | (Some a, None) \<Rightarrow> n \<noteq> 0 \<and> ip_leaf_index (nb_proof a) = n - 1
      | (None, Some b) \<Rightarrow> ip_leaf_index (nb_proof b) = 0
      | (Some a, Some b) \<Rightarrow> checked_add (ip_leaf_index (nb_proof a)) 1 = Some (ip_leaf_index (nb_proof b)))"
  by (cases "(n, l, r)" rule: check_bound_positions.cases)
    (auto simp: non_revocation_left_is_last_def non_revocation_right_is_first_def
      non_revocation_boundaries_are_adjacent_def simp flip: word_neq_0_conv)

lemma verify_non_revocation_ok:
  "verify_non_revocation C w root n = Inr () \<longleftrightarrow> nw_total_revoked w = n \<and>
     (if n = 0 then root = zeros 32 \<and> nw_left w = None \<and> nw_right w = None
      else check_left_bound C (nw_stamp w) root (nw_left w) = Inr () \<and>
        check_right_bound C (nw_stamp w) root (nw_right w) = Inr () \<and>
        check_bound_positions n (nw_left w) (nw_right w) = Inr ())"
  unfolding verify_non_revocation_def by (auto simp: bind_r_eq_Inr)

lemma verify_capability_inclusion_ok [result_simps]:
  "verify_capability_inclusion C cap p root = Inr u \<longleftrightarrow>
     ip_leaf_hash p = capability_leaf_hash C cap \<and>
     merkle_root_from_proof C (capability_leaf_hash C cap) (ip_sibling_hashes p) (ip_leaf_index p) = root"
  by (auto simp: verify_capability_inclusion_def capability_proof_leaf_matches_def
      verify_merkle_path_def walk_cap_eq Let_def)

lemma verify_capability_issuance_ok [result_simps]:
  "verify_capability_issuance C cap root e p root_pk = Inr u \<longleftrightarrow>
     (let cert = is_epoch_cert p in
      verify_epoch_cert C root_pk cert = Inr () \<and>
      unat (ec_epoch cert) \<le> unat e \<and>
      unat e < min (unat (ec_epoch cert) + unat (ec_validity_window cert)) (2 ^ 64 - 1) \<and>
      cap_epoch_start cap \<le> ec_epoch cert \<and> ec_epoch cert \<le> cap_epoch_end cap \<and>
      ed_key_ok C (ec_epoch_pk cert) \<and>
      ed_verify_strict C (ec_epoch_pk cert)
        (capability_issuance_signing_message (capability_leaf_hash C cap) root e) (is_sig p))"
  by (auto simp: verify_capability_issuance_def Let_def bind_r_eq_Inr check_signature_ok
      word_less_nat_alt word_le_nat_alt unat_saturating_add not_less not_le)

subsection \<open>Completeness\<close>

lemma revocation_proof_bound_ok:
  assumes "i < length (ct_revoked_stamps tree)" "length (ct_revoked_stamps tree) \<le> 2 ^ 64"
  shows "bound_ok C (tree_revocation_root C tree)
    \<lparr>nb_stamp = ct_revoked_stamps tree ! i, nb_proof = revocation_proof_for_index C tree i\<rparr>"
  using capability_merkle.walk_prove [OF assms, of C]
  by (simp add: bound_ok_def revocation_proof_for_index_def tree_revocation_root_def walk_cap_eq)

lemma witness_complete:
  assumes "tree_wf tree" "\<not> is_revoked tree stamp" "length (ct_revoked_stamps tree) < 2 ^ 64"
  shows "\<exists>w. tree_non_revocation_witness C tree stamp = Inr w \<and> nw_stamp w = stamp \<and>
    verify_non_revocation C w (tree_revocation_root C tree) (tree_revocation_count tree) = Inr ()"
proof -
  let ?r = "ct_revoked_stamps tree" and ?p = "partition_point (\<lambda>s. s < stamp) (ct_revoked_stamps tree)"
  let ?n = "tree_revocation_count tree"
  have sorted: "strict_sorted ?r" using assms(1) by (simp add: tree_wf_def)
  have absent: "\<not> (?p < length ?r \<and> ?r ! ?p = stamp)"
    using revoked_pos_iff [OF sorted] assms(2) by (simp add: is_revoked_def)
  then have W: "tree_non_revocation_witness C tree stamp =
      Inr \<lparr>nw_stamp = stamp, nw_total_revoked = ?n,
        nw_left = (if ?p > 0 then Some \<lparr>nb_stamp = ?r ! (?p - 1),
          nb_proof = revocation_proof_for_index C tree (?p - 1)\<rparr> else None),
        nw_right = (if ?p < length ?r then Some \<lparr>nb_stamp = ?r ! ?p,
          nb_proof = revocation_proof_for_index C tree ?p\<rparr> else None)\<rparr>"
    unfolding tree_non_revocation_witness_def tree_revocation_count_def Let_def
    by (simp only: if_False)
  obtain w where w: "tree_non_revocation_witness C tree stamp = Inr w" "nw_stamp w = stamp"
      "nw_total_revoked w = ?n"
      "nw_left w = (if ?p > 0 then Some \<lparr>nb_stamp = ?r ! (?p - 1),
         nb_proof = revocation_proof_for_index C tree (?p - 1)\<rparr> else None)"
      "nw_right w = (if ?p < length ?r then Some \<lparr>nb_stamp = ?r ! ?p,
         nb_proof = revocation_proof_for_index C tree ?p\<rparr> else None)"
    by (rule that [OF W]) (simp_all only: non_revocation_witness.simps)
  have n: "unat ?n = length ?r" using assms(3) by (simp add: tree_revocation_count_def unat_of_nat)
  have p: "?p \<le> length ?r" by (rule partition_point_le)
  have left: "?p > 0 \<Longrightarrow> ?r ! (?p - 1) < stamp"
    by (rule partition_point_before [where P = "\<lambda>s. s < stamp"]) simp
  have right: "?p < length ?r \<Longrightarrow> stamp < ?r ! ?p"
    using strict_sorted_after [OF sorted, of stamp] absent by (force simp: le_less)
  have idx: "unat (word_of_nat i :: u64) = i" if "i \<le> length ?r" for i
    using that assms(3) by (simp add: unat_of_nat)
  have bounds: "check_left_bound C stamp (tree_revocation_root C tree) (nw_left w) = Inr ()"
      "check_right_bound C stamp (tree_revocation_root C tree) (nw_right w) = Inr ()"
    using revocation_proof_bound_ok [of _ tree C] assms(3) left right p
    by (auto simp: check_left_ok check_right_ok w(4,5))
  have positions: "check_bound_positions ?n (nw_left w) (nw_right w) = Inr ()" if "?r \<noteq> []"
    using that p idx [of "?p - 1"] idx [of ?p] n assms(3)
    by (auto simp: check_positions_ok w(4,5) revocation_proof_for_index_def checked_add_Some
        tree_revocation_count_def word_unat_eq_iff unat_sub)
  have empty: "?r = [] \<Longrightarrow> tree_revocation_root C tree = zeros 32 \<and> nw_left w = None \<and> nw_right w = None"
    using p by (simp add: tree_revocation_root_def merkle_root_def w(4,5))
  have zero: "?n = 0 \<longleftrightarrow> ?r = []" using n by (metis length_0_conv unat_eq_zero)
  have "verify_non_revocation C w (tree_revocation_root C tree) ?n = Inr ()"
    unfolding verify_non_revocation_ok w(2,3) zero using bounds positions empty by simp
  with w(1,2) show ?thesis by blast
qed

lemma witness_refused_iff:
  assumes "tree_wf tree"
  shows "is_ok (tree_non_revocation_witness C tree stamp) \<longleftrightarrow> \<not> is_revoked tree stamp"
  using revoked_pos_iff [of "ct_revoked_stamps tree" stamp] assms
  unfolding tree_non_revocation_witness_def Let_def is_revoked_def tree_wf_def by simp

lemma inclusion_complete:
  assumes "capability_leaf_hash C cap \<in> set (ct_leaf_hashes tree)" "length (ct_leaf_hashes tree) \<le> 2 ^ 64"
  shows "\<exists>p. inclusion_proof C tree cap = Some p \<and>
    verify_capability_inclusion C cap p (tree_authority_root C tree) = Inr ()"
proof -
  obtain i where i: "position (\<lambda>h. h = capability_leaf_hash C cap) (ct_leaf_hashes tree) = Some i"
    using position_Some_ex [OF assms(1), of "\<lambda>h. h = capability_leaf_hash C cap"] by auto
  with capability_merkle.walk_position [OF i assms(2), of C] show ?thesis
    by (simp add: inclusion_proof_def verify_capability_inclusion_ok tree_authority_root_def
        walk_cap_eq Let_def)
qed

lemma inclusion_absent:
  "inclusion_proof C tree cap = None \<longleftrightarrow> capability_leaf_hash C cap \<notin> set (ct_leaf_hashes tree)"
  by (auto simp: inclusion_proof_def Let_def position_None)

lemma issuance_complete:
  assumes "sig_correct C" "cap_epoch_start cap \<le> e" "e \<le> cap_epoch_end cap"
    and "0 < w" "unat e < 2 ^ 64 - 1"
  shows "verify_capability_issuance C cap root e
    \<lparr>is_sig = sign_capability_issuance C kp (capability_leaf_hash C cap) root e,
     is_epoch_cert = issue_epoch_cert C rkp (epoch_verifying_key_bytes C kp) e w\<rparr>
    (root_verifying_key_bytes C rkp) = Inr ()"
  using assms issued_cert_verifies [OF assms(1), of rkp]
  by (auto simp: verify_capability_issuance_ok issue_epoch_cert_def sign_capability_issuance_def
      epoch_verifying_key_bytes_def sig_correct_def word_less_nat_alt Let_def)

subsection \<open>Soundness\<close>

text \<open>The messages whose digests are the leaves of a capability tree.\<close>

definition capability_input :: "capability \<Rightarrow> bytes" where
  "capability_input cap = ascii ''KYRIOTES-CSK2-CAPABILITY-LEAF-v1'' @ capability_transcript cap"

lemma capability_leaf_input: "capability_leaf_hash C cap = sha256 C (capability_input cap)"
  by (simp add: capability_leaf_hash_def capability_input_def)

lemma capability_input_domain: "capability_input cap \<noteq> node_input p"
  unfolding capability_input_def node_input_def by (rule ascii_clash [where n = 15]) simp_all

lemma capability_input_inj:
  "wf_capability c \<Longrightarrow> wf_capability d \<Longrightarrow> capability_input c = capability_input d \<Longrightarrow> c = d"
  using capability_transcript_inj by (simp add: capability_input_def)

definition inclusion_inputs ::
    "crypto \<Rightarrow> capability list \<Rightarrow> capability \<Rightarrow> capability_inclusion_proof \<Rightarrow> bytes set" where
  "inclusion_inputs C caps cap p = insert (capability_input cap) (set (map capability_input caps)) \<union>
     node_input ` proof_pairs C (map (capability_leaf_hash C) caps) (capability_leaf_hash C cap)
       (ip_sibling_hashes p) (ip_leaf_index p)"

lemma inclusion_sound:
  assumes "verify_capability_inclusion C cap p (merkle_root C (map (capability_leaf_hash C) caps)) = Inr ()"
    and "sha_safe C (inclusion_inputs C caps cap p)"
    and "sha_32 C" "\<forall>h \<in> set (ip_sibling_hashes p). length h = 32"
    and "wf_capability cap" "\<forall>c \<in> set caps. wf_capability c"
  shows "cap \<in> set caps"
proof -
  have leaves: "map (capability_leaf_hash C) caps = map (sha256 C) (map capability_input caps)"
    by (simp add: capability_leaf_input)
  have "capability_input cap \<in> set (map capability_input caps)"
  proof (rule hashed_membership [of C _ "ip_sibling_hashes p" "ip_leaf_index p"])
    show "merkle_root_from_proof C (sha256 C (capability_input cap)) (ip_sibling_hashes p)
        (ip_leaf_index p) = merkle_root C (map (sha256 C) (map capability_input caps))"
      using assms(1) by (simp only: verify_capability_inclusion_ok capability_leaf_input leaves)
    show "sha_safe C (insert (capability_input cap) (set (map capability_input caps)) \<union>
        node_input ` proof_pairs C (map (sha256 C) (map capability_input caps))
          (sha256 C (capability_input cap)) (ip_sibling_hashes p) (ip_leaf_index p))"
      using assms(2) by (simp only: inclusion_inputs_def capability_leaf_input leaves)
    show "m' \<noteq> node_input q" if "m' \<in> insert (capability_input cap) (set (map capability_input caps))"
      for m' q using that capability_input_domain [of _ q] by fastforce
  qed (use assms(3,4) in simp_all)
  then show ?thesis using assms(5,6) by (auto dest: capability_input_inj)
qed

text \<open>
  A bound whose path has the depth of the revocation tree and whose index is in range is an
  entry of the tree at that index.
\<close>

definition bound_shape :: "bytes list \<Rightarrow> non_revocation_bound \<Rightarrow> bool" where
  "bound_shape revoked b \<longleftrightarrow> length (ip_sibling_hashes (nb_proof b)) = merkle_depth (length revoked) \<and>
     unat (ip_leaf_index (nb_proof b)) < length revoked"

definition bound_free :: "crypto \<Rightarrow> bytes list \<Rightarrow> non_revocation_bound \<Rightarrow> bool" where
  "bound_free C revoked b \<longleftrightarrow> node_collision_free C (tree_pairs C revoked \<union>
     path_pairs C (nb_stamp b) (ip_sibling_hashes (nb_proof b)) (ip_leaf_index (nb_proof b)))"

lemma bound_entry:
  assumes "bound_ok C (merkle_root C revoked) b" "bound_shape revoked b" "bound_free C revoked b"
    and "length revoked < 2 ^ 64"
  shows "nb_stamp b = revoked ! unat (ip_leaf_index (nb_proof b))"
  using assms unfolding bound_ok_def bound_shape_def bound_free_def
  by (intro merkle_binding [of _ revoked "ip_sibling_hashes (nb_proof b)" C]) auto

lemma strict_sorted_gap:
  assumes "strict_sorted xs" "x \<in> set xs" "Suc i < length xs" "xs ! i < x" "x < xs ! Suc i"
  shows False
proof -
  obtain j where j: "j < length xs" "xs ! j = x" using assms(2) by (auto simp: in_set_conv_nth)
  have "\<not> j \<le> i" using assms(1,3,4) j strict_sorted_nth_less [of xs j i] by (cases "j = i") auto
  moreover have "\<not> Suc i \<le> j" using assms(1,5) j strict_sorted_nth_less [of xs "Suc i" j]
    by (cases "j = Suc i") auto
  ultimately show False by simp
qed

lemma strict_sorted_first: "strict_sorted xs \<Longrightarrow> x \<in> set xs \<Longrightarrow> xs ! 0 \<le> x"
  by (cases xs) (auto simp: less_imp_le)

lemma strict_sorted_last: "strict_sorted xs \<Longrightarrow> x \<in> set xs \<Longrightarrow> x \<le> xs ! (length xs - 1)"
  by (auto simp: in_set_conv_nth le_less intro: strict_sorted_nth_less)
    (metis One_nat_def Suc_pred diff_Suc_1 less_Suc_eq less_imp_Suc_add strict_sorted_nth_less zero_less_Suc)

text \<open>
  With bounds of that shape, an accepted witness does prove that its stamp is not revoked.
\<close>

lemma witness_sound:
  fixes revoked :: "bytes list"
  assumes "verify_non_revocation C w (merkle_root C revoked) (word_of_nat (length revoked)) = Inr ()"
    and "strict_sorted revoked" "length revoked < 2 ^ 64"
    and shape: "\<And>b. b \<in> set_option (nw_left w) \<union> set_option (nw_right w) \<Longrightarrow>
      bound_shape revoked b \<and> bound_free C revoked b"
  shows "nw_stamp w \<notin> set revoked"
proof (cases "revoked = []")
  case False
  let ?n = "word_of_nat (length revoked) :: u64" and ?R = "merkle_root C revoked"
  have n: "unat ?n = length revoked" using assms(3) by (simp add: unat_of_nat)
  then have "?n \<noteq> 0" using False by auto
  then have checks: "check_left_bound C (nw_stamp w) ?R (nw_left w) = Inr ()"
      "check_right_bound C (nw_stamp w) ?R (nw_right w) = Inr ()"
      "check_bound_positions ?n (nw_left w) (nw_right w) = Inr ()"
    using assms(1) by (simp_all only: verify_non_revocation_ok if_False)
  have entry: "nb_stamp b = revoked ! unat (ip_leaf_index (nb_proof b))"
    if "b \<in> set_option (nw_left w) \<union> set_option (nw_right w)" "bound_ok C ?R b" for b
    using bound_entry [OF that(2)] shape [OF that(1)] assms(3) by blast
  consider (left) l where "nw_left w = Some l" "nw_right w = None"
    | (right) r where "nw_left w = None" "nw_right w = Some r"
    | (both) l r where "nw_left w = Some l" "nw_right w = Some r"
    using checks(3) by (cases "nw_left w"; cases "nw_right w") auto
  then show ?thesis
  proof cases
    case left
    then have "unat (ip_leaf_index (nb_proof l)) = length revoked - 1"
      using checks(3) n \<open>?n \<noteq> 0\<close> unfolding check_positions_ok by (simp add: unat_minus_one)
    moreover have "nb_stamp l < nw_stamp w" "bound_ok C ?R l"
      using checks(1) left by (simp_all add: check_left_ok)
    ultimately show ?thesis
      using entry [of l] left strict_sorted_last [OF assms(2), of "nw_stamp w"] by force
  next
    case right
    then have "unat (ip_leaf_index (nb_proof r)) = 0"
      using checks(3) unfolding check_positions_ok by simp
    moreover have "nw_stamp w < nb_stamp r" "bound_ok C ?R r"
      using checks(2) right by (simp_all add: check_right_ok)
    ultimately show ?thesis
      using entry [of r] right strict_sorted_first [OF assms(2), of "nw_stamp w"] by force
  next
    case both
    then have "unat (ip_leaf_index (nb_proof r)) = Suc (unat (ip_leaf_index (nb_proof l)))"
      using checks(3) unfolding check_positions_ok by (simp add: checked_add_Some)
    moreover have "nb_stamp l < nw_stamp w" "bound_ok C ?R l" "nw_stamp w < nb_stamp r" "bound_ok C ?R r"
      using checks(1,2) both by (simp_all add: check_left_ok check_right_ok)
    moreover have "unat (ip_leaf_index (nb_proof r)) < length revoked"
      using shape [of r] both by (simp add: bound_shape_def)
    moreover have "nb_stamp l = revoked ! unat (ip_leaf_index (nb_proof l))"
        "nb_stamp r = revoked ! unat (ip_leaf_index (nb_proof r))"
      using calculation both by (simp_all only: entry [of l] entry [of r] Un_iff option.set_intros simp_thms)
    ultimately show ?thesis
      using strict_sorted_gap [OF assms(2), of "nw_stamp w" "unat (ip_leaf_index (nb_proof l))"] by metis
  qed
qed simp

text \<open>
  Without that shape it proves nothing: the verifier never relates the length of a path to the
  size of the tree, so the root itself, with an empty path, serves as a bound for every other
  stamp, revoked or not.
\<close>

definition root_as_bound :: "bytes \<Rightarrow> u64 \<Rightarrow> non_revocation_bound" where
  "root_as_bound root idx = \<lparr>nb_stamp = root,
     nb_proof = \<lparr>ip_leaf_hash = root, ip_sibling_hashes = [], ip_leaf_index = idx\<rparr>\<rparr>"

definition root_witness :: "bytes \<Rightarrow> bytes \<Rightarrow> u64 \<Rightarrow> non_revocation_witness" where
  "root_witness stamp root count = \<lparr>nw_stamp = stamp, nw_total_revoked = count,
     nw_left = (if root < stamp then Some (root_as_bound root (count - 1)) else None),
     nw_right = (if root < stamp then None else Some (root_as_bound root 0))\<rparr>"

lemma root_witness_accepted:
  assumes "count \<noteq> 0" "stamp \<noteq> root"
  shows "verify_non_revocation C (root_witness stamp root count) root count = Inr ()"
  using assms
  by (auto simp: verify_non_revocation_ok root_witness_def root_as_bound_def check_left_ok
      check_right_ok check_positions_ok bound_ok_def)

subsection \<open>The contract of a revocation set\<close>

text \<open>
  What the lifecycle code relies on: revoking adds one stamp to the set and removes none, a
  witness is handed out exactly for stamps outside the set, and it verifies against the root and
  the count the set publishes.
\<close>

locale revocation_set =
  fixes wf :: "'t \<Rightarrow> bool"
    and members :: "'t \<Rightarrow> bytes set"
    and revoke :: "'t \<Rightarrow> bytes \<Rightarrow> 't"
    and witness :: "'t \<Rightarrow> bytes \<Rightarrow> non_revocation_witness result"
    and accepts_witness :: "'t \<Rightarrow> non_revocation_witness \<Rightarrow> bool"
    and small :: "'t \<Rightarrow> bool"
  assumes revoke_wf: "wf t \<Longrightarrow> wf (revoke t s)"
    and revoke_members: "wf t \<Longrightarrow> members (revoke t s) = insert s (members t)"
    and witness_iff: "wf t \<Longrightarrow> is_ok (witness t s) \<longleftrightarrow> s \<notin> members t"
    and witness_verifies: "wf t \<Longrightarrow> small t \<Longrightarrow> witness t s = Inr w \<Longrightarrow> nw_stamp w = s \<and> accepts_witness t w"
begin

lemma revoked_no_witness: "wf t \<Longrightarrow> \<not> is_ok (witness (foldl revoke t ss) s)" if "s \<in> set ss \<union> members t"
  using that
proof (induction ss arbitrary: t)
  case (Cons a ss)
  then show ?case by (auto simp: revoke_wf revoke_members)
qed (simp add: witness_iff)

lemma members_foldl: "wf t \<Longrightarrow> members (foldl revoke t ss) = set ss \<union> members t"
  by (induction ss arbitrary: t) (auto simp: revoke_wf revoke_members)

end

interpretation revoked: revocation_set tree_wf "\<lambda>t. set (ct_revoked_stamps t)" revoke_stamp
  "tree_non_revocation_witness C"
  "\<lambda>t w. verify_non_revocation C w (tree_revocation_root C t) (tree_revocation_count t) = Inr ()"
  "\<lambda>t. length (ct_revoked_stamps t) < 2 ^ 64" for C
proof
  fix t s w
  assume t: "tree_wf t" "length (ct_revoked_stamps t) < 2 ^ 64" "tree_non_revocation_witness C t s = Inr w"
  then have "\<not> is_revoked t s" using witness_refused_iff [OF t(1), of C s] by simp
  with witness_complete [OF t(1) _ t(2), of s C] t(3)
  show "nw_stamp w = s \<and> verify_non_revocation C w (tree_revocation_root C t) (tree_revocation_count t) = Inr ()"
    by simp
qed (use is_revoked_after tree_wf_revoke witness_refused_iff in \<open>auto simp: is_revoked_def\<close>)

end
