(* ===== verification/Csk2_Kem.thy ===== *)
theory Csk2_Kem
  imports Csk2_Model
begin

text \<open>
  The crate's \<open>src/kyriotes_csk2/kem.rs\<close>: the hybrid key encapsulation. The X25519 ephemeral key is
  drawn from the caller's generator, the ML-KEM randomness from the operating system; both are
  tapes here. What the rest of the crate relies on is that both sides end with one hybrid secret
  and agree on whether it has a post-quantum part (\<open>kem_agreement\<close>).
\<close>

definition kem_encaps ::
    "crypto \<Rightarrow> recipient_public_key \<Rightarrow> rng \<Rightarrow> rng \<Rightarrow> (bytes \<times> bytes \<times> bytes \<times> bytes) \<times> rng \<times> rng" where
  "kem_encaps C pk rng os =
     (let (ephemeral_sk, rng') = fill_bytes 32 rng;
          ct_classical = x_public C ephemeral_sk;
          ss_classical = x_diffie_hellman C ephemeral_sk (pk_classical pk);
          ((ct_pq, ss_pq), os') =
            (case pk_pq pk of
               Some ek_bytes \<Rightarrow>
                 if length ek_bytes = ML_KEM_768_EK_BYTES then
                   (if mlkem_ek_ok C ek_bytes then
                      let (r, os1) = fill_bytes 32 os
                      in (mlkem_encapsulate C ek_bytes r, os1)
                    else (([], zeros 32), os))
                 else (([], zeros 32), os)
             | None \<Rightarrow> (([], zeros 32), os))
      in ((ct_classical, ss_classical, ct_pq, ss_pq), rng', os'))"

definition kem_decaps :: "crypto \<Rightarrow> recipient_secret_key \<Rightarrow> bytes \<Rightarrow> bytes \<Rightarrow> bytes \<times> bytes" where
  "kem_decaps C sk ct_classical ct_pq =
     (x_diffie_hellman C (sk_classical sk) ct_classical,
      case sk_pq sk of
        Some dk_bytes \<Rightarrow>
          if ct_pq \<noteq> [] \<and> length ct_pq = ML_KEM_768_CT_BYTES \<and> length dk_bytes = ML_KEM_768_DK_BYTES
          then mlkem_decapsulate C dk_bytes ct_pq else zeros 32
      | None \<Rightarrow> zeros 32)"

definition hybrid_secret :: "crypto \<Rightarrow> bytes \<Rightarrow> bytes option \<Rightarrow> bytes" where
  "hybrid_secret C ss_c ss_pq =
     (case ss_pq of
        Some pq \<Rightarrow> sha256 C (ascii ''KYRIOTES-CSK2-HYBRID-SECRET-v2'' @ ss_c @ pq)
      | None \<Rightarrow> sha256 C (ascii ''KYRIOTES-CSK2-CLASSICAL-SECRET-v1'' @ ss_c))"

subsection \<open>Agreement\<close>

text \<open>A secret key that belongs to a public key; a classical-only public key fits both kinds.\<close>

definition keys_match :: "crypto \<Rightarrow> recipient_public_key \<Rightarrow> recipient_secret_key \<Rightarrow> bool" where
  "keys_match C pk sk \<longleftrightarrow> pk_classical pk = x_public C (sk_classical sk) \<and>
     (case pk_pq pk of None \<Rightarrow> True
      | Some ek \<Rightarrow> (case sk_pq sk of None \<Rightarrow> False
          | Some seed \<Rightarrow> ek = mlkem_ek C seed \<and> length seed = ML_KEM_768_DK_BYTES))"

lemma generated_keys_match:
  "keys_match C (kp_public (fst (recipient_generate C rng))) (kp_secret (fst (recipient_generate C rng)))"
proof -
  obtain secret rng1 where 1: "fill_bytes 32 rng = (secret, rng1)" by fastforce
  obtain seed rng2 where 2: "fill_bytes ML_KEM_768_DK_BYTES rng1 = (seed, rng2)" by fastforce
  have "length seed = ML_KEM_768_DK_BYTES" using length_fill_bytes [of ML_KEM_768_DK_BYTES rng1] 2 by simp
  then show ?thesis by (simp add: recipient_generate_def 1 2 keys_match_def)
qed

text \<open>The ciphertext of the post-quantum part is empty exactly when no such part was encapsulated.\<close>

lemma kem_agreement:
  assumes "dh_correct C" "mlkem_correct C" "keys_match C pk sk"
    and "kem_encaps C pk rng os = ((ct, ss, ct_pq, ss_pq), rng', os')"
  shows "kem_decaps C sk ct ct_pq = (ss, ss_pq)"
proof (cases "pk_pq pk")
  case None
  with assms show ?thesis
    by (auto simp: kem_encaps_def kem_decaps_def keys_match_def dh_correct_def fill_bytes_def Let_def
        ML_KEM_768_CT_BYTES_def split: option.splits)
next
  case (Some ek)
  then obtain seed where seed: "sk_pq sk = Some seed" "ek = mlkem_ek C seed"
      "length seed = ML_KEM_768_DK_BYTES"
    using assms(3) by (auto simp: keys_match_def split: option.splits)
  have ek: "length ek = ML_KEM_768_EK_BYTES" "mlkem_ek_ok C ek"
    using assms(2) seed(2) by (auto simp: mlkem_correct_def ML_KEM_768_EK_BYTES_def)
  have enc: "mlkem_encapsulate C ek (map os [0..<32]) = (ct_pq, ss_pq)"
      "ct = x_public C (map rng [0..<32])"
      "ss = x_diffie_hellman C (map rng [0..<32]) (pk_classical pk)"
    using assms(4) ek Some by (simp_all add: kem_encaps_def fill_bytes_def Let_def split: prod.splits)
  then have "length ct_pq = ML_KEM_768_CT_BYTES" "mlkem_decapsulate C seed ct_pq = ss_pq"
    using assms(2) seed(2) unfolding mlkem_correct_def ML_KEM_768_CT_BYTES_def by (metis fst_conv snd_conv)+
  with seed enc(2,3) assms(1,3) show ?thesis
    by (auto simp: kem_decaps_def keys_match_def dh_correct_def ML_KEM_768_CT_BYTES_def)
qed

lemma hybrid_secret_domains:
  assumes "sha_32 C" "inj_on (sha256 C) {ascii ''KYRIOTES-CSK2-HYBRID-SECRET-v2'' @ ss @ pq,
    ascii ''KYRIOTES-CSK2-CLASSICAL-SECRET-v1'' @ ss'}"
  shows "hybrid_secret C ss (Some pq) \<noteq> hybrid_secret C ss' None"
proof -
  have "ascii ''KYRIOTES-CSK2-HYBRID-SECRET-v2'' @ ss @ pq \<noteq>
      ascii ''KYRIOTES-CSK2-CLASSICAL-SECRET-v1'' @ ss'"
    by (rule ascii_clash [where n = 15]) simp_all
  with assms(2) show ?thesis by (auto simp: hybrid_secret_def dest: inj_onD)
qed

end
