(* ===== verification/Csk2_Engine.thy ===== *)
theory Csk2_Engine
  imports Csk2_Verify Csk2_Capability_Tree Csk2_Kem
begin

text \<open>
  The sealing engine of \<open>src/kyriotes_csk2/engine.rs\<close>: capability validation and delegation, key
  derivation and wrapping, and the seal, open, re-wrap, verify and reseal operations in their three
  layers (default verifier, given verifier, verified state), together with the compromise-aware
  variants. The authority's side of that file (issuing, revoking, rotating) is in \<open>Csk2_Lifecycle\<close>.

  The operating system's randomness is two tapes, \<open>rng\<close> for \<open>OsRng\<close> and \<open>os\<close> for the randomness ML-KEM
  draws itself. A function with \<open>&mut object\<close> or \<open>&mut log\<close> returns the object or log it leaves
  behind with its result. The cargo feature \<open>insecure-stub-verifier\<close>, which decides the default
  verifier, is the parameter \<open>stub_feature\<close>.
\<close>

subsection \<open>Capabilities\<close>

definition MAX_DELEGATION_DEPTH :: u64 where
  "MAX_DELEGATION_DEPTH = 255"

definition validate_capability ::
    "crypto \<Rightarrow> capability \<Rightarrow> capability_proof \<Rightarrow> authority_state \<Rightarrow> open_request \<Rightarrow> unit result" where
  "validate_capability C cap proof state req =
     (if cap_delegation_depth cap > 0 \<and> cap_parent_stamp cap = zeros 32
      then Inl (InvalidCapability ''delegated capability must have non-zero parent_stamp'')
      else if cap_delegation_depth cap = 0 \<and> cap_parent_stamp cap \<noteq> zeros 32
      then Inl (InvalidCapability ''directly-issued capability must have zero parent_stamp'')
      else
      bind_r (map_err (\<lambda>_. InvalidCapability ''merkle inclusion failed'')
        (verify_capability_inclusion C cap (cp_inclusion proof) (st_authority_root state))) (\<lambda>_.
      let expected_stamp = capability_stamp C cap state in
      if nw_stamp (cp_non_revocation proof) \<noteq> expected_stamp
      then Inl (InvalidCapability ''capability revoked'')
      else
      bind_r (map_err (\<lambda>_. InvalidCapability ''capability revoked'')
        (verify_non_revocation C (cp_non_revocation proof) (st_revocation_root state)
          (st_revocation_count state))) (\<lambda>_.
      bind_r (map_err (\<lambda>_. InvalidCapability ''invalid issuance signature'')
        (verify_capability_issuance C cap (st_authority_root state)
          (ec_epoch (is_epoch_cert (cp_issuance proof))) (cp_issuance proof) (st_root_pk state))) (\<lambda>_.
      if cap_object_id cap \<noteq> rq_object_id req
      then Inl (InvalidCapability ''object mismatch'')
      else if \<not> contains_all (cap_rights cap) (rq_required_rights req)
      then Inl (InvalidCapability ''insufficient rights'')
      else if cap_policy_hash cap \<noteq> rq_policy_hash req
      then Inl (InvalidCapability ''policy hash mismatch'')
      else if rq_epoch req < cap_epoch_start cap \<or> rq_epoch req > cap_epoch_end cap
      then Inl (InvalidCapability ''epoch outside capability validity'')
      else if rq_epoch req \<noteq> st_epoch state
      then Inl (InvalidCapability ''request epoch does not match authority state'')
      else Inr ()))))"

definition delegate_capability ::
    "crypto \<Rightarrow> capability \<Rightarrow> authority_state \<Rightarrow> bytes \<Rightarrow> rights \<Rightarrow> u64 \<Rightarrow> u64 \<Rightarrow> rng \<Rightarrow>
     capability result \<times> rng" where
  "delegate_capability C parent_cap state new_subject new_rights new_epoch_start new_epoch_end rng =
     (if \<not> contains_all (cap_rights parent_cap) DELEGATE
      then (Inl (InvalidCapability ''parent capability does not carry Rights::DELEGATE''), rng)
      else if \<not> contains_all (cap_rights parent_cap) new_rights
      then (Inl (InvalidCapability ''delegated rights exceed parent capability rights''), rng)
      else if new_epoch_start < cap_epoch_start parent_cap \<or> new_epoch_end > cap_epoch_end parent_cap
      then (Inl (InvalidCapability ''delegated epoch window exceeds parent capability epoch window''), rng)
      else if new_epoch_start > new_epoch_end
      then (Inl (InvalidCapability ''delegated epoch_start exceeds epoch_end''), rng)
      else if cap_delegation_depth parent_cap \<ge> MAX_DELEGATION_DEPTH
      then (Inl (InvalidCapability ''maximum delegation depth exceeded''), rng)
      else
        let parent_stamp = capability_stamp C parent_cap state;
            (nonce, rng') = fill_bytes 16 rng
        in (Inr \<lparr>cap_version = cap_version parent_cap, cap_subject = new_subject,
              cap_object_id = cap_object_id parent_cap, cap_rights = new_rights,
              cap_policy_hash = cap_policy_hash parent_cap, cap_epoch_start = new_epoch_start,
              cap_epoch_end = new_epoch_end,
              cap_delegation_depth = cap_delegation_depth parent_cap + 1,
              cap_parent_stamp = parent_stamp, cap_nonce = nonce\<rparr>, rng'))"

subsection \<open>Key derivation and encryption\<close>

definition authority_digest :: "crypto \<Rightarrow> authority_state \<Rightarrow> bytes \<Rightarrow> bytes" where
  "authority_digest C state policy_hash =
     sha256 C (ascii ''KYRIOTES-CSK2-AUTHORITY-DIGEST-v1'' @ st_authority_root state @
       st_revocation_root state @ st_transparency_root state @ put_u64 (st_epoch state) @
       policy_hash @ st_authority_id state @ put_u64 (st_revocation_count state))"

definition derive_kek :: "crypto \<Rightarrow> bytes \<Rightarrow> authority_state \<Rightarrow> bytes \<Rightarrow> bytes \<Rightarrow> bytes" where
  "derive_kek C ss_h state ctx policy_hash =
     (let salt = authority_digest C state policy_hash;
          info = ascii ''KYRIOTES-CSK2-KEK-v1'' @ ctx
      in hkdf_sha256 C salt (ss_h @ ctx) info 32)"

definition wrap_dek :: "crypto \<Rightarrow> bytes \<Rightarrow> bytes \<Rightarrow> bytes \<Rightarrow> bytes \<Rightarrow> bytes result" where
  "wrap_dek C kek nonce dek aad =
     ok_or (aead_encrypt C kek nonce aad dek) (Crypto ''failed to wrap DEK'')"

definition unwrap_dek :: "crypto \<Rightarrow> bytes \<Rightarrow> bytes \<Rightarrow> bytes \<Rightarrow> bytes \<Rightarrow> bytes result" where
  "unwrap_dek C kek nonce wrapped_dek aad =
     bind_r (ok_or (aead_decrypt C kek nonce aad wrapped_dek) (Crypto ''failed to unwrap DEK'')) (\<lambda>dec.
     if length dec \<noteq> 32 then Inl (Crypto ''invalid unwrapped DEK length'') else Inr dec)"

definition payload_encrypt :: "crypto \<Rightarrow> bytes \<Rightarrow> bytes \<Rightarrow> bytes \<Rightarrow> bytes \<Rightarrow> bytes result" where
  "payload_encrypt C dek nonce message aad =
     ok_or (aead_encrypt C dek nonce aad message) (Crypto ''payload encryption failed'')"

definition payload_decrypt :: "crypto \<Rightarrow> bytes \<Rightarrow> bytes \<Rightarrow> bytes \<Rightarrow> bytes \<Rightarrow> bytes result" where
  "payload_decrypt C dek nonce ciphertext aad =
     ok_or (aead_decrypt C dek nonce aad ciphertext) (Crypto ''payload decryption failed'')"

definition authority_aad ::
    "csk2_object \<Rightarrow> authority_state \<Rightarrow> bytes \<Rightarrow> bytes \<Rightarrow> bytes \<Rightarrow> bytes" where
  "authority_aad object state ctx kem_ct_classical kem_ct_pq =
     ascii ''KYRIOTES-CSK2-AUTHORITY-AAD-v2'' @
     put_str (o_object_id object) @
     put_rights (o_required_rights object) @
     put_bytes (o_policy_hash object) @
     put_u64 (st_epoch state) @
     put_bytes (st_authority_root state) @
     put_bytes (st_revocation_root state) @
     put_bytes (st_transparency_root state) @
     put_bytes ctx @
     put_temporal_policy (o_temporal_policy object) @
     put_bytes kem_ct_classical @
     put_bytes kem_ct_pq"

definition payload_aad :: "csk2_object \<Rightarrow> bytes" where
  "payload_aad object =
     ascii ''KYRIOTES-CSK2-PAYLOAD-AAD-v1'' @
     put_str (o_object_id object) @
     put_rights (o_required_rights object) @
     put_bytes (o_policy_hash object) @
     put_u64 (o_seal_epoch object)"

subsection \<open>Selecting a wrapper\<close>

definition required_epoch :: "temporal_policy \<Rightarrow> u64 \<Rightarrow> u64 \<Rightarrow> u64" where
  "required_epoch policy e_open e_seal = required_wrapper_epoch policy e_open e_seal"

definition find_wrapper :: "csk2_object \<Rightarrow> u64 \<Rightarrow> authority_wrapper option" where
  "find_wrapper object epoch = List.find (\<lambda>w. w_epoch w = epoch) (o_wrappers object)"

definition select_required_wrapper ::
    "csk2_object \<Rightarrow> authority_state \<Rightarrow> (u64 \<times> authority_wrapper) result" where
  "select_required_wrapper object state =
     (let e_open = st_epoch state in
      if \<not> accepts (o_temporal_policy object) e_open (o_seal_epoch object)
      then Inl TemporalRejected
      else
        let e_req = required_epoch (o_temporal_policy object) e_open (o_seal_epoch object) in
        if e_req \<noteq> st_epoch state
        then Inl (AuthorityStateErr ''open attempted with wrong authority epoch for temporal policy'')
        else bind_r (ok_or (find_wrapper object e_req) MissingWrapper) (\<lambda>wrapper.
             Inr (e_req, wrapper)))"

definition open_request_for_object :: "csk2_object \<Rightarrow> u64 \<Rightarrow> open_request" where
  "open_request_for_object object epoch =
     \<lparr>rq_object_id = o_object_id object, rq_required_rights = o_required_rights object,
      rq_policy_hash = o_policy_hash object, rq_epoch = epoch\<rparr>"

subsection \<open>Sealing\<close>

definition default_verifier :: "crypto \<Rightarrow> bool \<Rightarrow> verifier" where
  "default_verifier C stub_feature =
     (if stub_feature then stub_verify_state C else crypto_verify_state C verifier_new)"

definition SUITE :: bytes where
  "SUITE = ascii ''KYRIOTES-CSK2-DEV-CHACHA20POLY1305-HKDF-SHA256''"

definition seal_verified ::
    "crypto \<Rightarrow> rng \<Rightarrow> rng \<Rightarrow> recipient_public_key \<Rightarrow> bytes \<Rightarrow> capability \<Rightarrow> capability_proof \<Rightarrow>
     transparency_proof \<Rightarrow> verified_authority_state \<Rightarrow> open_request \<Rightarrow> temporal_policy \<Rightarrow>
     csk2_object result" where
  "seal_verified C rng os recipient_pk message cap proof transparency_proof verified_state req
      temporal_policy =
     (let state = as_state verified_state in
      bind_r (validate_capability C cap proof state req) (\<lambda>_.
      let (payload_nonce, rng1) = fill_bytes 12 rng;
          (wrap_nonce, rng2) = fill_bytes 12 rng1;
          (dek, rng3) = fill_bytes 32 rng2;
          ((kem_ct_classical, ss_c, kem_ct_pq, ss_pq), rng4, os') = kem_encaps C recipient_pk rng3 os;
          ss_h = hybrid_secret C ss_c (if kem_ct_pq = [] then None else Some ss_pq);
          cap_stamp = capability_stamp C cap state;
          object = \<lparr>o_version = 1, o_suite = SUITE, o_object_id = rq_object_id req,
            o_required_rights = rq_required_rights req, o_policy_hash = rq_policy_hash req,
            o_seal_epoch = st_epoch state, o_temporal_policy = temporal_policy,
            o_authority_root = st_authority_root state,
            o_revocation_root = st_revocation_root state, o_payload_nonce = payload_nonce,
            o_payload_ciphertext = [], o_wrappers = []\<rparr>
      in bind_r (payload_encrypt C dek payload_nonce message (payload_aad object)) (\<lambda>payload_ct.
         let object = object\<lparr>o_payload_ciphertext := payload_ct\<rparr>;
             ctx = context_hash C (o_object_id object) (o_required_rights object)
               (o_policy_hash object) state cap_stamp (o_temporal_policy object);
             kek = derive_kek C ss_h state ctx (o_policy_hash object);
             aad_auth = authority_aad object state ctx kem_ct_classical kem_ct_pq
         in bind_r (wrap_dek C kek wrap_nonce dek aad_auth) (\<lambda>wrapped_dek.
            Inr (object\<lparr>o_wrappers := o_wrappers object @
              [\<lparr>w_epoch = st_epoch state, w_kem_ct_classical = kem_ct_classical,
                w_kem_ct_pq = kem_ct_pq, w_wrap_nonce = wrap_nonce,
                w_wrapped_dek = wrapped_dek, w_context_hash = ctx,
                w_capability_stamp = cap_stamp,
                w_transparency_proof = transparency_proof\<rparr>]\<rparr>)))))"

definition seal_with_verifier ::
    "crypto \<Rightarrow> rng \<Rightarrow> rng \<Rightarrow> verifier \<Rightarrow> recipient_public_key \<Rightarrow> bytes \<Rightarrow> capability \<Rightarrow>
     capability_proof \<Rightarrow> transparency_proof \<Rightarrow> authority_state \<Rightarrow> open_request \<Rightarrow> temporal_policy \<Rightarrow>
     csk2_object result" where
  "seal_with_verifier C rng os verify_state recipient_pk message cap proof transparency_proof state
      req temporal_policy =
     bind_r (verify_state state transparency_proof) (\<lambda>verified_state.
     seal_verified C rng os recipient_pk message cap proof transparency_proof verified_state req
       temporal_policy)"

definition seal ::
    "crypto \<Rightarrow> bool \<Rightarrow> rng \<Rightarrow> rng \<Rightarrow> recipient_public_key \<Rightarrow> bytes \<Rightarrow> capability \<Rightarrow>
     capability_proof \<Rightarrow> transparency_proof \<Rightarrow> authority_state \<Rightarrow> open_request \<Rightarrow> temporal_policy \<Rightarrow>
     csk2_object result" where
  "seal C stub_feature rng os recipient_pk message cap proof transparency_proof state req
      temporal_policy =
     seal_with_verifier C rng os (default_verifier C stub_feature) recipient_pk message cap proof
       transparency_proof state req temporal_policy"

definition seal_and_commit ::
    "crypto \<Rightarrow> 'l log_ops \<Rightarrow> rng \<Rightarrow> rng \<Rightarrow> 'l \<Rightarrow> verifier \<Rightarrow> recipient_public_key \<Rightarrow> bytes \<Rightarrow>
     capability \<Rightarrow> capability_proof \<Rightarrow> authority_state \<Rightarrow> open_request \<Rightarrow> temporal_policy \<Rightarrow>
     (csk2_object \<times> transparency_state_commit) result \<times> 'l" where
  "seal_and_commit C ops rng os log verify_state recipient_pk message cap proof state req
      temporal_policy =
     (let (res, log') = lo_commit_state ops log state
      in (bind_r res (\<lambda>commit.
          bind_r (seal_with_verifier C rng os verify_state recipient_pk message cap proof
            (tc_proof commit) (tc_state commit) req temporal_policy) (\<lambda>object.
          Inr (object, commit))), log'))"

subsection \<open>Opening\<close>

definition unwrap_dek_for_epoch ::
    "crypto \<Rightarrow> recipient_secret_key \<Rightarrow> csk2_object \<Rightarrow> capability \<Rightarrow> authority_state \<Rightarrow>
     authority_wrapper \<Rightarrow> bytes result" where
  "unwrap_dek_for_epoch C recipient_sk object cap state wrapper =
     (if w_epoch wrapper \<noteq> st_epoch state
      then Inl (AuthorityStateErr ''selected wrapper epoch does not match authority state epoch'')
      else
        let cap_stamp = capability_stamp C cap state in
        if cap_stamp \<noteq> w_capability_stamp wrapper
        then Inl (InvalidCapability ''capability stamp mismatch for wrapper'')
        else
          let ctx = context_hash C (o_object_id object) (o_required_rights object)
                (o_policy_hash object) state cap_stamp (o_temporal_policy object) in
          if ctx \<noteq> w_context_hash wrapper
          then Inl (AuthorityStateErr ''context hash mismatch'')
          else
            let (ss_c, ss_pq) = kem_decaps C recipient_sk (w_kem_ct_classical wrapper)
                  (w_kem_ct_pq wrapper);
                ss_h = hybrid_secret C ss_c (if w_kem_ct_pq wrapper = [] then None else Some ss_pq);
                kek = derive_kek C ss_h state ctx (o_policy_hash object);
                aad = authority_aad object state ctx (w_kem_ct_classical wrapper) (w_kem_ct_pq wrapper)
            in unwrap_dek C kek (w_wrap_nonce wrapper) (w_wrapped_dek wrapper) aad)"

definition open_verified ::
    "crypto \<Rightarrow> recipient_secret_key \<Rightarrow> csk2_object \<Rightarrow> capability \<Rightarrow> capability_proof \<Rightarrow>
     verified_authority_state \<Rightarrow> authority_wrapper \<Rightarrow> u64 \<Rightarrow> bytes result" where
  "open_verified C recipient_sk object cap proof verified_state wrapper e_req =
     (let state = as_state verified_state;
          req = open_request_for_object object e_req in
      bind_r (validate_capability C cap proof state req) (\<lambda>_.
      bind_r (unwrap_dek_for_epoch C recipient_sk object cap state wrapper) (\<lambda>dek.
      payload_decrypt C dek (o_payload_nonce object) (o_payload_ciphertext object)
        (payload_aad object))))"

definition open_with_verifier ::
    "crypto \<Rightarrow> verifier \<Rightarrow> recipient_secret_key \<Rightarrow> csk2_object \<Rightarrow> capability \<Rightarrow> capability_proof \<Rightarrow>
     authority_state \<Rightarrow> bytes result" where
  "open_with_verifier C verify_state recipient_sk object cap proof state =
     bind_r (select_required_wrapper object state) (\<lambda>(e_req, wrapper).
     bind_r (verify_state state (w_transparency_proof wrapper)) (\<lambda>verified_state.
     open_verified C recipient_sk object cap proof verified_state wrapper e_req))"

definition csk2_open ::
    "crypto \<Rightarrow> bool \<Rightarrow> recipient_secret_key \<Rightarrow> csk2_object \<Rightarrow> capability \<Rightarrow> capability_proof \<Rightarrow>
     authority_state \<Rightarrow> bytes result" where
  "csk2_open C stub_feature recipient_sk object cap proof state =
     open_with_verifier C (default_verifier C stub_feature) recipient_sk object cap proof state"

subsection \<open>Re-wrapping for a later epoch\<close>

text \<open>\<open>*existing = wrapper\<close> for the wrapper of that epoch, or a push at the end.\<close>

definition put_epoch_wrapper :: "csk2_object \<Rightarrow> authority_wrapper \<Rightarrow> csk2_object" where
  "put_epoch_wrapper object wrapper =
     (case replace_first (\<lambda>w. w_epoch w = w_epoch wrapper) wrapper (o_wrappers object) of
        Some wrappers \<Rightarrow> object\<lparr>o_wrappers := wrappers\<rparr>
      | None \<Rightarrow> object\<lparr>o_wrappers := o_wrappers object @ [wrapper]\<rparr>)"

definition rewrapped ::
    "crypto \<Rightarrow> rng \<Rightarrow> rng \<Rightarrow> recipient_secret_key \<Rightarrow> recipient_public_key \<Rightarrow> csk2_object \<Rightarrow>
     capability \<Rightarrow> capability_proof \<Rightarrow> verified_authority_state \<Rightarrow> verified_authority_state \<Rightarrow>
     transparency_proof \<Rightarrow> authority_wrapper result" where
  "rewrapped C rng os recipient_sk recipient_pk object cap proof from_verified to_verified
      to_transparency_proof =
     (let from_state = as_state from_verified;
          to_state = as_state to_verified in
      bind_r (ok_or (find_wrapper object (st_epoch from_state)) MissingWrapper) (\<lambda>from_wrapper.
      let from_req = \<lparr>rq_object_id = o_object_id object,
            rq_required_rights = o_required_rights object,
            rq_policy_hash = o_policy_hash object, rq_epoch = st_epoch from_state\<rparr> in
      bind_r (validate_capability C cap proof from_state from_req) (\<lambda>_.
      bind_r (unwrap_dek_for_epoch C recipient_sk object cap from_state from_wrapper) (\<lambda>dek.
      if st_epoch to_state \<le> st_epoch from_state
      then Inl (InvalidCapability ''rewrap target epoch must be strictly later than source epoch'')
      else if st_epoch to_state < cap_epoch_start cap \<or> st_epoch to_state > cap_epoch_end cap
      then Inl (InvalidCapability ''epoch outside capability validity'')
      else
        let cap_stamp = capability_stamp C cap to_state;
            ctx = context_hash C (o_object_id object) (o_required_rights object)
              (o_policy_hash object) to_state cap_stamp (o_temporal_policy object);
            (wrap_nonce, rng1) = fill_bytes 12 rng;
            ((kem_ct_classical, ss_c, kem_ct_pq, ss_pq), rng2, os') = kem_encaps C recipient_pk rng1 os;
            ss_h = hybrid_secret C ss_c (if kem_ct_pq = [] then None else Some ss_pq);
            kek = derive_kek C ss_h to_state ctx (o_policy_hash object);
            aad = authority_aad object to_state ctx kem_ct_classical kem_ct_pq
        in bind_r (wrap_dek C kek wrap_nonce dek aad) (\<lambda>wrapped_dek.
           Inr \<lparr>w_epoch = st_epoch to_state, w_kem_ct_classical = kem_ct_classical,
               w_kem_ct_pq = kem_ct_pq, w_wrap_nonce = wrap_nonce,
               w_wrapped_dek = wrapped_dek, w_context_hash = ctx,
               w_capability_stamp = cap_stamp,
               w_transparency_proof = to_transparency_proof\<rparr>)))))"

definition add_epoch_wrapper_verified ::
    "crypto \<Rightarrow> rng \<Rightarrow> rng \<Rightarrow> recipient_secret_key \<Rightarrow> recipient_public_key \<Rightarrow> csk2_object \<Rightarrow>
     capability \<Rightarrow> capability_proof \<Rightarrow> verified_authority_state \<Rightarrow> verified_authority_state \<Rightarrow>
     transparency_proof \<Rightarrow> unit result \<times> csk2_object" where
  "add_epoch_wrapper_verified C rng os recipient_sk recipient_pk object cap proof from_verified
      to_verified to_transparency_proof =
     (case rewrapped C rng os recipient_sk recipient_pk object cap proof from_verified to_verified
          to_transparency_proof of
        Inl e \<Rightarrow> (Inl e, object)
      | Inr wrapper \<Rightarrow> (Inr (), put_epoch_wrapper object wrapper))"

definition add_epoch_wrapper_with_verifier ::
    "crypto \<Rightarrow> rng \<Rightarrow> rng \<Rightarrow> verifier \<Rightarrow> recipient_secret_key \<Rightarrow> recipient_public_key \<Rightarrow>
     csk2_object \<Rightarrow> capability \<Rightarrow> capability_proof \<Rightarrow> authority_state \<Rightarrow> authority_state \<Rightarrow>
     transparency_proof \<Rightarrow> unit result \<times> csk2_object" where
  "add_epoch_wrapper_with_verifier C rng os verify_state recipient_sk recipient_pk object cap proof
      from_state to_state to_transparency_proof =
     (case bind_r (ok_or (find_wrapper object (st_epoch from_state)) MissingWrapper) (\<lambda>from_wrapper.
           bind_r (verify_state from_state (w_transparency_proof from_wrapper)) (\<lambda>from_verified.
           bind_r (verify_state to_state to_transparency_proof) (\<lambda>to_verified.
           Inr (from_verified, to_verified)))) of
        Inl e \<Rightarrow> (Inl e, object)
      | Inr (from_verified, to_verified) \<Rightarrow>
          add_epoch_wrapper_verified C rng os recipient_sk recipient_pk object cap proof
            from_verified to_verified to_transparency_proof)"

definition add_epoch_wrapper ::
    "crypto \<Rightarrow> bool \<Rightarrow> rng \<Rightarrow> rng \<Rightarrow> recipient_secret_key \<Rightarrow> recipient_public_key \<Rightarrow>
     csk2_object \<Rightarrow> capability \<Rightarrow> capability_proof \<Rightarrow> authority_state \<Rightarrow> authority_state \<Rightarrow>
     transparency_proof \<Rightarrow> unit result \<times> csk2_object" where
  "add_epoch_wrapper C stub_feature rng os recipient_sk recipient_pk object cap proof from_state
      to_state to_transparency_proof =
     add_epoch_wrapper_with_verifier C rng os (default_verifier C stub_feature) recipient_sk
       recipient_pk object cap proof from_state to_state to_transparency_proof"

definition add_epoch_wrapper_and_commit ::
    "crypto \<Rightarrow> 'l log_ops \<Rightarrow> rng \<Rightarrow> rng \<Rightarrow> 'l \<Rightarrow> verifier \<Rightarrow> recipient_secret_key \<Rightarrow>
     recipient_public_key \<Rightarrow> csk2_object \<Rightarrow> capability \<Rightarrow> capability_proof \<Rightarrow> authority_state \<Rightarrow>
     authority_state \<Rightarrow> transparency_state_commit result \<times> 'l \<times> csk2_object" where
  "add_epoch_wrapper_and_commit C ops rng os log verify_state recipient_sk recipient_pk object cap
      proof from_state to_state =
     (case lo_commit_state ops log to_state of
        (Inl e, log') \<Rightarrow> (Inl e, log', object)
      | (Inr commit, log') \<Rightarrow>
          let (res, object') = add_epoch_wrapper_with_verifier C rng os verify_state recipient_sk
                recipient_pk object cap proof from_state (tc_state commit) (tc_proof commit)
          in (bind_r res (\<lambda>_. Inr commit), log', object'))"

subsection \<open>Verification without decryption\<close>

definition verify_verified ::
    "crypto \<Rightarrow> csk2_object \<Rightarrow> capability \<Rightarrow> capability_proof \<Rightarrow> verified_authority_state \<Rightarrow> unit result"
where
  "verify_verified C object cap proof verified_state =
     (let state = as_state verified_state;
          e_open = st_epoch state in
      if \<not> accepts (o_temporal_policy object) e_open (o_seal_epoch object)
      then Inl TemporalRejected
      else
        let e_req = required_epoch (o_temporal_policy object) e_open (o_seal_epoch object) in
        if e_req \<noteq> st_epoch state
        then Inl (AuthorityStateErr ''verify called with wrong authority epoch for temporal policy'')
        else validate_capability C cap proof state
          \<lparr>rq_object_id = o_object_id object, rq_required_rights = o_required_rights object,
           rq_policy_hash = o_policy_hash object, rq_epoch = e_req\<rparr>)"

definition verify_with_verifier ::
    "crypto \<Rightarrow> verifier \<Rightarrow> csk2_object \<Rightarrow> capability \<Rightarrow> capability_proof \<Rightarrow> authority_state \<Rightarrow>
     transparency_proof \<Rightarrow> unit result" where
  "verify_with_verifier C verify_state object cap proof state transparency_proof =
     bind_r (verify_state state transparency_proof) (\<lambda>verified_state.
     verify_verified C object cap proof verified_state)"

definition csk2_verify ::
    "crypto \<Rightarrow> bool \<Rightarrow> csk2_object \<Rightarrow> capability \<Rightarrow> capability_proof \<Rightarrow> authority_state \<Rightarrow>
     transparency_proof \<Rightarrow> unit result" where
  "csk2_verify C stub_feature object cap proof state transparency_proof =
     verify_with_verifier C (default_verifier C stub_feature) object cap proof state
       transparency_proof"

subsection \<open>Resealing\<close>

definition open_and_reseal_verified ::
    "crypto \<Rightarrow> rng \<Rightarrow> rng \<Rightarrow> recipient_secret_key \<Rightarrow> recipient_public_key \<Rightarrow> csk2_object \<Rightarrow>
     capability \<Rightarrow> capability_proof \<Rightarrow> verified_authority_state \<Rightarrow> capability_proof \<Rightarrow>
     transparency_proof \<Rightarrow> verified_authority_state \<Rightarrow> open_request \<Rightarrow> temporal_policy \<Rightarrow>
     csk2_object result" where
  "open_and_reseal_verified C rng os recipient_sk recipient_pk_new object cap open_proof
      open_verified_state seal_proof seal_transparency_proof seal_verified_state seal_req
      new_temporal_policy =
     (let open_state = as_state open_verified_state in
      bind_r (select_required_wrapper object open_state) (\<lambda>(e_req, wrapper).
      bind_r (open_verified C recipient_sk object cap open_proof open_verified_state wrapper e_req)
        (\<lambda>plaintext.
      seal_verified C rng os recipient_pk_new plaintext cap seal_proof seal_transparency_proof
        seal_verified_state seal_req new_temporal_policy)))"

definition open_and_reseal_with_verifier ::
    "crypto \<Rightarrow> rng \<Rightarrow> rng \<Rightarrow> verifier \<Rightarrow> recipient_secret_key \<Rightarrow> recipient_public_key \<Rightarrow>
     csk2_object \<Rightarrow> capability \<Rightarrow> capability_proof \<Rightarrow> authority_state \<Rightarrow> capability_proof \<Rightarrow>
     transparency_proof \<Rightarrow> authority_state \<Rightarrow> open_request \<Rightarrow> temporal_policy \<Rightarrow> csk2_object result"
where
  "open_and_reseal_with_verifier C rng os verify_state recipient_sk recipient_pk_new object cap
      open_proof open_state seal_proof seal_transparency_proof seal_state seal_req
      new_temporal_policy =
     bind_r (ok_or (find_wrapper object (st_epoch open_state)) MissingWrapper) (\<lambda>open_wrapper.
     bind_r (verify_state open_state (w_transparency_proof open_wrapper)) (\<lambda>open_verified_state.
     bind_r (verify_state seal_state seal_transparency_proof) (\<lambda>seal_verified_state.
     open_and_reseal_verified C rng os recipient_sk recipient_pk_new object cap open_proof
       open_verified_state seal_proof seal_transparency_proof seal_verified_state seal_req
       new_temporal_policy)))"

definition open_and_reseal ::
    "crypto \<Rightarrow> bool \<Rightarrow> rng \<Rightarrow> rng \<Rightarrow> recipient_secret_key \<Rightarrow> recipient_public_key \<Rightarrow>
     csk2_object \<Rightarrow> capability \<Rightarrow> capability_proof \<Rightarrow> authority_state \<Rightarrow> capability_proof \<Rightarrow>
     transparency_proof \<Rightarrow> authority_state \<Rightarrow> open_request \<Rightarrow> temporal_policy \<Rightarrow> csk2_object result"
where
  "open_and_reseal C stub_feature rng os recipient_sk recipient_pk_new object cap open_proof
      open_state seal_proof seal_transparency_proof seal_state seal_req new_temporal_policy =
     open_and_reseal_with_verifier C rng os (default_verifier C stub_feature) recipient_sk
       recipient_pk_new object cap open_proof open_state seal_proof seal_transparency_proof
       seal_state seal_req new_temporal_policy"

definition open_and_reseal_and_commit ::
    "crypto \<Rightarrow> 'l log_ops \<Rightarrow> rng \<Rightarrow> rng \<Rightarrow> 'l \<Rightarrow> verifier \<Rightarrow> recipient_secret_key \<Rightarrow>
     recipient_public_key \<Rightarrow> csk2_object \<Rightarrow> capability \<Rightarrow> capability_proof \<Rightarrow> authority_state \<Rightarrow>
     capability_proof \<Rightarrow> authority_state \<Rightarrow> open_request \<Rightarrow> temporal_policy \<Rightarrow>
     (csk2_object \<times> transparency_state_commit) result \<times> 'l" where
  "open_and_reseal_and_commit C ops rng os log verify_state recipient_sk recipient_pk_new object cap
      open_proof open_state seal_proof seal_state seal_req new_temporal_policy =
     (let (res, log') = lo_commit_state ops log seal_state
      in (bind_r res (\<lambda>seal_commit.
          bind_r (open_and_reseal_with_verifier C rng os verify_state recipient_sk recipient_pk_new
            object cap open_proof open_state seal_proof (tc_proof seal_commit)
            (tc_state seal_commit) seal_req new_temporal_policy) (\<lambda>new_object.
          Inr (new_object, seal_commit))), log'))"

subsection \<open>Compromise notices\<close>

definition check_epoch_not_compromised :: "u64 \<Rightarrow> bytes \<Rightarrow> compromise_notice \<Rightarrow> unit result" where
  "check_epoch_not_compromised epoch epoch_pk notice =
     (if epoch_pk = cn_compromised_epoch_pk notice \<and> epoch \<ge> cn_compromised_epoch notice
      then Inl (AuthorityStateErr ''epoch key has been declared compromised'') else Inr ())"

fun enforce_compromise_notices ::
    "crypto \<Rightarrow> authority_state \<Rightarrow> bytes \<Rightarrow> compromise_notice list \<Rightarrow> unit result" where
  "enforce_compromise_notices C state seal_epoch_pk [] = Inr ()"
| "enforce_compromise_notices C state seal_epoch_pk (notice # notices) =
     bind_r (verify_compromise_notice C (st_root_pk state) notice) (\<lambda>_.
     bind_r (check_epoch_not_compromised (st_epoch state) seal_epoch_pk notice) (\<lambda>_.
     enforce_compromise_notices C state seal_epoch_pk notices))"

definition open_with_compromise_check_verified ::
    "crypto \<Rightarrow> recipient_secret_key \<Rightarrow> csk2_object \<Rightarrow> capability \<Rightarrow> capability_proof \<Rightarrow>
     verified_authority_state \<Rightarrow> compromise_notice list \<Rightarrow> authority_wrapper \<Rightarrow> u64 \<Rightarrow> bytes result"
where
  "open_with_compromise_check_verified C recipient_sk object cap proof verified_state notices
      wrapper e_req =
     bind_r (enforce_compromise_notices C (as_state verified_state)
       (ec_epoch_pk (is_epoch_cert (cp_issuance proof))) notices) (\<lambda>_.
     open_verified C recipient_sk object cap proof verified_state wrapper e_req)"

definition open_with_compromise_check_and_verifier ::
    "crypto \<Rightarrow> verifier \<Rightarrow> recipient_secret_key \<Rightarrow> csk2_object \<Rightarrow> capability \<Rightarrow> capability_proof \<Rightarrow>
     authority_state \<Rightarrow> compromise_notice list \<Rightarrow> bytes result" where
  "open_with_compromise_check_and_verifier C verify_state recipient_sk object cap proof state notices =
     bind_r (select_required_wrapper object state) (\<lambda>(e_req, wrapper).
     bind_r (verify_state state (w_transparency_proof wrapper)) (\<lambda>verified_state.
     open_with_compromise_check_verified C recipient_sk object cap proof verified_state notices
       wrapper e_req))"

definition open_with_compromise_check ::
    "crypto \<Rightarrow> bool \<Rightarrow> recipient_secret_key \<Rightarrow> csk2_object \<Rightarrow> capability \<Rightarrow> capability_proof \<Rightarrow>
     authority_state \<Rightarrow> compromise_notice list \<Rightarrow> bytes result" where
  "open_with_compromise_check C stub_feature recipient_sk object cap proof state notices =
     open_with_compromise_check_and_verifier C (default_verifier C stub_feature) recipient_sk object
       cap proof state notices"

definition verify_with_compromise_check_verified ::
    "crypto \<Rightarrow> csk2_object \<Rightarrow> capability \<Rightarrow> capability_proof \<Rightarrow> verified_authority_state \<Rightarrow>
     compromise_notice list \<Rightarrow> unit result" where
  "verify_with_compromise_check_verified C object cap proof verified_state notices =
     bind_r (enforce_compromise_notices C (as_state verified_state)
       (ec_epoch_pk (is_epoch_cert (cp_issuance proof))) notices) (\<lambda>_.
     verify_verified C object cap proof verified_state)"

definition verify_with_compromise_check_and_verifier ::
    "crypto \<Rightarrow> verifier \<Rightarrow> csk2_object \<Rightarrow> capability \<Rightarrow> capability_proof \<Rightarrow> authority_state \<Rightarrow>
     transparency_proof \<Rightarrow> compromise_notice list \<Rightarrow> unit result" where
  "verify_with_compromise_check_and_verifier C verify_state object cap proof state
      transparency_proof notices =
     bind_r (verify_state state transparency_proof) (\<lambda>verified_state.
     verify_with_compromise_check_verified C object cap proof verified_state notices)"

definition verify_with_compromise_check ::
    "crypto \<Rightarrow> bool \<Rightarrow> csk2_object \<Rightarrow> capability \<Rightarrow> capability_proof \<Rightarrow> authority_state \<Rightarrow>
     transparency_proof \<Rightarrow> compromise_notice list \<Rightarrow> unit result" where
  "verify_with_compromise_check C stub_feature object cap proof state transparency_proof notices =
     verify_with_compromise_check_and_verifier C (default_verifier C stub_feature) object cap proof
       state transparency_proof notices"

subsection \<open>What validation accepts\<close>

definition parent_stamp_ok :: "capability \<Rightarrow> bool" where
  "parent_stamp_ok cap \<longleftrightarrow> (cap_delegation_depth cap = 0 \<longleftrightarrow> cap_parent_stamp cap = zeros 32)"

text \<open>The part of the check that does not look at the revocation set.\<close>

definition issued_and_included :: "crypto \<Rightarrow> capability \<Rightarrow> capability_proof \<Rightarrow> authority_state \<Rightarrow> bool" where
  "issued_and_included C cap proof s \<longleftrightarrow> parent_stamp_ok cap \<and>
     verify_capability_inclusion C cap (cp_inclusion proof) (st_authority_root s) = Inr () \<and>
     verify_capability_issuance C cap (st_authority_root s)
       (ec_epoch (is_epoch_cert (cp_issuance proof))) (cp_issuance proof) (st_root_pk s) = Inr ()"

definition grants :: "capability \<Rightarrow> open_request \<Rightarrow> bool" where
  "grants cap req \<longleftrightarrow> cap_object_id cap = rq_object_id req \<and>
     contains_all (cap_rights cap) (rq_required_rights req) \<and>
     cap_policy_hash cap = rq_policy_hash req \<and>
     cap_epoch_start cap \<le> rq_epoch req \<and> rq_epoch req \<le> cap_epoch_end cap"

lemma validate_capability_ok [result_simps]:
  "validate_capability C cap proof s req = Inr u \<longleftrightarrow>
     issued_and_included C cap proof s \<and> grants cap req \<and> rq_epoch req = st_epoch s \<and>
     nw_stamp (cp_non_revocation proof) = capability_stamp C cap s \<and>
     verify_non_revocation C (cp_non_revocation proof) (st_revocation_root s) (st_revocation_count s)
       = Inr ()"
  by (auto simp: validate_capability_def issued_and_included_def grants_def parent_stamp_ok_def
      bind_r_eq_Inr map_err_eq_Inr Let_def not_less simp flip: word_neq_0_conv)

lemma select_required_wrapper_ok [result_simps]:
  "select_required_wrapper object s = Inr (e, w) \<longleftrightarrow>
     openable_epoch (o_temporal_policy object) (o_seal_epoch object) (st_epoch s) \<and>
     e = st_epoch s \<and> find_wrapper object (st_epoch s) = Some w"
  by (auto simp: select_required_wrapper_def openable_epoch_def required_epoch_def Let_def
      bind_r_eq_Inr ok_or_eq_Inr)

lemma find_wrapper_epoch: "find_wrapper object e = Some w \<Longrightarrow> w_epoch w = e"
  by (auto simp: find_wrapper_def dest: find_SomeD)

subsection \<open>Wrapping and unwrapping\<close>

definition object_context :: "crypto \<Rightarrow> csk2_object \<Rightarrow> capability \<Rightarrow> authority_state \<Rightarrow> bytes" where
  "object_context C object cap s = context_hash C (o_object_id object) (o_required_rights object)
     (o_policy_hash object) s (capability_stamp C cap s) (o_temporal_policy object)"

definition wrapper_kek :: "crypto \<Rightarrow> csk2_object \<Rightarrow> capability \<Rightarrow> authority_state \<Rightarrow> bytes \<Rightarrow> bytes \<Rightarrow> bytes \<Rightarrow> bytes"
where
  "wrapper_kek C object cap s ss ct_pq ss_pq =
     derive_kek C (hybrid_secret C ss (if ct_pq = [] then None else Some ss_pq)) s
       (object_context C object cap s) (o_policy_hash object)"

lemma unwrap_dek_ok [result_simps]:
  "unwrap_dek C kek n wd aad = Inr dek \<longleftrightarrow> aead_decrypt C kek n aad wd = Some dek \<and> length dek = 32"
  by (auto simp: unwrap_dek_def bind_r_eq_Inr ok_or_eq_Inr)

lemma unwrap_dek_for_epoch_ok:
  "unwrap_dek_for_epoch C sk object cap s w = Inr dek \<longleftrightarrow>
     w_epoch w = st_epoch s \<and> w_capability_stamp w = capability_stamp C cap s \<and>
     w_context_hash w = object_context C object cap s \<and> length dek = 32 \<and>
     (let (ss, ss_pq) = kem_decaps C sk (w_kem_ct_classical w) (w_kem_ct_pq w) in
      aead_decrypt C (wrapper_kek C object cap s ss (w_kem_ct_pq w) ss_pq) (w_wrap_nonce w)
        (authority_aad object s (object_context C object cap s) (w_kem_ct_classical w) (w_kem_ct_pq w))
        (w_wrapped_dek w) = Some dek)"
  by (auto simp: unwrap_dek_for_epoch_def object_context_def wrapper_kek_def Let_def unwrap_dek_ok
      split: prod.splits)

text \<open>What unwrapping reads of an object: not its ciphertext, nonce or wrappers.\<close>

definition same_header :: "csk2_object \<Rightarrow> csk2_object \<Rightarrow> bool" where
  "same_header a b \<longleftrightarrow> o_object_id a = o_object_id b \<and> o_required_rights a = o_required_rights b \<and>
     o_policy_hash a = o_policy_hash b \<and> o_temporal_policy a = o_temporal_policy b"

lemma same_header_cong:
  assumes "same_header a b"
  shows "object_context C a cap s = object_context C b cap s"
    "wrapper_kek C a cap s ss ct ss' = wrapper_kek C b cap s ss ct ss'"
    "authority_aad a s ctx k k' = authority_aad b s ctx k k'"
    "unwrap_dek_for_epoch C sk a cap s w = unwrap_dek_for_epoch C sk b cap s w"
  using assms by (simp_all add: same_header_def object_context_def wrapper_kek_def authority_aad_def
      unwrap_dek_for_epoch_def Let_def)

definition crypto_correct :: "crypto \<Rightarrow> bool" where
  "crypto_correct C \<longleftrightarrow> dh_correct C \<and> mlkem_correct C \<and> aead_correct C"

lemma unwrap_wrapped:
  assumes "crypto_correct C" "keys_match C pk sk" "length dek = 32"
    and "kem_encaps C pk rng os = ((ct, ss, ct_pq, ss_pq), rng', os')"
    and "wrap_dek C (wrapper_kek C object cap s ss ct_pq ss_pq) n dek
      (authority_aad object s (object_context C object cap s) ct ct_pq) = Inr wd"
  shows "unwrap_dek_for_epoch C sk object cap s
    \<lparr>w_epoch = st_epoch s, w_kem_ct_classical = ct, w_kem_ct_pq = ct_pq, w_wrap_nonce = n,
     w_wrapped_dek = wd, w_context_hash = object_context C object cap s,
     w_capability_stamp = capability_stamp C cap s, w_transparency_proof = tp\<rparr> = Inr dek"
proof -
  have "kem_decaps C sk ct ct_pq = (ss, ss_pq)"
    using kem_agreement assms(1,2,4) by (auto simp: crypto_correct_def)
  moreover have "aead_decrypt C (wrapper_kek C object cap s ss ct_pq ss_pq) n
      (authority_aad object s (object_context C object cap s) ct ct_pq) wd = Some dek"
    using assms(1,5) by (simp add: crypto_correct_def aead_correct_def wrap_dek_def ok_or_eq_Inr)
  ultimately show ?thesis using assms(3) by (simp add: unwrap_dek_for_epoch_ok)
qed

subsection \<open>Sealing and opening\<close>

text \<open>What a sealed object looks like: one wrapper, of the sealing epoch, around a fresh key.\<close>

definition opens_to ::
    "crypto \<Rightarrow> recipient_secret_key \<Rightarrow> csk2_object \<Rightarrow> capability \<Rightarrow> authority_state \<Rightarrow> bytes \<Rightarrow> bool" where
  "opens_to C sk object cap s m \<longleftrightarrow> (\<exists>w dek. find_wrapper object (st_epoch s) = Some w \<and>
     unwrap_dek_for_epoch C sk object cap s w = Inr dek \<and>
     payload_decrypt C dek (o_payload_nonce object) (o_payload_ciphertext object) (payload_aad object)
       = Inr m)"

lemma open_verified_ok:
  "open_verified C sk object cap proof v w e = Inr m \<longleftrightarrow>
     validate_capability C cap proof (as_state v) (open_request_for_object object e) = Inr () \<and>
     (\<exists>dek. unwrap_dek_for_epoch C sk object cap (as_state v) w = Inr dek \<and>
        payload_decrypt C dek (o_payload_nonce object) (o_payload_ciphertext object) (payload_aad object)
          = Inr m)"
  by (auto simp: open_verified_def Let_def bind_r_eq_Inr)

lemma open_with_verifier_ok:
  "open_with_verifier C V sk object cap proof s = Inr m \<longleftrightarrow>
     openable_epoch (o_temporal_policy object) (o_seal_epoch object) (st_epoch s) \<and>
     (\<exists>w v. find_wrapper object (st_epoch s) = Some w \<and> V s (w_transparency_proof w) = Inr v \<and>
        open_verified C sk object cap proof v w (st_epoch s) = Inr m)"
  by (auto simp: open_with_verifier_def bind_r_eq_Inr select_required_wrapper_ok)

lemma seal_verified_ok:
  assumes "seal_verified C rng os pk m cap proof tp v req pol = Inr object"
  shows "validate_capability C cap proof (as_state v) req = Inr () \<and>
    o_object_id object = rq_object_id req \<and> o_required_rights object = rq_required_rights req \<and>
    o_policy_hash object = rq_policy_hash req \<and> o_seal_epoch object = st_epoch (as_state v) \<and>
    o_temporal_policy object = pol \<and>
    (\<exists>w. o_wrappers object = [w] \<and> w_epoch w = st_epoch (as_state v) \<and> w_transparency_proof w = tp)"
  using assms
  by (auto simp: seal_verified_def Let_def bind_r_eq_Inr split: prod.splits)

lemma payload_roundtrip:
  "aead_correct C \<Longrightarrow> payload_encrypt C dek n m aad = Inr ct \<Longrightarrow> payload_decrypt C dek n ct aad = Inr m"
  by (simp add: aead_correct_def payload_encrypt_def payload_decrypt_def ok_or_eq_Inr)

lemma seal_opens_to:
  assumes "crypto_correct C" "keys_match C pk sk"
    and "seal_verified C rng os pk m cap proof tp v req pol = Inr object"
  shows "opens_to C sk object cap (as_state v) m"
proof -
  let ?s = "as_state v"
  obtain pn rng1 where 1: "fill_bytes 12 rng = (pn, rng1)" by fastforce
  obtain wn rng2 where 2: "fill_bytes 12 rng1 = (wn, rng2)" by fastforce
  obtain dek rng3 where 3: "fill_bytes 32 rng2 = (dek, rng3)" by fastforce
  obtain ct ss ct_pq ss_pq rng4 os' where 4: "kem_encaps C pk rng3 os = ((ct, ss, ct_pq, ss_pq), rng4, os')"
    by (metis prod_cases4 surj_pair)
  have dek: "length dek = 32" using length_fill_bytes [of 32 rng2] 3 by simp
  obtain pct wd w where o: "payload_encrypt C dek pn m (payload_aad object) = Inr pct"
      "o_payload_nonce object = pn" "o_payload_ciphertext object = pct"
      "wrap_dek C (wrapper_kek C object cap ?s ss ct_pq ss_pq) wn dek
        (authority_aad object ?s (object_context C object cap ?s) ct ct_pq) = Inr wd"
      "o_wrappers object = [w]"
      "w = \<lparr>w_epoch = st_epoch ?s, w_kem_ct_classical = ct, w_kem_ct_pq = ct_pq, w_wrap_nonce = wn,
        w_wrapped_dek = wd, w_context_hash = object_context C object cap ?s,
        w_capability_stamp = capability_stamp C cap ?s, w_transparency_proof = tp\<rparr>"
    using assms(3)
    by (auto simp: seal_verified_def 1 2 3 4 Let_def bind_r_eq_Inr object_context_def wrapper_kek_def
        payload_aad_def authority_aad_def)
  have "unwrap_dek_for_epoch C sk object cap ?s w = Inr dek"
    using unwrap_wrapped [OF assms(1,2) dek 4 o(4)] o(6) by simp
  moreover have "payload_decrypt C dek pn pct (payload_aad object) = Inr m"
    using payload_roundtrip o(1) assms(1) by (auto simp: crypto_correct_def)
  moreover have "find_wrapper object (st_epoch ?s) = Some w"
    by (simp add: find_wrapper_def o(5) o(6))
  ultimately show ?thesis using o(2,3) by (auto simp: opens_to_def)
qed

lemma seal_succeeds:
  assumes "validate_capability C cap proof (as_state v) req = Inr ()" "aead_accepts C" "length m < 2 ^ 37"
  shows "\<exists>object. seal_verified C rng os pk m cap proof tp v req pol = Inr object"
proof -
  obtain pn rng1 where 1: "fill_bytes 12 rng = (pn, rng1)" by fastforce
  obtain wn rng2 where 2: "fill_bytes 12 rng1 = (wn, rng2)" by fastforce
  obtain dek rng3 where 3: "fill_bytes 32 rng2 = (dek, rng3)" by fastforce
  obtain ct ss ct_pq ss_pq rng4 os' where 4: "kem_encaps C pk rng3 os = ((ct, ss, ct_pq, ss_pq), rng4, os')"
    by (metis prod_cases4 surj_pair)
  have "length dek = 32" using length_fill_bytes [of 32 rng2] 3 by simp
  then have enc: "\<exists>x. aead_encrypt C k n a dek = Some x" "\<exists>x. aead_encrypt C k n a m = Some x" for k n a
    using assms(2,3) unfolding aead_accepts_def by fastforce+
  have "\<exists>x. wrap_dek C k n dek a = Inr x" "\<exists>x. payload_encrypt C k n m a = Inr x" for k n a
    using enc [of k n a] by (auto simp: wrap_dek_def payload_encrypt_def)
  then obtain f g where "\<And>k n a. wrap_dek C k n dek a = Inr (f k n a)"
      "\<And>k n a. payload_encrypt C k n m a = Inr (g k n a)" by metis
  then show ?thesis by (simp add: seal_verified_def 1 2 3 4 assms(1) Let_def)
qed

lemma validate_request_cong:
  "validate_capability C cap proof s req = Inr () \<Longrightarrow> rq_object_id req' = rq_object_id req \<Longrightarrow>
   rq_required_rights req' = rq_required_rights req \<Longrightarrow> rq_policy_hash req' = rq_policy_hash req \<Longrightarrow>
   rq_epoch req' = st_epoch s \<Longrightarrow> validate_capability C cap proof s req' = Inr ()"
  by (auto simp: validate_capability_ok grants_def)

text \<open>
  Opening succeeds for everyone who passes the gates of verification and holds a key that the
  object opens to.
\<close>

lemma open_with_verifier_intro:
  assumes "opens_to C sk object cap s m"
    and "\<And>w. find_wrapper object (st_epoch s) = Some w \<Longrightarrow> V s (w_transparency_proof w) = Inr v"
    and "as_state v = s" "verify_verified C object cap proof v = Inr ()"
  shows "open_with_verifier C V sk object cap proof s = Inr m"
proof -
  have gates: "openable_epoch (o_temporal_policy object) (o_seal_epoch object) (st_epoch s)"
      "validate_capability C cap proof s (open_request_for_object object (st_epoch s)) = Inr ()"
    using assms(3,4)
    by (auto simp: verify_verified_def openable_epoch_def required_epoch_def open_request_for_object_def
        Let_def split: if_splits)
  with assms(1-3) show ?thesis by (auto simp: open_with_verifier_ok open_verified_ok opens_to_def)
qed

lemma verify_verified_ok:
  "verify_verified C object cap proof v = Inr () \<longleftrightarrow>
     openable_epoch (o_temporal_policy object) (o_seal_epoch object) (st_epoch (as_state v)) \<and>
     validate_capability C cap proof (as_state v)
       (open_request_for_object object (st_epoch (as_state v))) = Inr ()"
  by (auto simp: verify_verified_def openable_epoch_def required_epoch_def open_request_for_object_def
      Let_def)

lemma sealed_verifies:
  assumes "seal_verified C rng os pk m cap proof tp v req pol = Inr object"
    and "openable_epoch pol (st_epoch (as_state v)) (st_epoch (as_state v))"
  shows "verify_verified C object cap proof v = Inr ()"
  using seal_verified_ok [OF assms(1)] assms(2) validate_request_cong
  by (auto simp: verify_verified_ok open_request_for_object_def)

context authority_verifier
begin

lemma seal_open_roundtrip:
  assumes "crypto_correct C" "keys_match C pk sk"
    and "seal_with_verifier C rng os verify_state pk m cap proof tp s req pol = Inr object"
    and "openable_epoch pol (st_epoch s) (st_epoch s)"
  shows "open_with_verifier C verify_state sk object cap proof s = Inr m"
proof -
  obtain v where v: "verify_state s tp = Inr v"
      "seal_verified C rng os pk m cap proof tp v req pol = Inr object"
    using assms(3) by (auto simp: seal_with_verifier_def bind_r_eq_Inr)
  have s: "as_state v = s" using verified_as_state [OF v(1)] .
  have "find_wrapper object (st_epoch s) = Some w \<Longrightarrow> w_transparency_proof w = tp" for w
    using seal_verified_ok [OF v(2)] by (auto simp: find_wrapper_def split: if_splits)
  with v sealed_verifies [OF v(2)] seal_opens_to [OF assms(1,2) v(2)] assms(4) s show ?thesis
    by (intro open_with_verifier_intro [where v = v]) auto
qed

lemma open_gates:
  assumes "open_with_verifier C verify_state sk object cap proof s = Inr m"
  shows "\<exists>w. find_wrapper object (st_epoch s) = Some w \<and>
    verify_with_verifier C verify_state object cap proof s (w_transparency_proof w) = Inr () \<and>
    verify_transparency_proof C s (w_transparency_proof w) = Inr ()"
proof -
  obtain w v where w: "find_wrapper object (st_epoch s) = Some w"
      "verify_state s (w_transparency_proof w) = Inr v"
      "open_verified C sk object cap proof v w (st_epoch s) = Inr m"
      "openable_epoch (o_temporal_policy object) (o_seal_epoch object) (st_epoch s)"
    using assms by (auto simp: open_with_verifier_ok)
  with verified_as_state [OF w(2)] verified_logged [OF w(2)] show ?thesis
    by (auto simp: verify_with_verifier_def verify_verified_ok open_verified_ok)
qed

text \<open>Opening is verification plus possession of a key the object opens to, and nothing else.\<close>

lemma open_iff:
  "open_with_verifier C verify_state sk object cap proof s = Inr m \<longleftrightarrow>
     opens_to C sk object cap s m \<and>
     (\<exists>w. find_wrapper object (st_epoch s) = Some w \<and>
        verify_with_verifier C verify_state object cap proof s (w_transparency_proof w) = Inr ())"
  (is "?l \<longleftrightarrow> ?r")
proof
  assume l: ?l
  then obtain w v where w: "find_wrapper object (st_epoch s) = Some w"
      and v: "verify_state s (w_transparency_proof w) = Inr v"
      and "open_verified C sk object cap proof v w (st_epoch s) = Inr m"
    by (auto simp: open_with_verifier_ok)
  then have "opens_to C sk object cap s m"
    using verified_as_state [OF v] by (auto simp: open_verified_ok opens_to_def)
  with open_gates [OF l] show ?r by blast
next
  assume ?r
  then obtain w v where "opens_to C sk object cap s m" "find_wrapper object (st_epoch s) = Some w"
      and v: "verify_state s (w_transparency_proof w) = Inr v"
      and "verify_verified C object cap proof v = Inr ()"
    by (auto simp: verify_with_verifier_def bind_r_eq_Inr)
  with verified_as_state [OF v] show ?l
    by (intro open_with_verifier_intro [where v = v]) simp_all
qed

end

subsection \<open>Context binding\<close>

text \<open>
  Unless SHA-256 collides on the two context messages, a wrapper made for one header and state is
  refused for every other header, capability stamp or state.
\<close>

definition context_input :: "csk2_object \<Rightarrow> authority_state \<Rightarrow> bytes \<Rightarrow> bytes" where
  "context_input object s stamp = ascii ''KYRIOTES-CSK2-CONTEXT-v1'' @
     context_transcript (o_object_id object) (o_required_rights object) (o_policy_hash object) s stamp
       (o_temporal_policy object)"

definition wf_header :: "csk2_object \<Rightarrow> bool" where
  "wf_header object \<longleftrightarrow> length (o_object_id object) < 2 ^ 32 \<and> length (o_policy_hash object) = 32"

definition same_roots :: "authority_state \<Rightarrow> authority_state \<Rightarrow> bool" where
  "same_roots s t \<longleftrightarrow> st_epoch s = st_epoch t \<and> st_authority_root s = st_authority_root t \<and>
     st_revocation_root s = st_revocation_root t \<and> st_transparency_root s = st_transparency_root t \<and>
     st_authority_id s = st_authority_id t"

lemma context_binding:
  assumes "sha_32 C" "wf_header a" "wf_header b" "wf_state s" "wf_state t"
    and "inj_on (sha256 C) {context_input a s (capability_stamp C c s), context_input b t (capability_stamp C d t)}"
    and "object_context C a c s = object_context C b d t"
  shows "same_header a b \<and> same_roots s t \<and> capability_stamp C c s = capability_stamp C d t"
proof -
  have "context_input a s (capability_stamp C c s) = context_input b t (capability_stamp C d t)"
    by (rule inj_onD [OF assms(6)])
      (use assms(7) in \<open>simp_all add: object_context_def context_hash_def context_input_def\<close>)
  then have "context_transcript (o_object_id a) (o_required_rights a) (o_policy_hash a) s
      (capability_stamp C c s) (o_temporal_policy a) =
    context_transcript (o_object_id b) (o_required_rights b) (o_policy_hash b) t
      (capability_stamp C d t) (o_temporal_policy b)"
    by (simp add: context_input_def)
  from context_transcript_inj [OF _ _ _ _ assms(4,5) _ _ this] assms(1-3) show ?thesis
    by (simp add: wf_header_def same_header_def same_roots_def hash_lengths)
qed

subsection \<open>Re-wrapping\<close>

definition distinct_epochs :: "csk2_object \<Rightarrow> bool" where
  "distinct_epochs object \<longleftrightarrow> distinct (map w_epoch (o_wrappers object))"

lemma put_epoch_wrapper_header [simp]:
  "o_object_id (put_epoch_wrapper o' w) = o_object_id o'"
  "o_required_rights (put_epoch_wrapper o' w) = o_required_rights o'"
  "o_policy_hash (put_epoch_wrapper o' w) = o_policy_hash o'"
  "o_temporal_policy (put_epoch_wrapper o' w) = o_temporal_policy o'"
  "o_seal_epoch (put_epoch_wrapper o' w) = o_seal_epoch o'"
  "o_payload_nonce (put_epoch_wrapper o' w) = o_payload_nonce o'"
  "o_payload_ciphertext (put_epoch_wrapper o' w) = o_payload_ciphertext o'"
  "payload_aad (put_epoch_wrapper o' w) = payload_aad o'"
  "same_header (put_epoch_wrapper o' w) o'"
  by (simp_all add: put_epoch_wrapper_def payload_aad_def same_header_def split: option.splits)

lemma find_wrapper_put:
  "find_wrapper (put_epoch_wrapper o' w) e = (if e = w_epoch w then Some w else find_wrapper o' e)"
proof (cases "replace_first (\<lambda>x. w_epoch x = w_epoch w) w (o_wrappers o')")
  case None
  then have "List.find (\<lambda>x. w_epoch x = w_epoch w) (o_wrappers o') = None"
    by (simp add: replace_first_None find_None_iff)
  with None show ?thesis
    by (auto simp: find_wrapper_def put_epoch_wrapper_def find_append split: option.splits)
next
  case (Some ws)
  with find_replace_first [OF Some] find_replace_first_other [OF Some, of "\<lambda>x. w_epoch x = e"]
  show ?thesis by (auto simp: find_wrapper_def put_epoch_wrapper_def)
qed

lemma distinct_epochs_put: "distinct_epochs o' \<Longrightarrow> distinct_epochs (put_epoch_wrapper o' w)"
proof (cases "replace_first (\<lambda>x. w_epoch x = w_epoch w) w (o_wrappers o')")
  case None
  then have "w_epoch w \<notin> w_epoch ` set (o_wrappers o')" by (force simp: replace_first_None)
  then show "distinct_epochs o' \<Longrightarrow> ?thesis" by (simp add: distinct_epochs_def put_epoch_wrapper_def None)
next
  case (Some ws)
  then have "map w_epoch ws = map w_epoch (o_wrappers o')" by (rule map_replace_first) simp
  then show "distinct_epochs o' \<Longrightarrow> ?thesis" by (simp add: distinct_epochs_def put_epoch_wrapper_def Some)
qed

lemma rewrapped_ok:
  assumes "crypto_correct C" "keys_match C pk sk'"
    and "rewrapped C rng os sk pk object cap proof vf vt tp = Inr w"
  shows "\<exists>wf dek. find_wrapper object (st_epoch (as_state vf)) = Some wf \<and>
      unwrap_dek_for_epoch C sk object cap (as_state vf) wf = Inr dek \<and>
      validate_capability C cap proof (as_state vf)
        (open_request_for_object object (st_epoch (as_state vf))) = Inr () \<and>
      st_epoch (as_state vf) < st_epoch (as_state vt) \<and>
      cap_epoch_start cap \<le> st_epoch (as_state vt) \<and> st_epoch (as_state vt) \<le> cap_epoch_end cap \<and>
      w_epoch w = st_epoch (as_state vt) \<and> w_transparency_proof w = tp \<and>
      unwrap_dek_for_epoch C sk' object cap (as_state vt) w = Inr dek"
proof -
  let ?s = "as_state vf" and ?t = "as_state vt"
  obtain wn rng1 where 1: "fill_bytes 12 rng = (wn, rng1)" by fastforce
  obtain ct ss ct_pq ss_pq rng2 os' where 2: "kem_encaps C pk rng1 os = ((ct, ss, ct_pq, ss_pq), rng2, os')"
    by (metis prod_cases4 surj_pair)
  obtain wf dek wd where o: "find_wrapper object (st_epoch ?s) = Some wf"
      "unwrap_dek_for_epoch C sk object cap ?s wf = Inr dek"
      "validate_capability C cap proof ?s (open_request_for_object object (st_epoch ?s)) = Inr ()"
      "st_epoch ?s < st_epoch ?t" "cap_epoch_start cap \<le> st_epoch ?t" "st_epoch ?t \<le> cap_epoch_end cap"
      "wrap_dek C (wrapper_kek C object cap ?t ss ct_pq ss_pq) wn dek
        (authority_aad object ?t (object_context C object cap ?t) ct ct_pq) = Inr wd"
      "w = \<lparr>w_epoch = st_epoch ?t, w_kem_ct_classical = ct, w_kem_ct_pq = ct_pq, w_wrap_nonce = wn,
        w_wrapped_dek = wd, w_context_hash = object_context C object cap ?t,
        w_capability_stamp = capability_stamp C cap ?t, w_transparency_proof = tp\<rparr>"
    using assms(3)
    by (auto simp: rewrapped_def 1 2 Let_def bind_r_eq_Inr ok_or_eq_Inr object_context_def
        wrapper_kek_def open_request_for_object_def not_le not_less split: if_splits)
  have "length dek = 32" using o(2) by (simp add: unwrap_dek_for_epoch_ok)
  with unwrap_wrapped [OF assms(1,2) _ 2 o(7)] o show ?thesis by auto
qed

lemma rewrap_succeeds:
  assumes "find_wrapper object (st_epoch (as_state vf)) = Some w0"
    and "unwrap_dek_for_epoch C sk object cap (as_state vf) w0 = Inr dek"
    and "validate_capability C cap proof (as_state vf)
      (open_request_for_object object (st_epoch (as_state vf))) = Inr ()"
    and "st_epoch (as_state vf) < st_epoch (as_state vt)"
    and "cap_epoch_start cap \<le> st_epoch (as_state vt)" "st_epoch (as_state vt) \<le> cap_epoch_end cap"
    and "aead_accepts C"
  shows "\<exists>w. rewrapped C rng os sk pk object cap proof vf vt tp = Inr w"
proof -
  obtain wn rng1 where 1: "fill_bytes 12 rng = (wn, rng1)" by fastforce
  obtain ct ss ct_pq ss_pq rng2 os' where 2: "kem_encaps C pk rng1 os = ((ct, ss, ct_pq, ss_pq), rng2, os')"
    by (metis prod_cases4 surj_pair)
  have "length dek = 32" using assms(2) by (simp add: unwrap_dek_for_epoch_ok)
  then have "\<exists>x. wrap_dek C k n dek a = Inr x" for k n a
    using assms(7) unfolding aead_accepts_def wrap_dek_def by (fastforce simp: ok_or_eq_Inr)
  then obtain f where "\<And>k n a. wrap_dek C k n dek a = Inr (f k n a)" by metis
  then show ?thesis
    using assms by (simp add: rewrapped_def 1 2 Let_def open_request_for_object_def not_le not_less)
qed

lemma add_epoch_wrapper_verified_ok:
  "add_epoch_wrapper_verified C rng os sk pk object cap proof vf vt tp = (Inr (), object') \<longleftrightarrow>
     (\<exists>w. rewrapped C rng os sk pk object cap proof vf vt tp = Inr w \<and> object' = put_epoch_wrapper object w)"
  by (auto simp: add_epoch_wrapper_verified_def split: sum.splits)

lemma add_epoch_wrapper_verified_err:
  "add_epoch_wrapper_verified C rng os sk pk object cap proof vf vt tp = (Inl e, object') \<Longrightarrow> object' = object"
  by (auto simp: add_epoch_wrapper_verified_def split: sum.splits)

text \<open>A re-wrap keeps every message the object opened to and adds the same message at the new epoch.\<close>

lemma rewrap_opens_to:
  assumes "crypto_correct C" "keys_match C pk sk'"
    and "add_epoch_wrapper_verified C rng os sk pk object cap proof vf vt tp = (Inr (), object')"
    and "opens_to C sk object cap (as_state vf) m"
  shows "opens_to C sk' object' cap (as_state vt) m"
proof -
  obtain w where w: "rewrapped C rng os sk pk object cap proof vf vt tp = Inr w"
      "object' = put_epoch_wrapper object w"
    using assms(3) by (auto simp: add_epoch_wrapper_verified_ok)
  obtain wf dek where d: "find_wrapper object (st_epoch (as_state vf)) = Some wf"
      "unwrap_dek_for_epoch C sk object cap (as_state vf) wf = Inr dek"
      "w_epoch w = st_epoch (as_state vt)"
      "unwrap_dek_for_epoch C sk' object cap (as_state vt) w = Inr dek"
    using rewrapped_ok [OF assms(1,2) w(1)] by blast
  then have "payload_decrypt C dek (o_payload_nonce object) (o_payload_ciphertext object)
      (payload_aad object) = Inr m"
    using assms(4) by (auto simp: opens_to_def)
  moreover have "unwrap_dek_for_epoch C sk' object' cap (as_state vt) w = Inr dek"
    using same_header_cong(4) [of object' object] d(4) w(2) by simp
  ultimately show ?thesis using w(2) d(3) by (auto simp: opens_to_def find_wrapper_put)
qed

lemma rewrap_keeps_others:
  assumes "add_epoch_wrapper_verified C rng os sk pk object cap proof vf vt tp = (Inr (), object')"
    and "st_epoch s \<noteq> st_epoch (as_state vt)"
  shows "opens_to C sk' object' cap' s m \<longleftrightarrow> opens_to C sk' object cap' s m"
proof -
  obtain w where w: "rewrapped C rng os sk pk object cap proof vf vt tp = Inr w"
      "object' = put_epoch_wrapper object w"
    using assms(1) by (auto simp: add_epoch_wrapper_verified_ok)
  have "w_epoch w = st_epoch (as_state vt)"
    using w(1) by (auto simp: rewrapped_def Let_def bind_r_eq_Inr split: prod.splits if_splits)
  with assms(2) w(2) same_header_cong(4) [of object' object] show ?thesis
    by (auto simp: opens_to_def find_wrapper_put)
qed

text \<open>
  Opening after a re-wrap. The new wrapper carries the authority's evidence for the target state, so what is
  left is the temporal policy and the capability at that state.
\<close>

context authority_verifier
begin

lemma rewrap_open_iff:
  assumes "crypto_correct C" "keys_match C pk sk'"
    and "add_epoch_wrapper_with_verifier C rng os verify_state sk pk object cap proof s t tp = (Inr (), object')"
    and "opens_to C sk object cap s m"
  shows "opens_to C sk' object' cap t m" "st_epoch s < st_epoch t"
    "cap_epoch_start cap \<le> st_epoch t" "st_epoch t \<le> cap_epoch_end cap"
    "open_with_verifier C verify_state sk' object' cap proof' t = Inr m \<longleftrightarrow>
       openable_epoch (o_temporal_policy object) (o_seal_epoch object) (st_epoch t) \<and>
       validate_capability C cap proof' t (open_request_for_object object (st_epoch t)) = Inr ()"
proof -
  obtain vf vt and w0 :: authority_wrapper where v: "verify_state s (w_transparency_proof w0) = Inr vf" "verify_state t tp = Inr vt"
    and added: "add_epoch_wrapper_verified C rng os sk pk object cap proof vf vt tp = (Inr (), object')"
    using assms(3)
    by (auto simp: add_epoch_wrapper_with_verifier_def bind_r_eq_Inr ok_or_eq_Inr split: sum.splits)
  have st: "as_state vf = s" "as_state vt = t" using v verified_as_state by blast+
  obtain w where w: "rewrapped C rng os sk pk object cap proof vf vt tp = Inr w" "object' = put_epoch_wrapper object w"
    using added by (auto simp: add_epoch_wrapper_verified_ok)
  note r = rewrapped_ok [OF assms(1,2) w(1), unfolded st]
  show opens: "opens_to C sk' object' cap t m"
    using rewrap_opens_to [OF assms(1,2) added] assms(4) st by simp
  show "st_epoch s < st_epoch t" "cap_epoch_start cap \<le> st_epoch t" "st_epoch t \<le> cap_epoch_end cap" using r by blast+
  have "find_wrapper object' (st_epoch t) = Some w" "w_transparency_proof w = tp" using r w(2) by (auto simp: find_wrapper_put)
  moreover have "o_temporal_policy object' = o_temporal_policy object" "o_seal_epoch object' = o_seal_epoch object"
      "open_request_for_object object' e = open_request_for_object object e" for e
    using w(2) by (simp_all add: put_epoch_wrapper_def open_request_for_object_def split: option.splits)
  ultimately show "open_with_verifier C verify_state sk' object' cap proof' t = Inr m \<longleftrightarrow>
       openable_epoch (o_temporal_policy object) (o_seal_epoch object) (st_epoch t) \<and>
       validate_capability C cap proof' t (open_request_for_object object (st_epoch t)) = Inr ()"
    using opens v(2) st(2) by (simp add: open_iff verify_with_verifier_def verify_verified_ok)
qed

text \<open>Sealing checks the authority's evidence and the capability, and nothing of the temporal policy.\<close>

lemma seal_ok_iff:
  assumes "aead_accepts C" "length m < 2 ^ 37"
  shows "is_ok (seal_with_verifier C rng os verify_state pk m cap proof tp s req pol) \<longleftrightarrow>
    is_ok (verify_state s tp) \<and> validate_capability C cap proof s req = Inr ()"
  using seal_succeeds [OF _ assms] seal_verified_ok verified_as_state
  by (cases "verify_state s tp") (auto simp: seal_with_verifier_def is_ok_iff, (metis+)?)

end

lemma open_needs_wrapper:
  assumes "is_ok (open_with_verifier C V sk object cap proof s)"
  shows "openable_epoch (o_temporal_policy object) (o_seal_epoch object) (st_epoch s) \<and>
    find_wrapper object (st_epoch s) \<noteq> None"
  using assms by (auto simp: is_ok_iff open_with_verifier_ok)

text \<open>A capability that is accepted at one state is accepted at every state that publishes the same tree.\<close>

lemma validate_at_later_state:
  assumes "validate_capability C cap pf s req = Inr ()" "grants cap req'" "rq_epoch req' = st_epoch t"
    and "st_authority_root t = st_authority_root s" "st_revocation_root t = st_revocation_root s"
      "st_revocation_count t = st_revocation_count s" "st_root_pk t = st_root_pk s" "st_authority_id t = st_authority_id s"
  shows "validate_capability C cap pf t req' = Inr ()"
  using assms capability_stamp_cong [of t s C cap] by (simp add: validate_capability_ok issued_and_included_def)

subsection \<open>Resealing\<close>

lemma reseal_opens_to:
  assumes "crypto_correct C" "keys_match C pk' sk'"
    and "open_and_reseal_verified C rng os sk pk' object cap op vo sp tp vs req pol = Inr object'"
  shows "\<exists>m. opens_to C sk object cap (as_state vo) m \<and> opens_to C sk' object' cap (as_state vs) m"
proof -
  obtain e w m where "select_required_wrapper object (as_state vo) = Inr (e, w)"
      "open_verified C sk object cap op vo w e = Inr m"
      and sealed: "seal_verified C rng os pk' m cap sp tp vs req pol = Inr object'"
    using assms(3) by (auto simp: open_and_reseal_verified_def Let_def bind_r_eq_Inr)
  then have "opens_to C sk object cap (as_state vo) m"
    by (auto simp: opens_to_def open_verified_ok select_required_wrapper_ok)
  with seal_opens_to [OF assms(1,2) sealed] show ?thesis by blast
qed

subsection \<open>Compromise notices\<close>

lemma enforce_compromise_notices_ok [result_simps]:
  "enforce_compromise_notices C s pk ns = Inr u \<longleftrightarrow>
     (\<forall>n \<in> set ns. verify_compromise_notice C (st_root_pk s) n = Inr () \<and>
        (pk = cn_compromised_epoch_pk n \<longrightarrow> st_epoch s < cn_compromised_epoch n))"
  by (induction ns) (auto simp: bind_r_eq_Inr check_epoch_not_compromised_def not_le)

lemma open_with_compromise_check_ok:
  "open_with_compromise_check_and_verifier C V sk object cap proof s notices = Inr m \<longleftrightarrow>
     open_with_verifier C V sk object cap proof s = Inr m \<and>
     (\<exists>w v. find_wrapper object (st_epoch s) = Some w \<and> V s (w_transparency_proof w) = Inr v \<and>
        enforce_compromise_notices C (as_state v)
          (ec_epoch_pk (is_epoch_cert (cp_issuance proof))) notices = Inr ())"
  by (auto simp: open_with_compromise_check_and_verifier_def open_with_compromise_check_verified_def
      open_with_verifier_def bind_r_eq_Inr select_required_wrapper_ok)

subsection \<open>The default verifier without the stub feature\<close>

lemma release_verifier_rejects:
  "default_verifier C False s p = Inl (AuthorityStateErr ''missing authority key/signature evidence for epoch'')"
  by (simp add: default_verifier_def crypto_verify_state_def verifier_new_def registry_find_def
      registry_new_def)

subsection \<open>Delegation\<close>

lemma delegate_capability_ok:
  assumes "delegate_capability C p s subj r a b rng = (Inr c, rng')"
  shows "contains_all (cap_rights p) DELEGATE" "contains_all (cap_rights p) r"
    "cap_rights c = r" "cap_epoch_start p \<le> cap_epoch_start c" "cap_epoch_start c \<le> cap_epoch_end c"
    "cap_epoch_end c \<le> cap_epoch_end p" "cap_object_id c = cap_object_id p"
    "cap_policy_hash c = cap_policy_hash p" "cap_version c = cap_version p" "cap_subject c = subj"
    "cap_parent_stamp c = capability_stamp C p s"
    "unat (cap_delegation_depth c) = Suc (unat (cap_delegation_depth p))"
    "unat (cap_delegation_depth c) \<le> 255"
proof -
  have lt: "cap_delegation_depth p < 255" and c: "cap_delegation_depth c = cap_delegation_depth p + 1"
    using assms by (auto simp: delegate_capability_def MAX_DELEGATION_DEPTH_def Let_def not_le
        split: if_splits prod.splits)
  then show "unat (cap_delegation_depth c) = Suc (unat (cap_delegation_depth p))"
    "unat (cap_delegation_depth c) \<le> 255"
    by (simp_all add: unat_word_ariths word_less_nat_alt)
qed (use assms in \<open>auto simp: delegate_capability_def Let_def not_less split: if_splits prod.splits\<close>)

text \<open>Chains of delegations, each made by whoever holds the previous capability.\<close>

inductive delegated :: "crypto \<Rightarrow> capability \<Rightarrow> nat \<Rightarrow> capability \<Rightarrow> bool" for C where
  delegated_refl: "delegated C c 0 c"
| delegated_step: "delegated C a n p \<Longrightarrow>
    delegate_capability C p s subj r st en rng = (Inr c, rng') \<Longrightarrow> delegated C a (Suc n) c"

inductive_cases delegated_SucE: "delegated C a (Suc n) c"

lemma delegated_attenuates:
  assumes "delegated C a n c"
  shows "contains_all (cap_rights a) (cap_rights c) \<and> cap_epoch_start a \<le> cap_epoch_start c \<and>
    cap_epoch_end c \<le> cap_epoch_end a \<and> cap_object_id c = cap_object_id a \<and>
    cap_policy_hash c = cap_policy_hash a \<and>
    unat (cap_delegation_depth c) = unat (cap_delegation_depth a) + n"
  using assms
proof (induction rule: delegated.induct)
  case (delegated_step a n p s subj r st en rng c rng')
  note d = delegate_capability_ok [OF delegated_step(2)]
  from delegated_step(3) d(2-8,12) show ?case by (auto intro: contains_all_trans order_trans)
qed simp

lemma delegated_chain_short:
  assumes "delegated C a n c"
  shows "n \<le> 255"
  using assms
proof cases
  case (delegated_step n' p s subj r st en rng rng')
  then show ?thesis
    using delegate_capability_ok(13) [OF delegated_step(3)] delegated_attenuates [OF assms] by linarith
qed simp

subsection \<open>Revocation at the engine\<close>

text \<open>
  The forged witness of \<open>Csk2_Capability_Tree\<close> passes validation: whoever holds a capability that
  was issued and is still included can use it after its revocation.
\<close>

lemma forged_witness_validates:
  assumes "issued_and_included C cap proof s" "grants cap req" "rq_epoch req = st_epoch s"
    and "st_revocation_count s \<noteq> 0" "capability_stamp C cap s \<noteq> st_revocation_root s"
  shows "validate_capability C cap
    (proof\<lparr>cp_non_revocation := root_witness (capability_stamp C cap s) (st_revocation_root s)
       (st_revocation_count s)\<rparr>) s req = Inr ()"
  using assms root_witness_accepted [OF assms(4,5), of C]
  by (simp add: validate_capability_ok issued_and_included_def) (simp add: root_witness_def)

text \<open>
  A delegated capability names its parent: it is only made from a parent with the right to
  delegate, carries the parent's stamp, and is not later mistaken for a directly issued one as
  long as that stamp is not all zeros.
\<close>

lemma delegation_names_parent:
  assumes "delegate_capability C p s subj r a b rng = (Inr c, rng')" "capability_stamp C p s \<noteq> zeros 32"
  shows "contains_all (cap_rights p) DELEGATE \<and> cap_parent_stamp c = capability_stamp C p s \<and> parent_stamp_ok c"
  using delegate_capability_ok(1,11,12) [OF assms(1)] assms(2) by (auto simp: parent_stamp_ok_def)

end
