(* ===== verification/Csk2_Lifecycle.thy ===== *)
theory Csk2_Lifecycle
  imports Csk2_Engine
begin

text \<open>
  The authority's side of \<open>src/kyriotes_csk2/engine.rs\<close>: revoking and issuing capabilities, with and
  without a commit to the transparency log, and rotating epochs. Functions with \<open>&mut tree\<close> and
  \<open>&mut log\<close> return both as they leave them, also when they return an error.

  An authority that runs these operations is the step relation \<open>authority_step\<close>; its label says
  whether the operation returned \<open>Ok\<close>.
\<close>

subsection \<open>Revoking\<close>

definition revoke_capability ::
    "crypto \<Rightarrow> authority_capability_tree \<Rightarrow> capability \<Rightarrow> authority_state \<Rightarrow> u64 \<Rightarrow>
     authority_state result \<times> authority_capability_tree" where
  "revoke_capability C tree cap base_state revoke_epoch =
     (if inclusion_proof C tree cap = None
      then (Inl (InvalidCapability ''capability not found in authority tree''), tree)
      else if tree_authority_root C tree \<noteq> st_authority_root base_state
      then (Inl (AuthorityStateErr ''authority root does not match capability tree''), tree)
      else if tree_revocation_root C tree \<noteq> st_revocation_root base_state
      then (Inl (AuthorityStateErr ''revocation root does not match capability tree''), tree)
      else if revoke_epoch \<le> st_epoch base_state
      then (Inl (AuthorityStateErr ''revocation epoch must be greater than base authority epoch''), tree)
      else
        let revoked_state = base_state\<lparr>st_epoch := revoke_epoch, st_transparency_root := zeros 32\<rparr>;
            tree' = tree_revoke_capability C tree cap revoked_state
        in (Inr (revoked_state\<lparr>st_authority_root := tree_authority_root C tree',
                 st_revocation_root := tree_revocation_root C tree',
                 st_revocation_count := tree_revocation_count tree'\<rparr>), tree'))"

definition revoke_capability_and_commit ::
    "crypto \<Rightarrow> 'l log_ops \<Rightarrow> 'l \<Rightarrow> authority_capability_tree \<Rightarrow> capability \<Rightarrow> authority_state \<Rightarrow>
     u64 \<Rightarrow> transparency_state_commit result \<times> 'l \<times> authority_capability_tree" where
  "revoke_capability_and_commit C ops log tree cap base_state revoke_epoch =
     (case revoke_capability C tree cap base_state revoke_epoch of
        (Inl e, tree') \<Rightarrow> (Inl e, log, tree')
      | (Inr revoked_state, tree') \<Rightarrow>
          let (res, log') = lo_commit_state ops log revoked_state in (res, log', tree'))"

text \<open>The async variant, for a log that implements the async trait; \<open>.await\<close> returns the result.\<close>

definition revoke_capability_and_commit_async ::
    "crypto \<Rightarrow> 'l log_ops \<Rightarrow> 'l \<Rightarrow> authority_capability_tree \<Rightarrow> capability \<Rightarrow> authority_state \<Rightarrow>
     u64 \<Rightarrow> transparency_state_commit result \<times> 'l \<times> authority_capability_tree" where
  "revoke_capability_and_commit_async C ops log tree cap base_state revoke_epoch =
     (case revoke_capability C tree cap base_state revoke_epoch of
        (Inl e, tree') \<Rightarrow> (Inl e, log, tree')
      | (Inr revoked_state, tree') \<Rightarrow>
          let (res, log') = lo_commit_state ops log revoked_state in (res, log', tree'))"

subsection \<open>Issuing\<close>

definition issue_capability ::
    "crypto \<Rightarrow> authority_capability_tree \<Rightarrow> capability \<Rightarrow> epoch_signing_key_pair \<Rightarrow> epoch_key_cert \<Rightarrow>
     capability_issuance_proof result \<times> authority_capability_tree" where
  "issue_capability C tree cap epoch_kp epoch_cert =
     (if ec_epoch epoch_cert < cap_epoch_start cap \<or> ec_epoch epoch_cert > cap_epoch_end cap
      then (Inl (InvalidCapability ''epoch cert epoch is outside capability validity range''), tree)
      else
        let tree' = snd (add_capability C tree cap);
            leaf_hash = capability_leaf_hash C cap;
            sig = sign_capability_issuance C epoch_kp leaf_hash (tree_authority_root C tree')
              (ec_epoch epoch_cert)
        in (Inr \<lparr>is_sig = sig, is_epoch_cert = epoch_cert\<rparr>, tree'))"

definition issue_capability_and_commit ::
    "crypto \<Rightarrow> 'l log_ops \<Rightarrow> 'l \<Rightarrow> authority_capability_tree \<Rightarrow> capability \<Rightarrow>
     epoch_signing_key_pair \<Rightarrow> epoch_key_cert \<Rightarrow> authority_state \<Rightarrow>
     (capability_issuance_proof \<times> transparency_state_commit) result \<times> 'l \<times>
     authority_capability_tree" where
  "issue_capability_and_commit C ops log tree cap epoch_kp epoch_cert base_state =
     (if tree_authority_root C tree \<noteq> st_authority_root base_state
      then (Inl (AuthorityStateErr ''authority root does not match capability tree before issuance''),
            log, tree)
      else if tree_revocation_root C tree \<noteq> st_revocation_root base_state
      then (Inl (AuthorityStateErr ''revocation root does not match capability tree before issuance''),
            log, tree)
      else (case issue_capability C tree cap epoch_kp epoch_cert of
          (Inl e, tree') \<Rightarrow> (Inl e, log, tree')
        | (Inr proof, tree') \<Rightarrow>
            let new_state = base_state\<lparr>st_authority_root := tree_authority_root C tree',
                  st_transparency_root := zeros 32\<rparr>;
                (res, log') = lo_commit_state ops log new_state
            in (bind_r res (\<lambda>commit. Inr (proof, commit)), log', tree')))"

subsection \<open>Rotating\<close>

definition rotated_authority_state :: "authority_state \<Rightarrow> u64 \<Rightarrow> bytes \<Rightarrow> authority_state" where
  "rotated_authority_state base_state new_epoch prev_epoch_hash =
     \<lparr>st_authority_root = st_authority_root base_state,
      st_revocation_root = st_revocation_root base_state,
      st_transparency_root = zeros 32, st_epoch = new_epoch,
      st_authority_id = st_authority_id base_state, st_root_pk = st_root_pk base_state,
      st_revocation_count = st_revocation_count base_state,
      st_prev_epoch_hash = prev_epoch_hash\<rparr>"

definition rotate_epoch ::
    "crypto \<Rightarrow> rng \<Rightarrow> authority_root_key_pair \<Rightarrow> authority_state \<Rightarrow> u64 \<Rightarrow> u64 \<Rightarrow> bytes \<Rightarrow>
     epoch_signing_key_pair \<times> epoch_key_cert \<times> authority_state" where
  "rotate_epoch C rng root_kp base_state new_epoch validity_window prev_epoch_hash =
     (let (epoch_kp, rng') = epoch_generate rng;
          epoch_cert = issue_epoch_cert C root_kp (epoch_verifying_key_bytes C epoch_kp) new_epoch
            validity_window;
          new_state = rotated_authority_state base_state new_epoch prev_epoch_hash
      in (epoch_kp, epoch_cert, new_state))"

definition rotate_epoch_and_commit ::
    "crypto \<Rightarrow> 'l log_ops \<Rightarrow> rng \<Rightarrow> 'l \<Rightarrow> authority_root_key_pair \<Rightarrow> authority_state \<Rightarrow> u64 \<Rightarrow>
     u64 \<Rightarrow> bytes \<Rightarrow>
     (epoch_signing_key_pair \<times> epoch_key_cert \<times> transparency_state_commit) result \<times> 'l" where
  "rotate_epoch_and_commit C ops rng log root_kp base_state new_epoch validity_window
      prev_epoch_hash =
     (let (epoch_kp, epoch_cert, new_state) = rotate_epoch C rng root_kp base_state new_epoch
            validity_window prev_epoch_hash
      in case lo_commit_state ops log new_state of
           (Inl e, log') \<Rightarrow> (Inl e, log')
         | (Inr commit, log') \<Rightarrow>
             let sigma_e = sign_epoch_root C epoch_kp (st_authority_root (tc_state commit))
                   (st_revocation_root (tc_state commit)) (st_transparency_root (tc_state commit))
                   new_epoch prev_epoch_hash;
                 chain_hash = transparency_log_entry_hash C prev_epoch_hash
                   (st_authority_root (tc_state commit)) (st_revocation_root (tc_state commit))
                   (st_epoch (tc_state commit)) (epoch_verifying_key_bytes C epoch_kp) sigma_e;
                 commit' = commit\<lparr>tc_chain_hash := chain_hash\<rparr>;
                 log'' = lo_store_chain_hash ops log' (st_authority_id (tc_state commit))
                   (st_epoch (tc_state commit)) chain_hash
             in (Inr (epoch_kp, epoch_cert, commit'), log''))"

record epoch_rotation =
  er_epoch_kp :: epoch_signing_key_pair
  er_epoch_cert :: epoch_key_cert
  er_epoch_pk :: bytes
  er_sigma_e :: bytes
  er_state :: authority_state
  er_transparency_proof :: transparency_proof
  er_chain_hash :: bytes

definition into_verifier :: "epoch_rotation \<Rightarrow> crypto_authority_verifier" where
  "into_verifier rot =
     add_evidence (with_root_pk (st_root_pk (er_state rot))) (st_authority_id (er_state rot))
       (st_epoch (er_state rot)) (er_epoch_pk rot) (er_sigma_e rot) (er_epoch_cert rot)"

definition begin_epoch_rotation_commit ::
    "'l log_ops \<Rightarrow> 'l \<Rightarrow> authority_state \<Rightarrow> transparency_state_commit result \<times> 'l" where
  "begin_epoch_rotation_commit ops log new_state = lo_commit_state ops log new_state"

definition finalize_epoch_rotation_commit ::
    "crypto \<Rightarrow> 'l log_ops \<Rightarrow> 'l \<Rightarrow> epoch_signing_key_pair \<Rightarrow> epoch_key_cert \<Rightarrow> authority_state \<Rightarrow>
     u64 \<Rightarrow> bytes \<Rightarrow> epoch_rotation result \<times> 'l" where
  "finalize_epoch_rotation_commit C ops log epoch_kp epoch_cert new_state new_epoch
      prev_epoch_hash =
     (case begin_epoch_rotation_commit ops log new_state of
        (Inl e, log') \<Rightarrow> (Inl e, log')
      | (Inr commit, log') \<Rightarrow>
          let epoch_pk = epoch_verifying_key_bytes C epoch_kp;
              sigma_e = sign_epoch_root C epoch_kp (st_authority_root (tc_state commit))
                (st_revocation_root (tc_state commit)) (st_transparency_root (tc_state commit))
                new_epoch prev_epoch_hash;
              chain_hash = transparency_log_entry_hash C prev_epoch_hash
                (st_authority_root (tc_state commit)) (st_revocation_root (tc_state commit))
                (st_epoch (tc_state commit)) epoch_pk sigma_e;
              log'' = lo_store_chain_hash ops log' (st_authority_id (tc_state commit))
                (st_epoch (tc_state commit)) chain_hash
          in (Inr \<lparr>er_epoch_kp = epoch_kp, er_epoch_cert = epoch_cert, er_epoch_pk = epoch_pk,
                er_sigma_e = sigma_e, er_state = tc_state commit,
                er_transparency_proof = tc_proof commit, er_chain_hash = chain_hash\<rparr>, log''))"

definition rotate_epoch_full ::
    "crypto \<Rightarrow> 'l log_ops \<Rightarrow> rng \<Rightarrow> 'l \<Rightarrow> authority_root_key_pair \<Rightarrow> authority_state \<Rightarrow> u64 \<Rightarrow>
     u64 \<Rightarrow> bytes \<Rightarrow> epoch_rotation result \<times> 'l" where
  "rotate_epoch_full C ops rng log root_kp base_state new_epoch validity_window prev_epoch_hash =
     (let (epoch_kp, epoch_cert, new_state) = rotate_epoch C rng root_kp base_state new_epoch
            validity_window prev_epoch_hash
      in finalize_epoch_rotation_commit C ops log epoch_kp epoch_cert new_state new_epoch
           prev_epoch_hash)"

subsection \<open>Revocation\<close>

lemma revoke_capability_ok:
  assumes "revoke_capability C tree cap s e = (Inr s', tree')"
  shows "capability_leaf_hash C cap \<in> set (ct_leaf_hashes tree)"
    "tree_authority_root C tree = st_authority_root s" "tree_revocation_root C tree = st_revocation_root s"
    "st_epoch s < e" "st_epoch s' = e" "st_authority_id s' = st_authority_id s"
    "st_root_pk s' = st_root_pk s" "st_prev_epoch_hash s' = st_prev_epoch_hash s"
    "st_transparency_root s' = zeros 32"
    "tree' = revoke_stamp tree (capability_stamp C cap s)"
    "st_authority_root s' = tree_authority_root C tree'"
    "st_revocation_root s' = tree_revocation_root C tree'"
    "st_revocation_count s' = tree_revocation_count tree'"
proof -
  have "capability_stamp C cap (s\<lparr>st_epoch := e, st_transparency_root := zeros 32\<rparr>) = capability_stamp C cap s"
    by (rule capability_stamp_cong) simp
  with assms show "tree' = revoke_stamp tree (capability_stamp C cap s)"
    by (auto simp: revoke_capability_def tree_revoke_capability_def Let_def split: if_splits)
qed (use assms inclusion_absent [of C tree cap] in
    \<open>auto simp: revoke_capability_def Let_def not_le split: if_splits\<close>)

lemma revoke_capability_err: "revoke_capability C tree cap s e = (Inl err, tree') \<Longrightarrow> tree' = tree"
  by (auto simp: revoke_capability_def Let_def split: if_splits)

text \<open>Every tree that later operations make from the revoking one refuses to vouch for the stamp.\<close>

inductive tree_steps :: "crypto \<Rightarrow> authority_capability_tree \<Rightarrow> authority_capability_tree \<Rightarrow> bool" for C where
  tree_refl: "tree_steps C t t"
| tree_add_step: "tree_steps C t u \<Longrightarrow> tree_steps C t (snd (add_capability C u cap))"
| tree_revoke_step: "tree_steps C t u \<Longrightarrow> tree_steps C t (revoke_stamp u stamp)"

lemma tree_steps_mono:
  assumes "tree_steps C t u"
  shows "set (ct_leaf_hashes t) \<subseteq> set (ct_leaf_hashes u) \<and>
    set (ct_revoked_stamps t) \<subseteq> set (ct_revoked_stamps u) \<and> (tree_wf t \<longrightarrow> tree_wf u)"
  using assms
proof (induction rule: tree_steps.induct)
  case (tree_revoke_step t u stamp)
  then show ?case using is_revoked_after [of u stamp] by (auto simp: is_revoked_def tree_wf_revoke)
qed (auto simp: tree_wf_add)

lemma tree_steps_trans: "tree_steps C t u \<Longrightarrow> tree_steps C u v \<Longrightarrow> tree_steps C t v"
  by (rotate_tac, induction rule: tree_steps.induct) (auto intro: tree_steps.intros)

lemma revocation_permanent:
  assumes "tree_wf tree" "revoke_capability C tree cap s e = (Inr s', tree1)" "tree_steps C tree1 tree2"
    and "st_authority_id s2 = st_authority_id s"
  shows "is_revoked tree2 (capability_stamp C cap s2) \<and>
    \<not> is_ok (tree_non_revocation_witness C tree2 (capability_stamp C cap s2))"
proof -
  have t1: "tree1 = revoke_stamp tree (capability_stamp C cap s2)"
    using revoke_capability_ok(10) [OF assms(2)] capability_stamp_cong [OF assms(4)] by simp
  then have "is_revoked tree1 (capability_stamp C cap s2)" "tree_wf tree1"
    using assms(1) by (simp_all add: is_revoked_after tree_wf_revoke)
  with tree_steps_mono [OF assms(3)] witness_refused_iff [of tree2 C "capability_stamp C cap s2"]
  show ?thesis by (auto simp: is_revoked_def)
qed

subsection \<open>Honest proofs\<close>

text \<open>An authority state that publishes the roots and the count of a tree.\<close>

definition publishes :: "crypto \<Rightarrow> authority_state \<Rightarrow> authority_capability_tree \<Rightarrow> bool" where
  "publishes C s tree \<longleftrightarrow> st_authority_root s = tree_authority_root C tree \<and>
     st_revocation_root s = tree_revocation_root C tree \<and>
     st_revocation_count s = tree_revocation_count tree"

definition tree_small :: "authority_capability_tree \<Rightarrow> bool" where
  "tree_small tree \<longleftrightarrow> length (ct_leaf_hashes tree) \<le> 2 ^ 64 \<and> length (ct_revoked_stamps tree) < 2 ^ 64"

lemma issue_capability_ok:
  assumes "issue_capability C tree cap kp cert = (Inr p, tree')"
  shows "tree' = snd (add_capability C tree cap)" "is_epoch_cert p = cert"
    "is_sig p = sign_capability_issuance C kp (capability_leaf_hash C cap) (tree_authority_root C tree')
      (ec_epoch cert)"
    "cap_epoch_start cap \<le> ec_epoch cert" "ec_epoch cert \<le> cap_epoch_end cap"
  using assms by (auto simp: issue_capability_def Let_def split: if_splits)

text \<open>
  The three proofs an authority hands out for a capability it has issued and not revoked are
  accepted together, under the state that publishes the tree they come from.
\<close>

lemma honest_proof_validates:
  assumes "sig_correct C" "tree_wf tree'" "tree_small tree'"
    and issue: "issue_capability C tree cap kp (issue_epoch_cert C rkp (epoch_verifying_key_bytes C kp) e w)
      = (Inr iss, tree')"
    and window: "0 < w" "unat e < 2 ^ 64 - 1"
    and fresh: "\<not> is_revoked tree' (capability_stamp C cap s)"
    and state: "publishes C s tree'" "st_root_pk s = root_verifying_key_bytes C rkp"
    and req: "grants cap req" "rq_epoch req = st_epoch s" "parent_stamp_ok cap"
  shows "\<exists>incl nr. inclusion_proof C tree' cap = Some incl \<and>
    tree_non_revocation_witness C tree' (capability_stamp C cap s) = Inr nr \<and>
    validate_capability C cap \<lparr>cp_inclusion = incl, cp_non_revocation = nr, cp_issuance = iss\<rparr> s req = Inr ()"
proof -
  let ?cert = "issue_epoch_cert C rkp (epoch_verifying_key_bytes C kp) e w"
  note i = issue_capability_ok [OF issue]
  obtain incl where incl: "inclusion_proof C tree' cap = Some incl"
      "verify_capability_inclusion C cap incl (tree_authority_root C tree') = Inr ()"
    using inclusion_complete [of C cap tree'] assms(3) by (auto simp: i(1) tree_small_def)
  obtain nr where nr: "tree_non_revocation_witness C tree' (capability_stamp C cap s) = Inr nr"
      "nw_stamp nr = capability_stamp C cap s"
      "verify_non_revocation C nr (tree_revocation_root C tree') (tree_revocation_count tree') = Inr ()"
    using witness_complete [OF assms(2) fresh, of C] assms(3) by (auto simp: tree_small_def)
  have cert: "ec_epoch ?cert = e" by (simp add: issue_epoch_cert_def)
  have "iss = \<lparr>is_sig = sign_capability_issuance C kp (capability_leaf_hash C cap) (tree_authority_root C tree') e,
      is_epoch_cert = ?cert\<rparr>"
    using i(2,3) cert by (cases iss) simp
  then have "verify_capability_issuance C cap (st_authority_root s) (ec_epoch (is_epoch_cert iss)) iss (st_root_pk s) = Inr ()"
    using issuance_complete [OF assms(1) _ _ window, of cap] i(4,5) cert state
    by (simp add: publishes_def)
  with incl nr state req show ?thesis
    by (auto simp: validate_capability_ok issued_and_included_def publishes_def)
qed

subsection \<open>Rotation\<close>

lemma rotate_epoch_fields:
  assumes "rotate_epoch C rng rkp s e w h = (kp, cert, s')"
  shows "s' = rotated_authority_state s e h"
    "cert = issue_epoch_cert C rkp (epoch_verifying_key_bytes C kp) e w"
  using assms by (auto simp: rotate_epoch_def Let_def split: prod.splits)

lemma rotate_epoch_full_ok:
  assumes "rotate_epoch_full C ops rng log rkp s e w h = (Inr rot, log')"
  shows "\<exists>kp c log1. lo_commit_state ops log (rotated_authority_state s e h) = (Inr c, log1) \<and>
    log' = lo_store_chain_hash ops log1 (st_authority_id (tc_state c)) (st_epoch (tc_state c)) (er_chain_hash rot) \<and>
    er_state rot = tc_state c \<and> er_transparency_proof rot = tc_proof c \<and> er_epoch_kp rot = kp \<and>
    er_epoch_pk rot = epoch_verifying_key_bytes C kp \<and>
    er_epoch_cert rot = issue_epoch_cert C rkp (epoch_verifying_key_bytes C kp) e w \<and>
    er_sigma_e rot = sign_epoch_root C kp (st_authority_root (tc_state c)) (st_revocation_root (tc_state c))
      (st_transparency_root (tc_state c)) e h \<and>
    er_chain_hash rot = transparency_log_entry_hash C h (st_authority_root (tc_state c))
      (st_revocation_root (tc_state c)) (st_epoch (tc_state c)) (er_epoch_pk rot) (er_sigma_e rot)"
proof -
  obtain kp cert s' where r: "rotate_epoch C rng rkp s e w h = (kp, cert, s')" by (metis prod_cases3)
  note f = rotate_epoch_fields [OF r]
  from assms show ?thesis
    unfolding rotate_epoch_full_def r finalize_epoch_rotation_commit_def begin_epoch_rotation_commit_def f
    by (auto simp: Let_def split: prod.splits sum.splits)
qed

lemma into_verifier_evidence:
  "registry_find (cv_evidence_registry (into_verifier rot)) (st_authority_id (er_state rot))
     (st_epoch (er_state rot)) = Some
     \<lparr>ae_authority_id = st_authority_id (er_state rot), ae_epoch = st_epoch (er_state rot),
      ae_epoch_pk = er_epoch_pk rot, ae_epoch_root_sig = er_sigma_e rot,
      ae_epoch_cert = er_epoch_cert rot, ae_tsig = None\<rparr>"
  "cv_root_pk (into_verifier rot) = Some (st_root_pk (er_state rot))"
  by (simp_all add: into_verifier_def add_evidence_def with_root_pk_def registry_find_add)

context transparency_log
begin

text \<open>The verifier a rotation builds accepts the rotated state with the rotation's own proof.\<close>

lemma rotation_verifier_accepts:
  assumes "sig_correct C" "rotate_epoch_full C ops rng log rkp s e w h = (Inr rot, log')"
    and "st_root_pk s = root_verifying_key_bytes C rkp"
    and "0 < w" "unat e < 2 ^ 64 - 1"
    and "small (snd (lo_commit_state ops log (rotated_authority_state s e h)))"
  shows "crypto_verify_state C (into_verifier rot) (er_state rot) (er_transparency_proof rot) =
    Inr (verified_new (er_state rot) \<lparr>av_path = CertChain\<rparr>)"
proof -
  obtain kp c log1 where c: "lo_commit_state ops log (rotated_authority_state s e h) = (Inr c, log1)"
      "er_state rot = tc_state c" "er_transparency_proof rot = tc_proof c"
      "er_epoch_cert rot = issue_epoch_cert C rkp (epoch_verifying_key_bytes C kp) e w"
      "er_sigma_e rot = sign_epoch_root C kp (st_authority_root (tc_state c)) (st_revocation_root (tc_state c))
        (st_transparency_root (tc_state c)) e h"
    using rotate_epoch_full_ok [OF assms(2)] by blast
  have small: "small log1" using assms(6) c(1) by simp
  note f = commit_fields [OF c(1) small]
  have "unat e < min (unat e + unat w) (2 ^ 64 - 1)" using assms(4,5) by (simp add: word_less_nat_alt)
  moreover have "verify_transparency_proof C (er_state rot) (er_transparency_proof rot) = Inr ()"
    using conjunct2 [OF commit_ok [OF c(1) small]] c(2,3) by simp
  ultimately show ?thesis
    using assms(3) c(2,4,5) f
    by (intro chain_verifier_accepts [OF assms(1) _ into_verifier_evidence(1), where kp = kp and
        rkp = rkp and e = e and w = w]) (simp_all add: rotated_authority_state_def into_verifier_evidence(2))
qed

end

subsection \<open>An authority at work\<close>

record 'l authority =
  au_tree :: authority_capability_tree
  au_log :: 'l
  au_state :: authority_state

text \<open>
  One operation of an authority on its tree, its log and its published state. After \<open>Ok\<close> the
  published state is the committed one; after an error the authority keeps publishing the old
  state, with the tree and the log as the operation left them.
\<close>

inductive authority_step ::
    "crypto \<Rightarrow> 'l log_ops \<Rightarrow> bool \<Rightarrow> 'l authority \<Rightarrow> 'l authority \<Rightarrow> bool" for C ops where
  step_issue: "issue_capability_and_commit C ops (au_log A) (au_tree A) cap kp cert (au_state A)
      = (Inr (p, c), log', tree') \<Longrightarrow>
    authority_step C ops True A \<lparr>au_tree = tree', au_log = log', au_state = tc_state c\<rparr>"
| step_issue_err: "issue_capability_and_commit C ops (au_log A) (au_tree A) cap kp cert (au_state A)
      = (Inl e, log', tree') \<Longrightarrow>
    authority_step C ops False A \<lparr>au_tree = tree', au_log = log', au_state = au_state A\<rparr>"
| step_revoke: "revoke_capability_and_commit C ops (au_log A) (au_tree A) cap (au_state A) epoch
      = (Inr c, log', tree') \<Longrightarrow>
    authority_step C ops True A \<lparr>au_tree = tree', au_log = log', au_state = tc_state c\<rparr>"
| step_revoke_err: "revoke_capability_and_commit C ops (au_log A) (au_tree A) cap (au_state A) epoch
      = (Inl e, log', tree') \<Longrightarrow>
    authority_step C ops False A \<lparr>au_tree = tree', au_log = log', au_state = au_state A\<rparr>"
| step_rotate: "rotate_epoch_full C ops rng (au_log A) rkp (au_state A) epoch window prev
      = (Inr rot, log') \<Longrightarrow>
    authority_step C ops True A \<lparr>au_tree = au_tree A, au_log = log', au_state = er_state rot\<rparr>"
| step_rotate_err: "rotate_epoch_full C ops rng (au_log A) rkp (au_state A) epoch window prev
      = (Inl e, log') \<Longrightarrow>
    authority_step C ops False A \<lparr>au_tree = au_tree A, au_log = log', au_state = au_state A\<rparr>"

inductive authority_run ::
    "crypto \<Rightarrow> 'l log_ops \<Rightarrow> bool \<Rightarrow> 'l authority \<Rightarrow> 'l authority \<Rightarrow> bool" for C ops where
  run_refl: "authority_run C ops ok A A"
| run_step: "authority_run C ops ok A B \<Longrightarrow> authority_step C ops r B D \<Longrightarrow> (ok \<longrightarrow> r) \<Longrightarrow>
    authority_run C ops ok A D"

lemma issue_and_commit_cases:
  assumes "issue_capability_and_commit C ops log tree cap kp cert s = (res, log', tree')"
  obtains (early) e where "res = Inl e" "log' = log" "tree' = tree"
  | (late) p r where "issue_capability C tree cap kp cert = (Inr p, tree')"
      "tree_authority_root C tree = st_authority_root s" "tree_revocation_root C tree = st_revocation_root s"
      "lo_commit_state ops log (s\<lparr>st_authority_root := tree_authority_root C tree',
         st_transparency_root := zeros 32\<rparr>) = (r, log')"
      "res = bind_r r (\<lambda>c. Inr (p, c))"
proof (cases "tree_authority_root C tree = st_authority_root s \<and> tree_revocation_root C tree = st_revocation_root s")
  case True
  obtain r1 t1 where i: "issue_capability C tree cap kp cert = (r1, t1)" by fastforce
  show thesis
  proof (cases r1)
    case (Inl e)
    then have "t1 = tree" using i by (auto simp: issue_capability_def Let_def split: if_splits)
    with Inl True assms i show thesis by (intro early [of e]) (auto simp: issue_capability_and_commit_def)
  next
    case (Inr p)
    obtain r l where c: "lo_commit_state ops log (s\<lparr>st_authority_root := tree_authority_root C t1,
        st_transparency_root := zeros 32\<rparr>) = (r, l)" by fastforce
    with Inr True assms i show thesis
      by (intro late [of p r]) (auto simp: issue_capability_and_commit_def Let_def)
  qed
next
  case False
  with assms show thesis
    by (cases "tree_authority_root C tree = st_authority_root s")
      (auto simp: issue_capability_and_commit_def intro!: early)
qed

lemma revoke_and_commit_cases:
  assumes "revoke_capability_and_commit C ops log tree cap s e = (res, log', tree')"
  obtains (early) err where "res = Inl err" "log' = log" "tree' = tree"
  | (late) s' where "revoke_capability C tree cap s e = (Inr s', tree')"
      "lo_commit_state ops log s' = (res, log')"
proof (cases "revoke_capability C tree cap s e")
  case (Pair r t)
  then show thesis
  proof (cases r)
    case (Inl err)
    with assms Pair revoke_capability_err [of C tree cap s e err t] show thesis
      by (intro early [of err]) (auto simp: revoke_capability_and_commit_def)
  next
    case (Inr s')
    with assms Pair show thesis
      by (intro late [of s']) (auto simp: revoke_capability_and_commit_def split: prod.splits)
  qed
qed

text \<open>Whatever the outcomes, an authority's tree only grows and its log only takes log steps.\<close>

lemma log_commit_step: "lo_commit_state ops log s = (r, log') \<Longrightarrow> log_steps ops log log'"
  using log_commit [OF log_refl, of ops log s] by simp

lemma log_steps_trans: "log_steps ops a b \<Longrightarrow> log_steps ops b c \<Longrightarrow> log_steps ops a c"
  by (rotate_tac, induction rule: log_steps.induct) (auto intro: log_steps.intros)

lemma issue_and_commit_grows:
  assumes "issue_capability_and_commit C ops log tree cap kp cert s = (res, log', tree')"
  shows "tree_steps C tree tree' \<and> log_steps ops log log'"
  using assms
  by (rule issue_and_commit_cases)
    (auto dest: issue_capability_ok(1) log_commit_step intro: tree_steps.intros log_refl)

lemma revoke_and_commit_grows:
  assumes "revoke_capability_and_commit C ops log tree cap s e = (res, log', tree')"
  shows "tree_steps C tree tree' \<and> log_steps ops log log'"
  using assms
  by (rule revoke_and_commit_cases)
    (auto dest: revoke_capability_ok(10) log_commit_step intro: tree_steps.intros log_refl)

lemma rotate_epoch_full_log:
  assumes "rotate_epoch_full C ops rng log rkp s e w h = (res, log')"
  shows "log_steps ops log log'"
proof (cases res)
  case (Inl err)
  then have "log' = snd (lo_commit_state ops log (rotated_authority_state s e h))"
    using assms by (auto simp: rotate_epoch_full_def finalize_epoch_rotation_commit_def rotate_epoch_def
        begin_epoch_rotation_commit_def Let_def split: prod.splits sum.splits)
  then show ?thesis using log_commit [OF log_refl] by simp
next
  case (Inr rot)
  then show ?thesis using rotate_epoch_full_ok [of C ops rng log rkp s e w h rot log'] assms
    by (auto intro: log_store log_commit_step)
qed

lemma authority_step_grows:
  assumes "authority_step C ops r A B"
  shows "tree_steps C (au_tree A) (au_tree B) \<and> log_steps ops (au_log A) (au_log B)"
  using assms
  by cases (auto dest: issue_and_commit_grows revoke_and_commit_grows rotate_epoch_full_log
      intro: tree_refl)

lemma authority_run_grows:
  "authority_run C ops ok A B \<Longrightarrow>
   tree_steps C (au_tree A) (au_tree B) \<and> log_steps ops (au_log A) (au_log B)"
  by (induction rule: authority_run.induct)
    (auto intro: tree_refl log_refl tree_steps_trans log_steps_trans dest: authority_step_grows)

context transparency_log
begin

text \<open>An operation that returns \<open>Ok\<close> keeps the published state in step with the tree.\<close>

lemma ok_step_publishes:
  assumes "authority_step C ops True A B" "publishes C (au_state A) (au_tree A)" "small (au_log B)"
  shows "publishes C (au_state B) (au_tree B)"
  using assms(1)
proof cases
  case (step_issue cap kp cert p c log' tree')
  from step_issue(2) show ?thesis
  proof (cases rule: issue_and_commit_cases)
    case (late p' r)
    then have "lo_commit_state ops (au_log A) ((au_state A)\<lparr>st_authority_root := tree_authority_root C tree',
        st_transparency_root := zeros 32\<rparr>) = (Inr c, log')" by (cases r) auto
    from commit_fields [OF this] assms(2,3) step_issue(1) issue_capability_ok(1) [OF late(1)] show ?thesis
      by (simp add: publishes_def tree_revocation_root_def tree_revocation_count_def)
  qed simp
next
  case (step_revoke cap epoch c log' tree')
  from step_revoke(2) show ?thesis
  proof (cases rule: revoke_and_commit_cases)
    case (late s')
    from commit_fields [OF late(2)] revoke_capability_ok [OF late(1)] assms(3) step_revoke(1) show ?thesis
      by (simp add: publishes_def)
  qed simp
next
  case (step_rotate rng rkp epoch window prev rot log')
  obtain c log1 where c: "lo_commit_state ops (au_log A) (rotated_authority_state (au_state A) epoch prev)
        = (Inr c, log1)" "log' = lo_store_chain_hash ops log1 (st_authority_id (tc_state c))
        (st_epoch (tc_state c)) (er_chain_hash rot)" "er_state rot = tc_state c"
    using rotate_epoch_full_ok [OF step_rotate(2)] by blast
  have "small log1" using assms(3) step_rotate(1) c(2) small_store by simp
  from commit_fields [OF c(1) this] c(3) assms(2) step_rotate(1) show ?thesis
    by (simp add: publishes_def rotated_authority_state_def)
qed simp_all

lemma ok_run_publishes:
  "authority_run C ops ok A B \<Longrightarrow> ok \<Longrightarrow> publishes C (au_state A) (au_tree A) \<Longrightarrow> small (au_log B) \<Longrightarrow>
   publishes C (au_state B) (au_tree B)"
proof (induction rule: authority_run.induct)
  case (run_step ok A B r D)
  have "small (au_log B)"
    using small_steps authority_step_grows [OF run_step(2)] run_step.prems(3) by blast
  with run_step show ?case by (auto intro: ok_step_publishes)
qed simp

end

subsection \<open>From issuing to opening\<close>

definition epoch_verifier ::
    "crypto \<Rightarrow> authority_state \<Rightarrow> epoch_signing_key_pair \<Rightarrow> epoch_key_cert \<Rightarrow> crypto_authority_verifier" where
  "epoch_verifier C s kp cert = add_evidence (with_root_pk (st_root_pk s)) (st_authority_id s) (st_epoch s)
     (epoch_verifying_key_bytes C kp)
     (sign_epoch_root C kp (st_authority_root s) (st_revocation_root s) (st_transparency_root s)
        (st_epoch s) (st_prev_epoch_hash s)) cert"

lemma epoch_verifier_accepts:
  assumes "sig_correct C" "verify_transparency_proof C s p = Inr ()"
    and "st_root_pk s = root_verifying_key_bytes C rkp" "0 < w" "unat (st_epoch s) < 2 ^ 64 - 1"
  shows "crypto_verify_state C (epoch_verifier C s kp
      (issue_epoch_cert C rkp (epoch_verifying_key_bytes C kp) (st_epoch s) w)) s p =
    Inr (verified_new s \<lparr>av_path = CertChain\<rparr>)"
  using assms(3-5)
  by (intro chain_verifier_accepts [OF assms(1,2), where rkp = rkp and kp = kp and e = "st_epoch s" and w = w])
    (auto simp: epoch_verifier_def add_evidence_def with_root_pk_def registry_find_add word_less_nat_alt)

context transparency_log
begin

text \<open>
  The whole path: an authority issues a capability and commits the new state, the epoch key signs
  it, and with the proofs the authority hands out every message seals and opens again.
\<close>

lemma issue_seal_open:
  assumes crypto: "crypto_correct C" "sig_correct C" "aead_accepts C"
    and issue: "issue_capability_and_commit C ops log tree cap kp
      (issue_epoch_cert C rkp (epoch_verifying_key_bytes C kp) (st_epoch s) w) s = (Inr (iss, c), log', tree')"
    and tree: "tree_wf tree" "tree_small tree'" "small log'" "st_revocation_count s = tree_revocation_count tree"
    and state: "st_root_pk s = root_verifying_key_bytes C rkp" "0 < w" "unat (st_epoch s) < 2 ^ 64 - 1"
    and cap: "\<not> is_revoked tree (capability_stamp C cap s)" "parent_stamp_ok cap" "grants cap req"
      "rq_epoch req = st_epoch s"
    and msg: "keys_match C pk sk" "openable_epoch pol (st_epoch s) (st_epoch s)" "length m < 2 ^ 37"
  defines "V \<equiv> crypto_verify_state C (epoch_verifier C (tc_state c) kp
    (issue_epoch_cert C rkp (epoch_verifying_key_bytes C kp) (st_epoch s) w))"
  shows "\<exists>incl nr object. inclusion_proof C tree' cap = Some incl \<and>
    tree_non_revocation_witness C tree' (capability_stamp C cap s) = Inr nr \<and>
    seal_with_verifier C rng os V pk m cap
      \<lparr>cp_inclusion = incl, cp_non_revocation = nr, cp_issuance = iss\<rparr> (tc_proof c) (tc_state c) req pol = Inr object \<and>
    open_with_verifier C V sk object cap
      \<lparr>cp_inclusion = incl, cp_non_revocation = nr, cp_issuance = iss\<rparr> (tc_state c) = Inr m"
  using issue
proof (cases rule: issue_and_commit_cases)
  case (late p r)
  then have r: "p = iss" "r = Inr c" by (cases r; auto)+
  let ?cert = "issue_epoch_cert C rkp (epoch_verifying_key_bytes C kp) (st_epoch s) w" and ?t = "tc_state c"
  note commit = late(4) [unfolded r(2)]
  note f = commit_fields [OF commit tree(3)]
  have t: "tree' = snd (add_capability C tree cap)" using issue_capability_ok(1) [OF late(1)] .
  have pub: "publishes C ?t tree'"
    using f tree(4) late(3) by (simp add: publishes_def t tree_revocation_root_def tree_revocation_count_def)
  have stamp: "capability_stamp C cap ?t = capability_stamp C cap s"
    using f by (intro capability_stamp_cong) simp
  obtain incl nr where proofs: "inclusion_proof C tree' cap = Some incl"
      "tree_non_revocation_witness C tree' (capability_stamp C cap ?t) = Inr nr"
      "validate_capability C cap \<lparr>cp_inclusion = incl, cp_non_revocation = nr, cp_issuance = iss\<rparr> ?t req = Inr ()"
    using honest_proof_validates [OF crypto(2) _ tree(2) late(1) state(2,3) _ pub _ cap(3) _ cap(2)]
      tree_wf_add [OF tree(1), of C cap] cap(1,4) f state(1) r(1)
    by (auto simp: t stamp is_revoked_def)
  have V: "V ?t (tc_proof c) = Inr (verified_new ?t \<lparr>av_path = CertChain\<rparr>)"
    unfolding V_def using epoch_verifier_accepts [OF crypto(2), of ?t "tc_proof c" rkp w kp] f state
      conjunct2 [OF commit_ok [OF commit tree(3)]] by simp
  obtain object where object: "seal_with_verifier C rng os V pk m cap
      \<lparr>cp_inclusion = incl, cp_non_revocation = nr, cp_issuance = iss\<rparr> (tc_proof c) ?t req pol = Inr object"
    using seal_succeeds [OF _ crypto(3) msg(3), of cap _ "verified_new ?t \<lparr>av_path = CertChain\<rparr>"] V proofs(3)
    by (force simp: seal_with_verifier_def as_state_def verified_new_def)
  moreover have "open_with_verifier C V sk object cap
      \<lparr>cp_inclusion = incl, cp_non_revocation = nr, cp_issuance = iss\<rparr> ?t = Inr m"
    using crypto_verifier.seal_open_roundtrip [OF crypto(1) msg(1)] object msg(2) f unfolding V_def by simp
  ultimately show ?thesis using proofs stamp by metis
qed simp

end

subsection \<open>Issuing at an epoch that is already in the log\<close>

text \<open>
  The log holds one state per authority and epoch, and issuing keeps the epoch of its base state.
  From a base state that is in the log, issuing a new capability is therefore refused by the log;
  the tree has been changed by then, so no later operation on the base state gets past the root
  comparison either.
\<close>

lemma issue_conflict:
  assumes "log_view log (st_authority_id s, st_epoch s) = Some (transparency_leaf_hash C s)"
    and "publishes C s tree"
    and "cap_epoch_start cap \<le> ec_epoch cert" "ec_epoch cert \<le> cap_epoch_end cap"
    and "transparency_leaf_hash C (s\<lparr>st_authority_root :=
      tree_authority_root C (snd (add_capability C tree cap))\<rparr>) \<noteq> transparency_leaf_hash C s"
  shows "issue_capability_and_commit C (in_memory_ops C) log tree cap kp cert s =
    (Inl (AuthorityStateErr ''transparency log already contains different state for authority/epoch''),
     log, snd (add_capability C tree cap))"
proof -
  let ?t = "snd (add_capability C tree cap)"
  let ?s = "s\<lparr>st_authority_root := tree_authority_root C ?t, st_transparency_root := zeros 32\<rparr>"
  have "transparency_leaf_hash C ?s = transparency_leaf_hash C (s\<lparr>st_authority_root := tree_authority_root C ?t\<rparr>)"
    by (simp add: transparency_leaf_hash_def transparency_transcript_def)
  then have "commit_state C log ?s = (Inl (AuthorityStateErr ''transparency log already contains different state for authority/epoch''), log)"
    using assms(1,5) by (cases rule: commit_state_cases [of log ?s C]) auto
  with assms(2-4) show ?thesis
    by (simp add: issue_capability_and_commit_def issue_capability_def publishes_def in_memory_ops_def
        Let_def not_less)
qed

lemma diverged_tree_stuck:
  assumes "tree_authority_root C tree \<noteq> st_authority_root s"
  shows "\<not> is_ok (fst (issue_capability_and_commit C ops log tree cap kp cert s))"
    "\<not> is_ok (fst (revoke_capability_and_commit C ops log tree cap s e))"
  using assms
  by (auto simp: issue_capability_and_commit_def revoke_capability_and_commit_def revoke_capability_def)

text \<open>Rotating carries the roots of the state over, not those of the tree.\<close>

lemma rotated_stays_diverged:
  assumes "tree_authority_root C tree \<noteq> st_authority_root s"
    and "rotate_epoch_full C (in_memory_ops C) rng log rkp s e w h = (Inr rot, log')"
  shows "tree_authority_root C tree \<noteq> st_authority_root (er_state rot)"
proof -
  obtain c log1 where "commit_state C log (rotated_authority_state s e h) = (Inr c, log1)" "er_state rot = tc_state c"
    using rotate_epoch_full_ok [OF assms(2)] by (auto simp: in_memory_ops_def)
  then show ?thesis using assms(1)
    by (cases rule: commit_state_cases [of log "rotated_authority_state s e h" C]) (auto simp: rotated_authority_state_def)
qed


subsection \<open>Progress\<close>

text \<open>
  At an epoch that is not in the log yet, the log takes every state; an authority whose published
  state is in step with its tree can therefore always rotate, issue and revoke at a later fresh
  epoch, and there is one as long as the log is shorter than the epochs that remain.
\<close>

lemma commit_fresh:
  assumes "log_view log (st_authority_id s, st_epoch s) = None"
  obtains c log' where "commit_state C log s = (Inr c, log')"
  using assms by (cases rule: commit_state_cases [of log s C]) auto

lemma rotate_fresh:
  assumes "log_view log (st_authority_id s, e) = None"
  shows "is_ok (fst (rotate_epoch_full C (in_memory_ops C) rng log rkp s e w h))"
proof -
  obtain kp cert s' where r: "rotate_epoch C rng rkp s e w h = (kp, cert, s')" by (metis prod_cases3)
  have s': "s' = rotated_authority_state s e h" using rotate_epoch_fields [OF r] by simp
  obtain c log' where "commit_state C log s' = (Inr c, log')"
    using commit_fresh [of log s' C] assms by (auto simp: s' rotated_authority_state_def)
  then show ?thesis
    by (simp add: rotate_epoch_full_def r finalize_epoch_rotation_commit_def begin_epoch_rotation_commit_def
        in_memory_ops_def Let_def)
qed

lemma issue_fresh:
  assumes "publishes C s tree" "log_view log (st_authority_id s, e) = None"
    and "rotate_epoch C rng rkp s e w h = (kp, cert, s')"
    and "cap_epoch_start cap \<le> e" "e \<le> cap_epoch_end cap"
  shows "is_ok (fst (issue_capability_and_commit C (in_memory_ops C) log tree cap kp cert s'))"
proof -
  note f = rotate_epoch_fields [OF assms(3)]
  let ?t = "snd (add_capability C tree cap)"
  let ?s = "s'\<lparr>st_authority_root := tree_authority_root C ?t, st_transparency_root := zeros 32\<rparr>"
  obtain c log' where c: "commit_state C log ?s = (Inr c, log')"
    using commit_fresh [of log ?s C] assms(2) by (auto simp: f rotated_authority_state_def)
  have "ec_epoch cert = e" by (simp add: f issue_epoch_cert_def)
  with assms(1,4,5) c show ?thesis
    by (simp add: issue_capability_and_commit_def issue_capability_def publishes_def in_memory_ops_def
        f(1) rotated_authority_state_def Let_def not_less)
qed

lemma revoke_fresh:
  assumes "publishes C s tree" "log_view log (st_authority_id s, e) = None" "st_epoch s < e"
    and "capability_leaf_hash C cap \<in> set (ct_leaf_hashes tree)"
  shows "is_ok (fst (revoke_capability_and_commit C (in_memory_ops C) log tree cap s e))"
proof -
  have incl: "inclusion_proof C tree cap \<noteq> None" using assms(4) inclusion_absent by blast
  obtain s' tree' where r: "revoke_capability C tree cap s e = (Inr s', tree')"
    using incl assms(1,3) by (simp add: revoke_capability_def publishes_def Let_def not_le)
  obtain c log' where "commit_state C log s' = (Inr c, log')"
    using commit_fresh [of log s' C] revoke_capability_ok(5,6) [OF r] assms(2) by auto
  then show ?thesis by (simp add: revoke_capability_and_commit_def r in_memory_ops_def)
qed

lemma fresh_epoch_exists:
  fixes now :: u64
  assumes "unat now + length (lg_entries log) < 2 ^ 64 - 1"
  shows "\<exists>e > now. log_view log (a, e) = None"
proof (rule ccontr)
  assume none: "\<not> (\<exists>e > now. log_view log (a, e) = None)"
  let ?later = "{unat now <..< 2 ^ 64}" and ?used = "(\<lambda>x. unat (te_epoch x)) ` set (lg_entries log)"
  have "?later \<subseteq> ?used"
  proof
    fix n
    assume n: "n \<in> ?later"
    let ?e = "word_of_nat n :: u64"
    have e: "unat ?e = n" using n by (simp add: unat_of_nat)
    then have "now < ?e" using n by (simp add: word_less_nat_alt)
    then have "log_view log (a, ?e) \<noteq> None" using none by metis
    then have "(a, ?e) \<in> (\<lambda>x. (te_authority_id x, te_epoch x)) ` set (lg_entries log)"
      unfolding log_view_def by (simp add: map_of_eq_None_iff image_image)
    then show "n \<in> ?used" using e by force
  qed
  then have "card ?later \<le> length (lg_entries log)"
    by (meson card_image_le card_length card_mono finite_imageI finite_set order_trans)
  moreover have "card ?later = 2 ^ 64 - Suc (unat now)" by simp
  ultimately show False using assms by linarith
qed

text \<open>
  Every capability in the tree has an inclusion proof that verifies against the tree's root,
  and adding or revoking other capabilities later never takes that away.
\<close>

lemma issued_capability_stays_included:
  assumes "tree_steps C (snd (add_capability C tree cap)) tree'" "length (ct_leaf_hashes tree') \<le> 2 ^ 64"
  shows "\<exists>p. inclusion_proof C tree' cap = Some p \<and>
    verify_capability_inclusion C cap p (tree_authority_root C tree') = Inr ()"
  using tree_steps_mono [OF assms(1)] by (intro inclusion_complete [OF _ assms(2)]) auto

text \<open>
  The chain hash of a rotation is stored: after \<open>rotate_epoch_full\<close> the log returns exactly the
  rotation's chain hash for the authority and the new epoch, and that hash covers the previous
  chain hash, the roots, the epoch, the epoch key and its signature.
\<close>

lemma rotation_extends_chain:
  assumes "rotate_epoch_full C (in_memory_ops C) rng log rkp s e w h = (Inr rot, log')"
  shows "chain_hash_for log' (st_authority_id s) e = Some (er_chain_hash rot) \<and>
    er_chain_hash rot = transparency_log_entry_hash C h (st_authority_root s) (st_revocation_root s) e
      (er_epoch_pk rot) (er_sigma_e rot)"
proof -
  let ?s = "rotated_authority_state s e h"
  obtain c log1 where c: "commit_state C log ?s = (Inr c, log1)"
      "log' = store_chain_hash log1 (st_authority_id (tc_state c)) (st_epoch (tc_state c)) (er_chain_hash rot)"
      "er_chain_hash rot = transparency_log_entry_hash C h (st_authority_root (tc_state c))
        (st_revocation_root (tc_state c)) (st_epoch (tc_state c)) (er_epoch_pk rot) (er_sigma_e rot)"
    using rotate_epoch_full_ok [OF assms] by (auto simp: in_memory_ops_def)
  then obtain i where "find_index log1 (st_authority_id ?s) (st_epoch ?s) = Some i"
      "tc_state c = bind_transparency_root_to_state ?s (current_root C log1)"
    by (cases rule: commit_state_cases [of log ?s C]) auto
  with c(2,3) show ?thesis by (simp add: chain_hash_after_store rotated_authority_state_def)
qed

end
