(* ===== verification/Csk2_Transport.thy ===== *)
theory Csk2_Transport
  imports Csk2_Wire Csk2_Lifecycle
begin

text \<open>
  Where the engine meets the wire format. Rust's array types fix the lengths of digests, nonces and
  keys; in the model these are byte lists, so the first part shows that every object the engine makes
  and every state an authority publishes has the lengths those types promise. The second part
  carries a sealed object through encoding and decoding, for the limits under which it survives,
  and shows the one profile under which a hybrid object never does.
\<close>

subsection \<open>Sizes of the primitives\<close>

text \<open>
  The documented sizes: X25519 public keys have 32 bytes, a ChaCha20-Poly1305 ciphertext is 16 bytes
  longer than its message, an ML-KEM-768 ciphertext has 1088 bytes.
\<close>

definition crypto_sizes :: "crypto \<Rightarrow> bool" where
  "crypto_sizes C \<longleftrightarrow> sha_32 C \<and> (\<forall>sk. length sk = 32 \<longrightarrow> length (x_public C sk) = 32) \<and>
     (\<forall>k n a m c. aead_encrypt C k n a m = Some c \<longrightarrow> length c = length m + 16) \<and>
     (\<forall>ek r. length ek = ML_KEM_768_EK_BYTES \<longrightarrow> mlkem_ek_ok C ek \<longrightarrow>
        length (fst (mlkem_encapsulate C ek r)) = ML_KEM_768_CT_BYTES)"

lemma crypto_sizesD:
  assumes "crypto_sizes C"
  shows "sha_32 C" "length sk = 32 \<Longrightarrow> length (x_public C sk) = 32"
    "aead_encrypt C k n a m = Some c \<Longrightarrow> length c = length m + 16"
    "length ek = ML_KEM_768_EK_BYTES \<Longrightarrow> mlkem_ek_ok C ek \<Longrightarrow>
      length (fst (mlkem_encapsulate C ek r)) = ML_KEM_768_CT_BYTES"
  using assms by (simp_all add: crypto_sizes_def)

text \<open>Whether a public key gets a post-quantum part.\<close>

definition hybrid_key :: "crypto \<Rightarrow> recipient_public_key \<Rightarrow> bool" where
  "hybrid_key C pk \<longleftrightarrow> (case pk_pq pk of None \<Rightarrow> False
     | Some ek \<Rightarrow> length ek = ML_KEM_768_EK_BYTES \<and> mlkem_ek_ok C ek)"

lemma kem_encaps_sizes:
  assumes "crypto_sizes C" "kem_encaps C pk rng os = ((ct, ss, ct_pq, ss_pq), rng', os')"
  shows "length ct = 32" "length ct_pq = (if hybrid_key C pk then 1088 else 0)"
proof -
  have "ct = x_public C (fst (fill_bytes 32 rng))"
    using assms(2) by (auto simp: kem_encaps_def Let_def split: prod.splits)
  then show "length ct = 32" by (simp add: crypto_sizesD(2) [OF assms(1)])
  show "length ct_pq = (if hybrid_key C pk then 1088 else 0)"
  proof (cases "pk_pq pk")
    case (Some ek)
    then show ?thesis
      using assms(2) crypto_sizesD(4) [OF assms(1), of ek "fst (fill_bytes 32 os)"]
      by (auto simp: kem_encaps_def hybrid_key_def ML_KEM_768_CT_BYTES_def Let_def split: prod.splits if_splits)
  qed (use assms(2) in \<open>auto simp: kem_encaps_def hybrid_key_def Let_def split: prod.splits\<close>)
qed

subsection \<open>Well-typed objects\<close>

definition wf_proof :: "transparency_proof \<Rightarrow> bool" where
  "wf_proof p \<longleftrightarrow> length (tp_leaf_hash p) = 32 \<and> (\<forall>h \<in> set (tp_sibling_hashes p). length h = 32)"

definition wf_wrapper :: "authority_wrapper \<Rightarrow> bool" where
  "wf_wrapper w \<longleftrightarrow> length (w_kem_ct_classical w) = 32 \<and> length (w_kem_ct_pq w) \<in> {0, 1088} \<and>
     length (w_wrap_nonce w) = 12 \<and> length (w_wrapped_dek w) = 48 \<and> length (w_context_hash w) = 32 \<and>
     length (w_capability_stamp w) = 32 \<and> wf_proof (w_transparency_proof w)"

definition wf_object :: "csk2_object \<Rightarrow> bool" where
  "wf_object object \<longleftrightarrow> length (o_policy_hash object) = 32 \<and> length (o_authority_root object) = 32 \<and>
     length (o_revocation_root object) = 32 \<and> length (o_payload_nonce object) = 12 \<and>
     (\<forall>w \<in> set (o_wrappers object). wf_wrapper w)"

lemmas wf_object_defs = wf_proof_def wf_wrapper_def wf_object_def

lemma seal_verified_object:
  assumes "crypto_sizes C" "seal_verified C rng os pk m cap proof tp v req pol = Inr object"
  shows "o_suite object = SUITE" "o_object_id object = rq_object_id req"
    "o_policy_hash object = rq_policy_hash req" "o_authority_root object = st_authority_root (as_state v)"
    "o_revocation_root object = st_revocation_root (as_state v)" "length (o_payload_nonce object) = 12"
    "length (o_payload_ciphertext object) = length m + 16"
    "\<exists>w. o_wrappers object = [w] \<and> length (w_kem_ct_classical w) = 32 \<and>
       length (w_kem_ct_pq w) = (if hybrid_key C pk then 1088 else 0) \<and>
       length (w_wrap_nonce w) = 12 \<and> length (w_wrapped_dek w) = 48 \<and> length (w_context_hash w) = 32 \<and>
       length (w_capability_stamp w) = 32 \<and> w_transparency_proof w = tp"
proof -
  obtain pn rng1 where 1: "fill_bytes 12 rng = (pn, rng1)" by fastforce
  obtain wn rng2 where 2: "fill_bytes 12 rng1 = (wn, rng2)" by fastforce
  obtain dek rng3 where 3: "fill_bytes 32 rng2 = (dek, rng3)" by fastforce
  obtain ct ss ct_pq ss_pq rng4 os' where 4: "kem_encaps C pk rng3 os = ((ct, ss, ct_pq, ss_pq), rng4, os')"
    by (metis prod_cases4 surj_pair)
  have len: "length pn = 12" "length wn = 12" "length dek = 32"
    using length_fill_bytes [of 12 rng] length_fill_bytes [of 12 rng1] length_fill_bytes [of 32 rng2] 1 2 3
    by simp_all
  note aead = crypto_sizesD(3) [OF assms(1)] and hash = hash_lengths [OF crypto_sizesD(1) [OF assms(1)]]
  note sizes = kem_encaps_sizes [OF assms(1) 4]
  note unfold = seal_verified_def 1 2 3 4 Let_def bind_r_eq_Inr payload_encrypt_def wrap_dek_def ok_or_eq_Inr
  from assms(2) show "o_suite object = SUITE" "o_object_id object = rq_object_id req"
    "o_policy_hash object = rq_policy_hash req" "o_authority_root object = st_authority_root (as_state v)"
    "o_revocation_root object = st_revocation_root (as_state v)" "length (o_payload_nonce object) = 12"
    "length (o_payload_ciphertext object) = length m + 16"
    using len by (auto simp: unfold dest: aead)
  from assms(2) show "\<exists>w. o_wrappers object = [w] \<and> length (w_kem_ct_classical w) = 32 \<and>
       length (w_kem_ct_pq w) = (if hybrid_key C pk then 1088 else 0) \<and>
       length (w_wrap_nonce w) = 12 \<and> length (w_wrapped_dek w) = 48 \<and> length (w_context_hash w) = 32 \<and>
       length (w_capability_stamp w) = 32 \<and> w_transparency_proof w = tp"
    using len sizes by (auto simp: unfold hash dest: aead)
qed

lemma sealed_wf:
  assumes "crypto_sizes C" "seal_verified C rng os pk m cap proof tp v req pol = Inr object"
    and "wf_state (as_state v)" "wf_proof tp" "length (rq_policy_hash req) = 32"
  shows "wf_object object"
  using seal_verified_object [OF assms(1,2)] assms(3-5)
  by (auto simp: wf_object_defs wf_state_def split: if_splits)

lemma rewrapped_wf:
  assumes "crypto_sizes C" "rewrapped C rng os sk pk object cap proof vf vt tp = Inr w" "wf_proof tp"
  shows "wf_wrapper w"
proof -
  obtain wn rng1 where 1: "fill_bytes 12 rng = (wn, rng1)" by fastforce
  obtain ct ss ct_pq ss_pq rng2 os' where 2: "kem_encaps C pk rng1 os = ((ct, ss, ct_pq, ss_pq), rng2, os')"
    by (metis prod_cases4 surj_pair)
  have "length wn = 12" using length_fill_bytes [of 12 rng] 1 by simp
  note len = this kem_encaps_sizes [OF assms(1) 2] hash_lengths [OF crypto_sizesD(1) [OF assms(1)]]
  from assms(2,3) len show ?thesis
    by (auto simp: rewrapped_def 1 2 Let_def bind_r_eq_Inr wrap_dek_def ok_or_eq_Inr unwrap_dek_for_epoch_ok
        wf_wrapper_def dest!: crypto_sizesD(3) [OF assms(1)] split: if_splits)
qed

lemma set_replace_first:
  "replace_first P v xs = Some ys \<Longrightarrow> set ys \<subseteq> insert v (set xs)"
  by (induction xs arbitrary: ys) (auto split: if_splits)

lemma put_epoch_wrapper_wf: "wf_object object \<Longrightarrow> wf_wrapper w \<Longrightarrow> wf_object (put_epoch_wrapper object w)"
  using set_replace_first [of "\<lambda>x. w_epoch x = w_epoch w" w "o_wrappers object"]
  by (auto simp: put_epoch_wrapper_def wf_object_def split: option.splits)

lemma rewrap_wf:
  assumes "crypto_sizes C" "wf_object object" "wf_proof tp"
    and "add_epoch_wrapper_verified C rng os sk pk object cap proof vf vt tp = (r, object')"
  shows "wf_object object'"
  using assms rewrapped_wf [OF assms(1) _ assms(3)] put_epoch_wrapper_wf
  by (auto simp: add_epoch_wrapper_verified_def split: sum.splits)

lemma reseal_wf:
  assumes "crypto_sizes C"
    and "open_and_reseal_verified C rng os sk pk object cap op vo sp tp vs req pol = Inr object'"
    and "wf_state (as_state vs)" "wf_proof tp" "length (rq_policy_hash req) = 32"
  shows "wf_object object'"
  using assms sealed_wf [OF assms(1) _ assms(3-5)]
  by (auto simp: open_and_reseal_verified_def Let_def bind_r_eq_Inr)

subsection \<open>Well-typed states\<close>

text \<open>The digests in a log and in a tree have 32 bytes, and so have the roots computed from them.\<close>

definition log_typed :: "in_memory_log \<Rightarrow> bool" where
  "log_typed log \<longleftrightarrow> (\<forall>h \<in> set (leaf_hashes log). length h = 32)"

definition tree_typed :: "authority_capability_tree \<Rightarrow> bool" where
  "tree_typed tree \<longleftrightarrow> (\<forall>h \<in> set (ct_leaf_hashes tree) \<union> set (ct_revoked_stamps tree). length h = 32)"

lemma merkle_levels_32:
  "sha_32 C \<Longrightarrow> \<forall>h \<in> set level. length h = 32 \<Longrightarrow> level \<noteq> [] \<Longrightarrow> length (merkle_levels C level) = 32"
proof (induction C level rule: merkle_levels.induct)
  case (1 C level)
  show ?case
  proof (cases "length level > 1")
    case True
    then have "pair_up C level \<noteq> []" by (auto simp: length_pair_up simp flip: length_0_conv)
    with 1(1) [OF True 1(2)] pair_up_length [OF 1(2), of _ level] show ?thesis
      by (simp add: root_step [OF True] merkle_next_eq)
  next
    case False
    then have "merkle_levels C level \<in> set level" using 1(4) by (simp add: merkle_levels.simps)
    with 1(3) show ?thesis by blast
  qed
qed

lemma merkle_root_32:
  "sha_32 C \<Longrightarrow> \<forall>h \<in> set leaves. length h = 32 \<Longrightarrow> length (merkle_root C leaves) = 32"
  by (simp add: merkle_root_def merkle_levels_32)

lemma log_typed_steps:
  assumes "log_steps (in_memory_ops C) log log'" "log_typed log" "sha_32 C"
  shows "log_typed log'"
  using assms
proof (induction rule: log_steps.induct)
  case (log_commit log log1 s)
  then show ?case
    by (cases rule: commit_state_cases [of log1 s C])
      (auto simp: in_memory_ops_def log_typed_def leaf_hashes_def hash_lengths split: if_splits)
qed (simp_all add: in_memory_ops_def log_typed_def store_chain_hash_keeps)

lemma commit_typed:
  assumes "commit_state C log s = (Inr c, log')" "log_typed log" "sha_32 C" "log_small log'"
  shows "wf_proof (tc_proof c)" "length (tp_sibling_hashes (tc_proof c)) \<le> 64"
    "length (st_transparency_root (tc_state c)) = 32" "log_typed log'"
proof -
  have "log_steps (in_memory_ops C) log log'"
    using log_commit [OF log_refl, of "in_memory_ops C" log s] assms(1) by (simp add: in_memory_ops_def)
  then show typed: "log_typed log'" using log_typed_steps assms(2,3) by blast
  obtain i where i: "find_index log' (st_authority_id s) (st_epoch s) = Some i"
      "tc_state c = bind_transparency_root_to_state s (current_root C log')"
      "proof_for_index C log' i = Inr (tc_proof c)"
    using assms(1) by (cases rule: commit_state_cases [of log s C]) auto
  note less = find_index_less [OF i(1)]
  have p: "tp_leaf_hash (tc_proof c) = leaf_hashes log' ! i"
      "tp_sibling_hashes (tc_proof c) = merkle_proof_for_index C (leaf_hashes log') i"
    using i(3) proof_for_index_ok [OF less, of C] leaf_hashes_nth [OF less]
    by (simp_all flip: Inr_inject) (metis transparency_proof.select_convs(1,2) sum.inject(2))+
  have len: "length (leaf_hashes log') \<le> 2 ^ 64" "i < length (leaf_hashes log')"
    using assms(4) less by (simp_all add: log_small_def leaf_hashes_def)
  show "wf_proof (tc_proof c)"
    using p merkle_proof_32 [OF assms(3) _ len(1)] typed len(2) by (auto simp: wf_proof_def log_typed_def)
  show "length (tp_sibling_hashes (tc_proof c)) \<le> 64"
    using length_merkle_proof [OF len(2,1), of C] merkle_depth_le [OF len(1)] p(2) by simp
  show "length (st_transparency_root (tc_state c)) = 32"
    using merkle_root_32 [OF assms(3)] typed i(2) by (simp add: current_root_def log_typed_def)
qed

lemma tree_typed_add: "tree_typed tree \<Longrightarrow> sha_32 C \<Longrightarrow> tree_typed (snd (add_capability C tree cap))"
  by (auto simp: tree_typed_def add_capability_def hash_lengths Let_def)

lemma tree_typed_revoke: "tree_typed tree \<Longrightarrow> length stamp = 32 \<Longrightarrow> tree_typed (revoke_stamp tree stamp)"
  by (auto simp: tree_typed_def revoke_stamp_def Let_def)

lemma tree_roots_32:
  assumes "tree_typed tree" "sha_32 C"
  shows "length (tree_authority_root C tree) = 32" "length (tree_revocation_root C tree) = 32"
  using assms by (auto simp: tree_authority_root_def tree_revocation_root_def tree_typed_def intro!: merkle_root_32)

definition authority_typed :: "in_memory_log authority \<Rightarrow> bool" where
  "authority_typed A \<longleftrightarrow> tree_typed (au_tree A) \<and> log_typed (au_log A) \<and> wf_state (au_state A)"

text \<open>A committed state is well-formed when the state handed to the log is, up to its log root.\<close>

lemma commit_wf:
  assumes "commit_state C log s = (Inr c, log')" "log_typed log" "sha_32 C" "log_small log'"
    and "wf_state (s\<lparr>st_transparency_root := zeros 32\<rparr>)"
  shows "wf_state (tc_state c) \<and> log_typed log'"
  using commit_typed [OF assms(1-4)] assms(5) in_memory.commit_fields [of C log s c log'] assms(1,4)
  by (simp add: wf_state_def in_memory_ops_def)

lemma commit_err_typed:
  "commit_state C log s = (Inl e, log') \<Longrightarrow> log_typed log \<Longrightarrow> log_typed log'"
  using in_memory.commit_err [of C log s e log'] by (simp add: in_memory_ops_def)

lemma issue_and_commit_typed:
  assumes "issue_capability_and_commit C (in_memory_ops C) log tree cap kp cert s = (res, log', tree')"
    and "sha_32 C" "tree_typed tree" "log_typed log" "wf_state s" "log_small log'"
  shows "tree_typed tree' \<and> log_typed log' \<and> (\<forall>p c. res = Inr (p, c) \<longrightarrow> wf_state (tc_state c))"
  using assms(1)
proof (cases rule: issue_and_commit_cases)
  case (late p r)
  have t: "tree_typed tree'" using issue_capability_ok(1) [OF late(1)] tree_typed_add assms(2,3) by simp
  show ?thesis
  proof (cases r)
    case (Inr c)
    with commit_wf [of C log _ c log'] late assms(2,4-6) tree_roots_32 [OF t assms(2)] t show ?thesis
      by (simp add: in_memory_ops_def wf_state_def)
  qed (use late t commit_err_typed [of C log] assms(4) in \<open>simp add: in_memory_ops_def\<close>)
qed (use assms in auto)

lemma revoke_and_commit_typed:
  assumes "revoke_capability_and_commit C (in_memory_ops C) log tree cap s e = (res, log', tree')"
    and "sha_32 C" "tree_typed tree" "log_typed log" "wf_state s" "log_small log'"
  shows "tree_typed tree' \<and> log_typed log' \<and> (\<forall>c. res = Inr c \<longrightarrow> wf_state (tc_state c))"
  using assms(1)
proof (cases rule: revoke_and_commit_cases)
  case (late s')
  note ok = revoke_capability_ok [OF late(1)]
  have t: "tree_typed tree'" using ok(10) tree_typed_revoke assms(2,3) by (simp add: hash_lengths)
  show ?thesis
  proof (cases res)
    case (Inr c)
    with commit_wf [of C log s' c log'] late(2) assms(2,4-6) tree_roots_32 [OF t assms(2)] t ok show ?thesis
      by (simp add: in_memory_ops_def wf_state_def)
  qed (use late t commit_err_typed [of C log] assms(4) in \<open>simp add: in_memory_ops_def\<close>)
qed (use assms in auto)

lemma authority_step_typed:
  assumes "authority_step C (in_memory_ops C) r A B" "authority_typed A" "sha_32 C" "log_small (au_log B)"
    and "length (st_prev_epoch_hash (au_state B)) = 32"
  shows "authority_typed B"
  using assms(1)
proof cases
  case (step_rotate rng rkp epoch window prev rot log')
  obtain c log1 where c: "commit_state C (au_log A) (rotated_authority_state (au_state A) epoch prev)
        = (Inr c, log1)" "log' = store_chain_hash log1 (st_authority_id (tc_state c))
        (st_epoch (tc_state c)) (er_chain_hash rot)" "er_state rot = tc_state c"
    using rotate_epoch_full_ok [OF step_rotate(3)] by (auto simp: in_memory_ops_def)
  have "log_small log1" using assms(4) step_rotate(2) c(2) by (simp add: log_small_def store_chain_hash_keeps)
  moreover have "length prev = 32"
    using in_memory.commit_fields(7) [of C "au_log A" _ c log1] c \<open>log_small log1\<close> assms(5) step_rotate(2)
    by (simp add: in_memory_ops_def rotated_authority_state_def)
  ultimately show ?thesis
    using commit_wf [OF c(1)] assms(2,3) step_rotate(2) c(2,3)
    by (simp add: authority_typed_def wf_state_def rotated_authority_state_def log_typed_def store_chain_hash_keeps)
next
  case (step_rotate_err rng rkp epoch window prev e log')
  then have "log_steps (in_memory_ops C) (au_log A) log'" by (auto dest: rotate_epoch_full_log)
  then show ?thesis using log_typed_steps assms(2,3) step_rotate_err(2) by (auto simp: authority_typed_def)
qed (use assms(2-4) issue_and_commit_typed [of C] revoke_and_commit_typed [of C] in
    \<open>fastforce simp: authority_typed_def\<close>)+

subsection \<open>Sealed objects on the wire\<close>

lemma suite_wire: "length SUITE = 46" "utf8_valid SUITE"
proof -
  show "length SUITE = 46" by (simp add: SUITE_def ascii_def)
  show "utf8_valid SUITE" by (rule utf8_valid_ascii) (simp add: SUITE_def ascii_def)
qed

text \<open>
  Which limits a freshly sealed object meets. The post-quantum ciphertext, when there is one, is
  measured against the limit for the wrapped data key.
\<close>

definition limits_admit :: "decode_limits \<Rightarrow> bool \<Rightarrow> bytes \<Rightarrow> bytes \<Rightarrow> transparency_proof \<Rightarrow> bool" where
  "limits_admit l hybrid object_id m tp \<longleftrightarrow> 46 \<le> dl_max_suite_len l \<and>
     length object_id \<le> dl_max_object_id_len l \<and>
     length m + 16 \<le> dl_max_payload_ciphertext_len l \<and> 1 \<le> dl_max_wrappers l \<and>
     (if hybrid then 1088 else 48) \<le> dl_max_wrapped_dek_len l \<and>
     length (tp_sibling_hashes tp) \<le> dl_max_transparency_siblings l"

lemma sealed_fits_iff:
  assumes "crypto_sizes C" "seal_verified C rng os pk m cap proof tp v req pol = Inr object"
    and "wf_state (as_state v)" "wf_proof tp" "length (rq_policy_hash req) = 32" "wf_str (rq_object_id req)"
    and "length m + 16 < 2 ^ 32" "length (tp_sibling_hashes tp) < 2 ^ 32"
  shows "object_fits l object \<longleftrightarrow> limits_admit l (hybrid_key C pk) (rq_object_id req) m tp"
proof -
  note o = seal_verified_object [OF assms(1,2)]
  obtain w where w: "o_wrappers object = [w]" "length (w_kem_ct_classical w) = 32"
      "length (w_kem_ct_pq w) = (if hybrid_key C pk then 1088 else 0)" "length (w_wrap_nonce w) = 12"
      "length (w_wrapped_dek w) = 48" "length (w_context_hash w) = 32"
      "length (w_capability_stamp w) = 32" "w_transparency_proof w = tp"
    using o(8) by blast
  have "wrapper_fits l w \<longleftrightarrow> (if hybrid_key C pk then 1088 else 48) \<le> dl_max_wrapped_dek_len l \<and>
      length (tp_sibling_hashes tp) \<le> dl_max_transparency_siblings l"
    using w assms(4,8) by (auto simp: wrapper_fits_def wire_bytes_def proof_fits_def wf_proof_def)
  with o(1-7) w(1) assms(3,5-7) suite_wire show ?thesis
    by (auto simp: object_fits_def limits_admit_def wire_bytes_def wf_state_def wf_str_def)
qed

text \<open>The default limits admit every object sealed against the in-memory log, up to 8 MiB of payload.\<close>

lemma strict_admits:
  assumes "length object_id \<le> 1024" "length m \<le> 8 * 1024 * 1024 - 16" "length (tp_sibling_hashes tp) \<le> 64"
  shows "limits_admit strict_default hybrid object_id m tp"
  using assms by (auto simp: limits_admit_def strict_default_def)

lemma embedded_refuses_hybrid: "\<not> limits_admit embedded_profile True object_id m tp"
  by (simp add: limits_admit_def embedded_profile_def)

lemma seal_and_commit_ok:
  assumes "seal_and_commit C (in_memory_ops C) rng os log V pk m cap proof s req pol = (Inr (object, c), log')"
  shows "commit_state C log s = (Inr c, log')"
    "seal_with_verifier C rng os V pk m cap proof (tc_proof c) (tc_state c) req pol = Inr object"
  using assms
  by (auto simp: seal_and_commit_def in_memory_ops_def bind_r_eq_Inr split: prod.splits)

context authority_verifier
begin

lemma sealed_object_wf:
  assumes "crypto_sizes C" "wf_state s" "wf_proof tp" "length (rq_policy_hash req) = 32"
    and "seal_with_verifier C rng os verify_state pk m cap proof tp s req pol = Inr object"
  shows "wf_object object"
  using assms(5) sealed_wf [OF assms(1) _ _ assms(3,4)] assms(2) verified_as_state
  by (auto simp: seal_with_verifier_def bind_r_eq_Inr)

lemma rewrapped_object_wf:
  assumes "crypto_sizes C" "wf_proof tp" "wf_object object"
  shows "wf_object (snd (add_epoch_wrapper_with_verifier C rng os verify_state sk pk object cap proof s t tp))"
  using rewrap_wf [OF assms(1,3,2)] assms(3)
  by (auto simp: add_epoch_wrapper_with_verifier_def split: sum.splits) (metis prod.collapse)

text \<open>
  A sealed object that was committed, encoded and decoded under limits that admit it is the object
  itself, and opens.
\<close>

lemma committed_seal_object:
  assumes "crypto_sizes C" "log_steps (in_memory_ops C) log_new log" "log_small log'"
    and "seal_and_commit C (in_memory_ops C) rng os log verify_state pk m cap proof s req pol
      = (Inr (object, c), log')"
    and "wf_state s" "length (rq_policy_hash req) = 32" "wf_str (rq_object_id req)"
    and "length m + 16 < 2 ^ 32"
  shows "object_fits l object \<longleftrightarrow> limits_admit l (hybrid_key C pk) (rq_object_id req) m (tc_proof c)"
    "length (tp_sibling_hashes (tc_proof c)) \<le> 64" "wf_object object"
proof -
  note sc = seal_and_commit_ok [OF assms(4)]
  have sha: "sha_32 C" using crypto_sizesD(1) [OF assms(1)] .
  have typed: "log_typed log"
    using log_typed_steps [OF assms(2) _ sha] by (simp add: log_typed_def log_new_def leaf_hashes_def)
  note ct = commit_typed [OF sc(1) typed sha assms(3)]
  have "wf_state (s\<lparr>st_transparency_root := zeros 32\<rparr>)" using assms(5) by (simp add: wf_state_def)
  then have wf: "wf_state (tc_state c)" using commit_wf [OF sc(1) typed sha assms(3)] by blast
  obtain v where v: "verify_state (tc_state c) (tc_proof c) = Inr v"
      "seal_verified C rng os pk m cap proof (tc_proof c) v req pol = Inr object"
    using sc(2) by (auto simp: seal_with_verifier_def bind_r_eq_Inr)
  have "wf_state (as_state v)" using verified_as_state [OF v(1)] wf by simp
  with sealed_fits_iff [OF assms(1) v(2) _ ct(1) assms(6,7,8)] sealed_wf [OF assms(1) v(2) _ ct(1) assms(6)] ct(2)
  show "object_fits l object \<longleftrightarrow> limits_admit l (hybrid_key C pk) (rq_object_id req) m (tc_proof c)"
    "length (tp_sibling_hashes (tc_proof c)) \<le> 64" "wf_object object"
    by simp_all
qed

lemma committed_seal_fits:
  assumes "crypto_sizes C" "log_steps (in_memory_ops C) log_new log" "log_small log'"
    and "seal_and_commit C (in_memory_ops C) rng os log verify_state pk m cap proof s req pol
      = (Inr (object, c), log')"
    and "wf_state s" "length (rq_policy_hash req) = 32" "wf_str (rq_object_id req)"
    and "length m + 16 < 2 ^ 32"
  shows "\<exists>l. object_fits l object"
proof -
  let ?l = "strict_default\<lparr>dl_max_object_id_len := length (rq_object_id req),
    dl_max_payload_ciphertext_len := length m + 16\<rparr>"
  have "limits_admit ?l (hybrid_key C pk) (rq_object_id req) m (tc_proof c)"
    using committed_seal_object(2) [OF assms] by (simp add: limits_admit_def strict_default_def)
  then show ?thesis using committed_seal_object(1) [OF assms] by blast
qed

lemma seal_transport_open:
  assumes "crypto_correct C" "crypto_sizes C" "keys_match C pk sk"
    and "log_steps (in_memory_ops C) log_new log" "log_small log'"
    and "seal_and_commit C (in_memory_ops C) rng os log verify_state pk m cap proof s req pol
      = (Inr (object, c), log')"
    and "wf_state s" "length (rq_policy_hash req) = 32" "wf_str (rq_object_id req)"
    and "length (rq_object_id req) \<le> 1024" "length m \<le> 8 * 1024 * 1024 - 16"
    and "openable_epoch pol (st_epoch s) (st_epoch s)"
  shows "\<exists>bs. encode_kyriotes_csk2_object object = Some bs \<and>
    decode_kyriotes_csk2_object bs = Inr object \<and>
    open_with_verifier C verify_state sk object cap proof (tc_state c) = Inr m"
proof -
  have "length m + 16 < 2 ^ 32" using assms(11) by simp
  note o = committed_seal_object [OF assms(2,4-9) this]
  note sc = seal_and_commit_ok [OF assms(6)]
  have fits: "object_fits default_limits object"
    using o(1) strict_admits [OF assms(10,11) o(2)] by (simp add: default_limits_def)
  then obtain bs where bs: "encode_kyriotes_csk2_object object = Some bs" using encode_object_fits by blast
  then have "decode_kyriotes_csk2_object bs = Inr object"
    using fits by (simp add: decode_kyriotes_csk2_object_def decode_object_iff)
  moreover have "st_epoch (tc_state c) = st_epoch s"
    using in_memory.commit_fields(3) [of C log s c log'] sc(1) assms(5) by (simp add: in_memory_ops_def)
  with assms(12) have "open_with_verifier C verify_state sk object cap proof (tc_state c) = Inr m"
    by (intro seal_open_roundtrip [OF assms(1,3) sc(2)]) simp
  ultimately show ?thesis using bs by blast
qed

end

end
