(* ===== verification/Csk2_Sample.thy ===== *)
theory Csk2_Sample
  imports Csk2_Transport
begin

text \<open>
  A concrete instance of the primitives, for the theorems that apply a property at an actual input.
  None of it is secure, but every operation really computes: digests depend on the message, a
  signature is checked against the key and the message, a ciphertext carries a tag over key,
  nonce, associated data and message. The instance satisfies every hypothesis the development
  makes about the primitives.
\<close>

definition sample_sha :: "bytes \<Rightarrow> bytes" where
  "sample_sha m = take 32 (rev m @ zeros 32)"

definition pad :: "nat \<Rightarrow> bytes \<Rightarrow> bytes" where
  "pad n b = take n (b @ zeros n)"

definition sample_sig :: "bytes \<Rightarrow> bytes \<Rightarrow> bytes" where
  "sample_sig pk m = sample_sha (pk @ m) @ zeros 32"

definition sample_crypto :: crypto where
  "sample_crypto = \<lparr>sha256 = sample_sha,
     ed_verifying_key = pad 32,
     ed_sign = (\<lambda>sk m. sample_sig (pad 32 sk) m),
     ed_key_ok = (\<lambda>pk. length pk = 32),
     ed_verify_strict = (\<lambda>pk m s. s = sample_sig pk m),
     x_public = id,
     x_diffie_hellman = map2 (\<lambda>a b. a XOR b),
     mlkem_ek = pad 1184,
     mlkem_ek_ok = (\<lambda>ek. length ek = 1184),
     mlkem_encapsulate = (\<lambda>ek r. (pad 1088 r, sample_sha (ek @ pad 1088 r))),
     mlkem_decapsulate = (\<lambda>seed ct. sample_sha (pad 1184 seed @ ct)),
     hkdf_sha256 = (\<lambda>salt ikm info n. pad n (sample_sha (salt @ ikm @ info))),
     aead_encrypt = (\<lambda>k n a m. Some (take 16 (sample_sha (k @ n @ a @ m)) @ m)),
     aead_decrypt = (\<lambda>k n a c.
       if take 16 c = take 16 (sample_sha (k @ n @ a @ drop 16 c)) then Some (drop 16 c) else None)\<rparr>"

lemma replicate_32: "replicate 32 x = x # replicate 31 x"
  by (simp flip: replicate_Suc)

lemma length_sample_sha [simp]: "length (sample_sha m) = 32"
  by (simp add: sample_sha_def)

lemma length_pad [simp]: "length (pad n b) = n"
  by (simp add: pad_def)

lemma map2_xor_commute: "map2 (\<lambda>a b. a XOR b) xs ys = map2 (\<lambda>a b. a XOR b) ys (xs :: bytes)"
  by (induction xs ys rule: list_induct2') (simp_all add: xor.commute)

lemma sample_sha_32: "sha_32 sample_crypto"
  by (simp add: sha_32_def sample_crypto_def)

lemma sample_sig_correct: "sig_correct sample_crypto"
  by (simp add: sig_correct_def sample_crypto_def)

lemma sample_dh_correct: "dh_correct sample_crypto"
  using map2_xor_commute by (simp add: dh_correct_def sample_crypto_def)

lemma sample_mlkem_correct: "mlkem_correct sample_crypto"
  by (simp add: mlkem_correct_def sample_crypto_def)

lemma sample_aead: "aead_correct sample_crypto" "aead_accepts sample_crypto"
  by (simp_all add: aead_correct_def aead_accepts_def sample_crypto_def)

lemma sample_crypto_correct: "crypto_correct sample_crypto"
  by (simp add: crypto_correct_def sample_dh_correct sample_mlkem_correct sample_aead)

lemma sample_sizes: "crypto_sizes sample_crypto"
  using sample_sha_32 by (auto simp: crypto_sizes_def sample_crypto_def ML_KEM_768_CT_BYTES_def)

text \<open>The same instance with a digest that starts with a fixed byte and shows the front of the message.\<close>

definition tagged_crypto :: crypto where
  "tagged_crypto = sample_crypto\<lparr>sha256 := \<lambda>m. 7 # take 31 (m @ zeros 31)\<rparr>"

lemma tagged_crypto_facts:
  "sha_32 tagged_crypto" "crypto_correct tagged_crypto" "sig_correct tagged_crypto"
proof -
  show "sha_32 tagged_crypto" unfolding sha_32_def tagged_crypto_def by (auto simp: min_def simp flip: length_0_conv)
qed (use sample_crypto_correct sample_sig_correct in \<open>simp_all add: tagged_crypto_def crypto_correct_def dh_correct_def
    mlkem_correct_def aead_correct_def sig_correct_def\<close>)

text \<open>The instance with signatures that show the key and the whole message.\<close>

definition signing_crypto :: crypto where
  "signing_crypto = sample_crypto\<lparr>ed_sign := (\<lambda>sk m. pad 32 sk @ m), ed_verify_strict := (\<lambda>pk m s. s = pk @ m)\<rparr>"

lemma signing_crypto_simps [simp]:
  "ed_verifying_key signing_crypto sk = pad 32 sk" "ed_sign signing_crypto sk m = pad 32 sk @ m"
  "ed_key_ok signing_crypto pk \<longleftrightarrow> length pk = 32" "ed_verify_strict signing_crypto pk m sig \<longleftrightarrow> sig = pk @ m"
  by (simp_all add: signing_crypto_def sample_crypto_def)

lemma signing_crypto_facts:
  "sha_32 signing_crypto" "crypto_correct signing_crypto" "sig_correct signing_crypto" "aead_accepts signing_crypto"
  using sample_sha_32 sample_crypto_correct sample_aead(2)
  by (simp_all add: signing_crypto_def crypto_correct_def dh_correct_def mlkem_correct_def aead_correct_def sig_correct_def
      aead_accepts_def sha_32_def) (simp_all add: sample_crypto_def)

subsection \<open>A small authority\<close>

definition sample_root :: authority_root_key_pair where
  "sample_root = root_from_seed (replicate 32 7)"

definition sample_epoch_kp :: epoch_signing_key_pair where
  "sample_epoch_kp = epoch_from_seed (replicate 32 9)"

definition sample_rng :: rng where
  "sample_rng i = word_of_nat (i mod 251 + 1)"

definition sample_keys :: recipient_key_pair where
  "sample_keys = fst (recipient_generate sample_crypto sample_rng)"

definition sample_cap :: capability where
  "sample_cap = \<lparr>cap_version = 1, cap_subject = ascii ''alice'', cap_object_id = ascii ''doc'',
     cap_rights = rights_union READ DELEGATE, cap_policy_hash = replicate 32 5, cap_epoch_start = 1,
     cap_epoch_end = 10, cap_delegation_depth = 0, cap_parent_stamp = zeros 32,
     cap_nonce = replicate 16 3\<rparr>"

definition sample_req :: open_request where
  "sample_req = \<lparr>rq_object_id = ascii ''doc'', rq_required_rights = READ,
     rq_policy_hash = replicate 32 5, rq_epoch = 4\<rparr>"

definition sample_state :: authority_state where
  "sample_state = \<lparr>st_authority_root = zeros 32, st_revocation_root = zeros 32,
     st_transparency_root = zeros 32, st_epoch = 4, st_authority_id = ascii ''auth'',
     st_root_pk = root_verifying_key_bytes sample_crypto sample_root, st_revocation_count = 0,
     st_prev_epoch_hash = zeros 32\<rparr>"

definition sample_cert :: epoch_key_cert where
  "sample_cert = issue_epoch_cert sample_crypto sample_root
     (epoch_verifying_key_bytes sample_crypto sample_epoch_kp) 4 2"

definition sample_issued ::
    "(capability_issuance_proof \<times> transparency_state_commit) result \<times> in_memory_log \<times>
     authority_capability_tree" where
  "sample_issued = issue_capability_and_commit sample_crypto (in_memory_ops sample_crypto) log_new tree_new
     sample_cap sample_epoch_kp sample_cert sample_state"

lemma sample_issue:
  obtains iss c log' tree' where "sample_issued = (Inr (iss, c), log', tree')"
    "log_small log'" "tree_small tree'" "tree' = snd (add_capability sample_crypto tree_new sample_cap)"
proof -
  let ?C = sample_crypto and ?t = "snd (add_capability sample_crypto tree_new sample_cap)"
  let ?s = "sample_state\<lparr>st_authority_root := tree_authority_root ?C ?t, st_transparency_root := zeros 32\<rparr>"
  have roots: "tree_authority_root ?C tree_new = st_authority_root sample_state"
      "tree_revocation_root ?C tree_new = st_revocation_root sample_state"
    by (simp_all add: tree_authority_root_def tree_revocation_root_def tree_new_def merkle_root_def
        sample_state_def)
  obtain p where p: "issue_capability ?C tree_new sample_cap sample_epoch_kp sample_cert = (Inr p, ?t)"
    by (simp add: issue_capability_def sample_cert_def issue_epoch_cert_def sample_cap_def Let_def)
  have view: "log_view log_new k = None" "lg_entries log_new = []" for k
    by (simp_all add: log_view_def log_new_def)
  obtain c log' where c: "commit_state ?C log_new ?s = (Inr c, log')" "length (lg_entries log') = 1"
    by (cases rule: commit_state_cases [of log_new ?s ?C]) (auto simp: view)
  have "sample_issued = (Inr (p, c), log', ?t)"
    using roots p c by (simp add: sample_issued_def issue_capability_and_commit_def in_memory_ops_def)
  moreover have "tree_small ?t" by (simp add: tree_small_def add_capability_def tree_new_def Let_def)
  ultimately show thesis using c(2) by (intro that) (auto simp: log_small_def)
qed

lemma sample_facts:
  "parent_stamp_ok sample_cap" "grants sample_cap sample_req" "rq_epoch sample_req = st_epoch sample_state"
  "keys_match sample_crypto (kp_public sample_keys) (kp_secret sample_keys)"
  "st_root_pk sample_state = root_verifying_key_bytes sample_crypto sample_root"
  "st_epoch sample_state = 4" "st_revocation_count sample_state = tree_revocation_count tree_new"
  "\<not> is_revoked tree_new stamp" "tree_wf tree_new"
proof -
  show "keys_match sample_crypto (kp_public sample_keys) (kp_secret sample_keys)"
    unfolding sample_keys_def by (rule generated_keys_match)
  show "parent_stamp_ok sample_cap" by (simp add: parent_stamp_ok_def sample_cap_def)
  have "contains_all (rights_union READ DELEGATE) READ"
    by (auto simp: contains_all_subset right_set_union)
  then show "grants sample_cap sample_req" by (simp add: grants_def sample_cap_def sample_req_def)
qed (simp_all add: sample_req_def sample_state_def tree_revocation_count_def tree_new_def is_revoked_def
    tree_wf_def)

lemma sample_hybrid: "hybrid_key sample_crypto (kp_public sample_keys)"
  by (simp add: hybrid_key_def sample_keys_def recipient_generate_def fill_bytes_def ML_KEM_768_EK_BYTES_def
      sample_crypto_def Let_def split: prod.splits)

text \<open>The sample authority, its published state and what a holder of the capability presents.\<close>

definition sample_commit :: transparency_state_commit where
  "sample_commit = (case fst sample_issued of Inr (iss, c) \<Rightarrow> c)"

definition sample_tree :: authority_capability_tree where
  "sample_tree = snd (snd sample_issued)"

definition sample_verifier :: crypto_authority_verifier where
  "sample_verifier = epoch_verifier sample_crypto (tc_state sample_commit) sample_epoch_kp sample_cert"

lemma sample_issuance: "sample_issued = (Inr (iss, c), log', tree') \<Longrightarrow> is_epoch_cert iss = sample_cert"
  unfolding sample_issued_def
  by (erule issue_and_commit_cases) (auto simp: bind_r_eq_Inr eq_commute [of "Inr (iss, c)"] dest: issue_capability_ok(2))

lemma sample_seal_open_issued:
  assumes "length m < 2 ^ 37"
  obtains pf object where
    "seal_with_verifier sample_crypto sample_rng sample_rng (crypto_verify_state sample_crypto sample_verifier)
       (kp_public sample_keys) m sample_cap pf (tc_proof sample_commit) (tc_state sample_commit) sample_req Current
       = Inr object"
    "open_with_verifier sample_crypto (crypto_verify_state sample_crypto sample_verifier)
       (kp_secret sample_keys) object sample_cap pf (tc_state sample_commit) = Inr m"
    "is_epoch_cert (cp_issuance pf) = sample_cert"
proof -
  obtain iss c log' tree' where i: "sample_issued = (Inr (iss, c), log', tree')" "log_small log'"
      "tree_small tree'" "tree' = snd (add_capability sample_crypto tree_new sample_cap)"
    by (rule sample_issue)
  have c: "sample_commit = c" by (simp add: sample_commit_def i(1))
  note e2e = in_memory.issue_seal_open [OF sample_crypto_correct sample_sig_correct sample_aead(2) _ sample_facts(9)
      i(3,2) sample_facts(7,5) _ _ sample_facts(8,1,2,3,4), where m = m and pol = Current and rng = sample_rng and os = sample_rng and
      kp = sample_epoch_kp and log = log_new and w = 2 and iss = iss and c = c]
  show thesis
    using that e2e assms i(1) sample_issuance [OF i(1)] unfolding sample_issued_def sample_cert_def sample_verifier_def c
    by (fastforce simp: sample_facts(6) openable_epoch_simps)
qed

lemma sample_seal_open:
  assumes "length m < 2 ^ 37"
  obtains pf object where
    "seal_with_verifier sample_crypto sample_rng sample_rng (crypto_verify_state sample_crypto sample_verifier)
       (kp_public sample_keys) m sample_cap pf (tc_proof sample_commit) (tc_state sample_commit) sample_req Current
       = Inr object"
    "open_with_verifier sample_crypto (crypto_verify_state sample_crypto sample_verifier)
       (kp_secret sample_keys) object sample_cap pf (tc_state sample_commit) = Inr m"
  using sample_seal_open_issued [OF assms] that by blast

lemma sample_verifies:
  obtains pf object w where
    "seal_with_verifier sample_crypto sample_rng sample_rng (crypto_verify_state sample_crypto sample_verifier)
       (kp_public sample_keys) [1, 2, 3] sample_cap pf (tc_proof sample_commit) (tc_state sample_commit) sample_req Current
       = Inr object"
    "find_wrapper object (st_epoch (tc_state sample_commit)) = Some w"
    "verify_with_verifier sample_crypto (crypto_verify_state sample_crypto sample_verifier) object sample_cap pf
       (tc_state sample_commit) (w_transparency_proof w) = Inr ()"
    "opens_to sample_crypto (kp_secret sample_keys) object sample_cap (tc_state sample_commit) [1, 2, 3]"
proof -
  have "length [1, 2, 3 :: byte] < 2 ^ 37" by simp
  then obtain pf object where
    "seal_with_verifier sample_crypto sample_rng sample_rng (crypto_verify_state sample_crypto sample_verifier)
       (kp_public sample_keys) [1, 2, 3] sample_cap pf (tc_proof sample_commit) (tc_state sample_commit) sample_req Current
       = Inr object"
    "open_with_verifier sample_crypto (crypto_verify_state sample_crypto sample_verifier)
       (kp_secret sample_keys) object sample_cap pf (tc_state sample_commit) = Inr [1, 2, 3]"
    by (rule sample_seal_open)
  then show thesis using that by (auto simp: crypto_verifier.open_iff)
qed

lemma sample_epoch: "st_epoch (tc_state sample_commit) = 4"
proof -
  obtain iss c log' tree' where i: "sample_issued = (Inr (iss, c), log', tree')" "log_small log'"
    by (rule sample_issue)
  from i(1) [unfolded sample_issued_def] show ?thesis
  proof (cases rule: issue_and_commit_cases)
    case (late p r)
    then have "r = Inr c" by (cases r) auto
    from in_memory.commit_fields(3) [OF late(4) [unfolded this] i(2)] show ?thesis
      by (simp add: sample_commit_def i(1) sample_facts(6))
  qed simp
qed

text \<open>The sealed object, re-wrapped for the next epoch.\<close>

definition sample_from :: verified_authority_state where
  "sample_from = verified_new (tc_state sample_commit) \<lparr>av_path = CertChain\<rparr>"

definition sample_to :: verified_authority_state where
  "sample_to = verified_new ((tc_state sample_commit)\<lparr>st_epoch := 5\<rparr>) \<lparr>av_path = CertChain\<rparr>"

lemma sample_states:
  "as_state sample_from = tc_state sample_commit" "as_state sample_to = (tc_state sample_commit)\<lparr>st_epoch := 5\<rparr>"
  by (simp_all add: as_state_def verified_new_def sample_from_def sample_to_def)

lemma sample_opened:
  obtains pf object w where
    "find_wrapper object 4 = Some w"
    "openable_epoch (o_temporal_policy object) (o_seal_epoch object) 4"
    "validate_capability sample_crypto sample_cap pf (tc_state sample_commit) (open_request_for_object object 4) = Inr ()"
    "opens_to sample_crypto (kp_secret sample_keys) object sample_cap (tc_state sample_commit) [1, 2, 3]"
    "distinct_epochs object"
proof -
  obtain pf object w where o:
    "seal_with_verifier sample_crypto sample_rng sample_rng (crypto_verify_state sample_crypto sample_verifier)
       (kp_public sample_keys) [1, 2, 3] sample_cap pf (tc_proof sample_commit) (tc_state sample_commit) sample_req Current
       = Inr object"
    "find_wrapper object (st_epoch (tc_state sample_commit)) = Some w"
    "verify_with_verifier sample_crypto (crypto_verify_state sample_crypto sample_verifier) object sample_cap pf
       (tc_state sample_commit) (w_transparency_proof w) = Inr ()"
    "opens_to sample_crypto (kp_secret sample_keys) object sample_cap (tc_state sample_commit) [1, 2, 3]"
    by (rule sample_verifies)
  have "distinct_epochs object"
    using o(1) by (auto simp: seal_with_verifier_def bind_r_eq_Inr distinct_epochs_def dest!: seal_verified_ok)
  moreover have "openable_epoch (o_temporal_policy object) (o_seal_epoch object) 4"
      "validate_capability sample_crypto sample_cap pf (tc_state sample_commit) (open_request_for_object object 4) = Inr ()"
    using o(3) by (auto simp: verify_with_verifier_def bind_r_eq_Inr verify_verified_ok sample_epoch
        dest: crypto_verifier.verified_as_state)
  ultimately show thesis using that o(2,4) by (simp add: sample_epoch)
qed

lemma sample_rewrap:
  obtains pf object object' where
    "add_epoch_wrapper_verified sample_crypto sample_rng sample_rng (kp_secret sample_keys) (kp_public sample_keys)
       object sample_cap pf sample_from sample_to (tc_proof sample_commit) = (Inr (), object')"
    "opens_to sample_crypto (kp_secret sample_keys) object sample_cap (tc_state sample_commit) [1, 2, 3]"
    "distinct_epochs object"
proof -
  obtain pf object w where o: "find_wrapper object 4 = Some w"
    "validate_capability sample_crypto sample_cap pf (tc_state sample_commit) (open_request_for_object object 4) = Inr ()"
    "opens_to sample_crypto (kp_secret sample_keys) object sample_cap (tc_state sample_commit) [1, 2, 3]"
    "distinct_epochs object" by (rule sample_opened)
  obtain dek where dek: "unwrap_dek_for_epoch sample_crypto (kp_secret sample_keys) object sample_cap (tc_state sample_commit) w = Inr dek"
    using o(1,3) by (auto simp: opens_to_def sample_epoch)
  have "\<exists>w. rewrapped sample_crypto sample_rng sample_rng (kp_secret sample_keys) (kp_public sample_keys) object
      sample_cap pf sample_from sample_to (tc_proof sample_commit) = Inr w"
    using rewrap_succeeds [of object sample_from w sample_crypto "kp_secret sample_keys" sample_cap dek pf sample_to]
      o dek sample_aead(2) by (simp add: sample_states sample_epoch) (simp add: sample_cap_def)
  then show thesis using that o(3,4) by (auto simp: add_epoch_wrapper_verified_ok)
qed

lemma sample_reseal:
  obtains pf object object' where
    "open_and_reseal_verified sample_crypto sample_rng sample_rng (kp_secret sample_keys) (kp_public sample_keys)
       object sample_cap pf sample_from pf (tc_proof sample_commit) sample_from (open_request_for_object object 4) Current
       = Inr object'"
proof -
  obtain pf object w where o: "find_wrapper object 4 = Some w"
    "openable_epoch (o_temporal_policy object) (o_seal_epoch object) 4"
    "validate_capability sample_crypto sample_cap pf (tc_state sample_commit) (open_request_for_object object 4) = Inr ()"
    "opens_to sample_crypto (kp_secret sample_keys) object sample_cap (tc_state sample_commit) [1, 2, 3]"
    by (rule sample_opened)
  have "open_verified sample_crypto (kp_secret sample_keys) object sample_cap pf sample_from w 4 = Inr [1, 2, 3]"
    using o(1,3,4) by (auto simp: open_verified_ok sample_states opens_to_def sample_epoch)
  moreover obtain object' where "seal_verified sample_crypto sample_rng sample_rng (kp_public sample_keys) [1, 2, 3]
      sample_cap pf (tc_proof sample_commit) sample_from (open_request_for_object object 4) Current = Inr object'"
    using seal_succeeds [of sample_crypto sample_cap pf sample_from "open_request_for_object object 4" "[1, 2, 3]"] o(3)
      sample_aead(2) sample_states by force
  ultimately have "open_and_reseal_verified sample_crypto sample_rng sample_rng (kp_secret sample_keys)
      (kp_public sample_keys) object sample_cap pf sample_from pf (tc_proof sample_commit) sample_from
      (open_request_for_object object 4) Current = Inr object'"
    using o(1,2) select_required_wrapper_ok [of object "tc_state sample_commit" 4 w]
    by (simp add: open_and_reseal_verified_def sample_states sample_epoch Let_def)
  then show thesis by (rule that)
qed

text \<open>The state the sample authority commits when it issues, and sealing and committing in one call.\<close>

definition sample_published :: authority_state where
  "sample_published = sample_state\<lparr>st_authority_root :=
     tree_authority_root sample_crypto (snd (add_capability sample_crypto tree_new sample_cap))\<rparr>"

lemma sample_published_wf: "wf_state sample_published"
proof -
  have "tree_typed (snd (add_capability sample_crypto tree_new sample_cap))"
    by (rule tree_typed_add [OF _ sample_sha_32]) (simp add: tree_typed_def tree_new_def)
  from tree_roots_32(1) [OF this sample_sha_32] show ?thesis
    by (simp add: sample_published_def sample_state_def wf_state_def wf_str_def ascii_def sample_crypto_def
        root_verifying_key_bytes_def)
qed

lemma sample_published_commit: "\<exists>log. commit_state sample_crypto log_new sample_published = (Inr sample_commit, log)"
proof -
  obtain iss c log' tree' where i: "sample_issued = (Inr (iss, c), log', tree')"
      "tree' = snd (add_capability sample_crypto tree_new sample_cap)"
    by (rule sample_issue)
  from i(1) [unfolded sample_issued_def] show ?thesis
  proof (cases rule: issue_and_commit_cases)
    case (late p r)
    then have "r = Inr c" by (cases r) auto
    moreover have "sample_state\<lparr>st_authority_root := tree_authority_root sample_crypto tree',
        st_transparency_root := zeros 32\<rparr> = sample_published"
      by (simp add: sample_published_def sample_state_def i(2))
    ultimately show ?thesis using late(4) by (auto simp: in_memory_ops_def sample_commit_def i(1))
  qed simp
qed

lemma sample_seal_and_commit:
  obtains pf object log where
    "seal_and_commit sample_crypto (in_memory_ops sample_crypto) sample_rng sample_rng log_new
       (crypto_verify_state sample_crypto sample_verifier) (kp_public sample_keys) [1, 2, 3] sample_cap pf
       sample_published sample_req Current = (Inr (object, sample_commit), log)" "log_small log"
proof -
  obtain log where log: "commit_state sample_crypto log_new sample_published = (Inr sample_commit, log)"
    using sample_published_commit by blast
  have "length [1, 2, 3 :: byte] < 2 ^ 37" by simp
  from sample_seal_open [OF this] obtain pf object where
    sealed: "seal_with_verifier sample_crypto sample_rng sample_rng
      (crypto_verify_state sample_crypto sample_verifier) (kp_public sample_keys) [1, 2, 3] sample_cap pf
      (tc_proof sample_commit) (tc_state sample_commit) sample_req Current = Inr object" by metis
  have "log_small log" using commit_first(1) [OF log] by (simp add: log_small_def)
  moreover have "seal_and_commit sample_crypto (in_memory_ops sample_crypto) sample_rng sample_rng log_new
      (crypto_verify_state sample_crypto sample_verifier) (kp_public sample_keys) [1, 2, 3] sample_cap pf
      sample_published sample_req Current = (Inr (object, sample_commit), log)"
    using log sealed by (simp add: seal_and_commit_def in_memory_ops_def)
  ultimately show thesis by (rule that [rotated])
qed

text \<open>The sample authority at the next epoch: the same tree, committed after the first state, and a verifier of both.\<close>

lemma sample_next:
  obtains c :: transparency_state_commit and v where "st_authority_root (tc_state c) = st_authority_root (tc_state sample_commit)"
    "st_revocation_root (tc_state c) = st_revocation_root (tc_state sample_commit)"
    "st_revocation_count (tc_state c) = st_revocation_count (tc_state sample_commit)"
    "st_root_pk (tc_state c) = st_root_pk (tc_state sample_commit)"
    "st_authority_id (tc_state c) = st_authority_id (tc_state sample_commit)" "st_epoch (tc_state c) = 5"
    "is_ok (crypto_verify_state sample_crypto v (tc_state c) (tc_proof c))"
    "\<forall>p. is_ok (crypto_verify_state sample_crypto sample_verifier (tc_state sample_commit) p) \<longrightarrow>
      is_ok (crypto_verify_state sample_crypto v (tc_state sample_commit) p)"
proof -
  let ?C = sample_crypto and ?s = "tc_state sample_commit" and ?t = "sample_published\<lparr>st_epoch := 5\<rparr>"
  obtain log where log: "commit_state ?C log_new sample_published = (Inr sample_commit, log)"
    using sample_published_commit by blast
  have "log_view log (st_authority_id ?t, 5) = None"
    using log_view_commit [OF log] by (simp add: log_view_def log_new_def sample_published_def sample_state_def)
  then obtain c log' where c: "commit_state ?C log ?t = (Inr c, log')" using commit_fresh [of log ?t ?C] by auto
  have "length (lg_entries log') \<le> 2"
    using c commit_first(1) [OF log] by (cases rule: commit_state_cases [of log ?t ?C]) auto
  then have small: "log_small log'" "log_small log" using commit_first(1) [OF log] by (simp_all add: log_small_def)
  note fields = in_memory.commit_fields [of ?C log ?t c log'] in_memory.commit_fields [of ?C log_new sample_published sample_commit log]
  have eq: "st_authority_root (tc_state c) = st_authority_root ?s" "st_revocation_root (tc_state c) = st_revocation_root ?s"
      "st_revocation_count (tc_state c) = st_revocation_count ?s" "st_root_pk (tc_state c) = st_root_pk ?s"
      "st_authority_id (tc_state c) = st_authority_id ?s" "st_epoch (tc_state c) = 5"
      "st_root_pk ?s = root_verifying_key_bytes ?C sample_root"
    using fields c log small by (simp_all add: in_memory_ops_def sample_published_def sample_state_def)
  let ?v = "add_evidence sample_verifier (st_authority_id (tc_state c)) (st_epoch (tc_state c)) (epoch_verifying_key_bytes ?C sample_epoch_kp)
    (sign_epoch_root ?C sample_epoch_kp (st_authority_root (tc_state c)) (st_revocation_root (tc_state c))
      (st_transparency_root (tc_state c)) (st_epoch (tc_state c)) (st_prev_epoch_hash (tc_state c)))
    (issue_epoch_cert ?C sample_root (epoch_verifying_key_bytes ?C sample_epoch_kp) (st_epoch (tc_state c)) 2)"
  have "cv_root_pk sample_verifier = Some (root_verifying_key_bytes ?C sample_root)"
    by (simp add: sample_verifier_def epoch_verifier_def add_evidence_def with_root_pk_def eq(7))
  from evidence_accepted [OF sample_sig_correct this committed_proof_verifies [OF c small(1)], of 2 sample_epoch_kp]
  have "is_ok (crypto_verify_state ?C ?v (tc_state c) (tc_proof c))" by (simp add: eq(6))
  moreover have "is_ok (crypto_verify_state ?C ?v ?s p)" if "is_ok (crypto_verify_state ?C sample_verifier ?s p)" for p
    using evidence_kept [OF that] sample_epoch by (simp add: eq(6))
  ultimately show thesis using that [OF eq(1-6)] by blast
qed

lemma sample_rewrap_later:
  obtains pf object object' t tp v where
    "add_epoch_wrapper_with_verifier sample_crypto sample_rng sample_rng (crypto_verify_state sample_crypto v)
       (kp_secret sample_keys) (kp_public sample_keys) object sample_cap pf (tc_state sample_commit) t tp = (Inr (), object')"
    "opens_to sample_crypto (kp_secret sample_keys) object sample_cap (tc_state sample_commit) [1, 2, 3]"
    "st_epoch t = 5" "openable_epoch (o_temporal_policy object) (o_seal_epoch object) 5"
    "validate_capability sample_crypto sample_cap pf t (open_request_for_object object 5) = Inr ()"
proof -
  let ?C = sample_crypto and ?s = "tc_state sample_commit"
  obtain c :: transparency_state_commit and v where eq: "st_authority_root (tc_state c) = st_authority_root ?s" "st_revocation_root (tc_state c) = st_revocation_root ?s"
      "st_revocation_count (tc_state c) = st_revocation_count ?s" "st_root_pk (tc_state c) = st_root_pk ?s"
      "st_authority_id (tc_state c) = st_authority_id ?s" "st_epoch (tc_state c) = 5"
    and new: "is_ok (crypto_verify_state ?C v (tc_state c) (tc_proof c))"
    and old: "\<forall>p. is_ok (crypto_verify_state ?C sample_verifier ?s p) \<longrightarrow> is_ok (crypto_verify_state ?C v ?s p)"
    by (rule sample_next)
  obtain pf object w where o:
    "seal_with_verifier ?C sample_rng sample_rng (crypto_verify_state ?C sample_verifier)
       (kp_public sample_keys) [1, 2, 3] sample_cap pf (tc_proof sample_commit) ?s sample_req Current = Inr object"
    "find_wrapper object (st_epoch ?s) = Some w"
    "verify_with_verifier ?C (crypto_verify_state ?C sample_verifier) object sample_cap pf ?s (w_transparency_proof w) = Inr ()"
    "opens_to ?C (kp_secret sample_keys) object sample_cap ?s [1, 2, 3]"
    by (rule sample_verifies)
  obtain x where x: "crypto_verify_state ?C sample_verifier ?s (w_transparency_proof w) = Inr x"
      "verify_verified ?C object sample_cap pf x = Inr ()"
    using o(3) by (auto simp: verify_with_verifier_def bind_r_eq_Inr)
  have valid: "validate_capability ?C sample_cap pf ?s (open_request_for_object object 4) = Inr ()"
    and pol: "o_temporal_policy object = Current" "o_seal_epoch object = 4"
    using x(2) o(1) crypto_verifier.verified_as_state [OF x(1)]
    by (auto simp: verify_verified_ok sample_epoch seal_with_verifier_def bind_r_eq_Inr
        dest!: seal_verified_ok crypto_verifier.verified_as_state)
  have "grants sample_cap (open_request_for_object object 5)"
    using valid by (auto simp: validate_capability_ok grants_def open_request_for_object_def sample_cap_def)
  then have later: "validate_capability ?C sample_cap pf (tc_state c) (open_request_for_object object 5) = Inr ()"
    using eq by (intro validate_at_later_state [OF valid]) (simp_all add: open_request_for_object_def)
  obtain vf vt where vs: "crypto_verify_state ?C v ?s (w_transparency_proof w) = Inr vf" "crypto_verify_state ?C v (tc_state c) (tc_proof c) = Inr vt"
    using old new x(1) by (auto simp: is_ok_iff)
  note st = crypto_verifier.verified_as_state [OF vs(1)] crypto_verifier.verified_as_state [OF vs(2)]
  obtain dek where "unwrap_dek_for_epoch ?C (kp_secret sample_keys) object sample_cap ?s w = Inr dek"
    using o(2,4) by (auto simp: opens_to_def)
  then have "\<exists>w'. rewrapped ?C sample_rng sample_rng (kp_secret sample_keys) (kp_public sample_keys) object sample_cap pf vf vt
      (tc_proof c) = Inr w'"
    using valid o(2) sample_aead(2) eq(6) by (intro rewrap_succeeds) (simp_all add: st sample_epoch sample_cap_def)
  then obtain object' where "add_epoch_wrapper_with_verifier ?C sample_rng sample_rng (crypto_verify_state ?C v) (kp_secret sample_keys)
      (kp_public sample_keys) object sample_cap pf ?s (tc_state c) (tc_proof c) = (Inr (), object')"
    using o(2) vs by (auto simp: add_epoch_wrapper_with_verifier_def ok_or_def add_epoch_wrapper_verified_ok)
  then show thesis using o(4) eq(6) _ later by (rule that) (simp add: pol openable_epoch_simps)
qed

text \<open>The same state, signed by an epoch key other than the one that issued the capability.\<close>

definition sample_other_kp :: epoch_signing_key_pair where
  "sample_other_kp = epoch_from_seed (replicate 32 11)"

definition sample_other_cert :: epoch_key_cert where
  "sample_other_cert = issue_epoch_cert sample_crypto sample_root
     (epoch_verifying_key_bytes sample_crypto sample_other_kp) 4 2"

definition sample_other_verifier :: crypto_authority_verifier where
  "sample_other_verifier = epoch_verifier sample_crypto (tc_state sample_commit) sample_other_kp sample_other_cert"

lemma sample_other_opens:
  obtains pf object ev where
    "open_with_verifier sample_crypto (crypto_verify_state sample_crypto sample_other_verifier) (kp_secret sample_keys) object
       sample_cap pf (tc_state sample_commit) = Inr [1, 2, 3]"
    "registry_find (cv_evidence_registry sample_other_verifier) (st_authority_id (tc_state sample_commit))
       (st_epoch (tc_state sample_commit)) = Some ev"
    "ec_epoch_pk (ae_epoch_cert ev) \<noteq> ec_epoch_pk (is_epoch_cert (cp_issuance pf))"
    "st_root_pk (tc_state sample_commit) = root_verifying_key_bytes sample_crypto sample_root"
proof -
  let ?C = sample_crypto and ?s = "tc_state sample_commit" and ?V = "\<lambda>v. crypto_verify_state sample_crypto v (tc_state sample_commit)"
  have "length [1, 2, 3 :: byte] < 2 ^ 37" by simp
  then obtain pf object where
    "open_with_verifier ?C (crypto_verify_state ?C sample_verifier) (kp_secret sample_keys) object sample_cap pf ?s = Inr [1, 2, 3]"
    and issued: "is_epoch_cert (cp_issuance pf) = sample_cert"
    using sample_seal_open_issued by blast
  then obtain w x where o: "opens_to ?C (kp_secret sample_keys) object sample_cap ?s [1, 2, 3]"
      "find_wrapper object (st_epoch ?s) = Some w" "?V sample_verifier (w_transparency_proof w) = Inr x"
      "verify_verified ?C object sample_cap pf x = Inr ()"
    by (auto simp: crypto_verifier.open_iff verify_with_verifier_def bind_r_eq_Inr)
  obtain log where "commit_state ?C log_new sample_published = (Inr sample_commit, log)"
    using sample_published_commit by blast
  then have root: "st_root_pk ?s = root_verifying_key_bytes ?C sample_root"
    using in_memory.commit_fields(5) [of ?C log_new sample_published sample_commit log] commit_first(1)
    by (simp add: in_memory_ops_def log_small_def sample_published_def sample_state_def)
  have "?V sample_other_verifier (w_transparency_proof w) = Inr (verified_new ?s \<lparr>av_path = CertChain\<rparr>)"
    unfolding sample_other_verifier_def sample_other_cert_def
    using epoch_verifier_accepts [OF sample_sig_correct crypto_verifier.verified_logged [OF o(3)] root, of 2 sample_other_kp]
    by (simp add: sample_epoch)
  moreover have "verify_verified ?C object sample_cap pf (verified_new ?s \<lparr>av_path = CertChain\<rparr>) = Inr ()"
    using o(4) crypto_verifier.verified_as_state [OF o(3)] by (simp add: verify_verified_ok as_state_def verified_new_def)
  ultimately have opened: "open_with_verifier ?C (crypto_verify_state ?C sample_other_verifier) (kp_secret sample_keys) object sample_cap pf ?s = Inr [1, 2, 3]"
    using o(1,2) by (simp add: crypto_verifier.open_iff verify_with_verifier_def)
  have key: "epoch_verifying_key_bytes ?C sample_other_kp \<noteq> epoch_verifying_key_bytes ?C sample_epoch_kp"
    by (simp add: epoch_verifying_key_bytes_def sample_other_kp_def sample_epoch_kp_def epoch_from_seed_def sample_crypto_def
        pad_def replicate_32)
  obtain ev where "registry_find (cv_evidence_registry sample_other_verifier) (st_authority_id ?s) (st_epoch ?s) = Some ev"
      "ae_epoch_cert ev = sample_other_cert"
    by (simp add: sample_other_verifier_def epoch_verifier_def add_evidence_def with_root_pk_def registry_find_add)
  then show thesis
    using that [OF opened _ _ root] key issued by (simp add: sample_other_cert_def sample_cert_def issue_epoch_cert_def)
qed

subsection \<open>A log of two entries\<close>

text \<open>The states of two logs, which a leaf describes without the root key.\<close>

definition sample_entry :: "bytes \<Rightarrow> u64 \<Rightarrow> authority_state" where
  "sample_entry pk e = \<lparr>st_authority_root = replicate 32 1, st_revocation_root = replicate 32 2, st_transparency_root = zeros 32,
     st_epoch = e, st_authority_id = ascii ''auth'', st_root_pk = pk, st_revocation_count = 0, st_prev_epoch_hash = zeros 32\<rparr>"

lemma sample_sha_append: "length y = 32 \<Longrightarrow> sample_sha (x @ y) = rev y"
  by (simp add: sample_sha_def)

text \<open>What the digest shows of a leaf message: its last 32 bytes.\<close>

definition sample_tail :: "u64 \<Rightarrow> bytes" where
  "sample_tail e = replicate 8 2 @ put_u64 e @ put_str (ascii ''auth'') @ put_u64 0"

lemma sample_tail_facts:
  "length (sample_tail e) = 32" "sample_tail e = sample_tail e' \<longleftrightarrow> e = e'" "hd (sample_tail e) = 2" "last (sample_tail e) = 0"
proof -
  have inj: "put_u64 a = put_u64 b \<longleftrightarrow> a = b" for a b
    using put_u64_eq [of a "[]" b "[]"] by (simp only: append_Nil2 simp_thms)
  show "length (sample_tail e) = 32" by (simp add: sample_tail_def put_str_def put_bytes_def ascii_def)
  show "sample_tail e = sample_tail e' \<longleftrightarrow> e = e'" by (simp add: sample_tail_def inj)
  show "hd (sample_tail e) = 2" by (simp add: sample_tail_def hd_append)
  have "nat_to_le n 0 = zeros n" for n by (induction n) (simp_all add: zeros_def)
  then have "put_u64 0 = zeros 8" by (simp add: put_u64_def)
  then show "last (sample_tail e) = 0" by (simp add: sample_tail_def last_append zeros_def)
qed

lemma sample_entry_hashes:
  "transparency_leaf_hash sample_crypto (sample_entry pk e) = rev (sample_tail e)"
  "hash_transparency_node sample_crypto a (rev (sample_tail e)) = sample_tail e"
proof -
  have "replicate 32 (2 :: byte) = replicate 24 2 @ replicate 8 2" by (simp flip: replicate_add)
  then have "transparency_leaf_hash sample_crypto (sample_entry pk e) = sample_sha
      ((ascii ''KYRIOTES-CSK2-TRANSPARENCY-LEAF-v1'' @ put_bytes (replicate 32 1) @ put_u32 32 @ replicate 24 2) @ sample_tail e)"
    by (simp add: transparency_leaf_hash_def transparency_transcript_def sample_entry_def sample_crypto_def put_bytes_def sample_tail_def)
  then show "transparency_leaf_hash sample_crypto (sample_entry pk e) = rev (sample_tail e)"
    by (simp only: sample_sha_append [OF sample_tail_facts(1)])
  have "sample_sha ((x @ a) @ rev (sample_tail e)) = sample_tail e" for x
    by (subst sample_sha_append) (simp_all add: sample_tail_facts(1))
  then show "hash_transparency_node sample_crypto a (rev (sample_tail e)) = sample_tail e"
    by (simp add: hash_transparency_node_def sample_crypto_def)
qed

lemma sample_log_inputs:
  "log_inputs sample_crypto [sample_entry pk 4, sample_entry pk 5] =
     {transparency_input (sample_entry [] 4), transparency_input (sample_entry [] 5),
      node_input (rev (sample_tail 4), rev (sample_tail 5))}"
proof -
  have "transparency_input (sample_entry pk e) = transparency_input (sample_entry [] e)" for e
    by (simp add: transparency_input_def transparency_transcript_def sample_entry_def)
  then show ?thesis by (auto simp: log_inputs_def tree_pairs.simps sample_entry_hashes)
qed

lemma sample_log_safe: "sha_safe sample_crypto (log_inputs sample_crypto [sample_entry pk 4, sample_entry pk 5])"
proof -
  have sha: "sha256 sample_crypto (transparency_input (sample_entry pk e)) = rev (sample_tail e)" for pk e
    using sample_entry_hashes(1) by (simp add: transparency_leaf_input)
  have node: "sha256 sample_crypto (node_input (a, rev (sample_tail e))) = sample_tail e" for a e
    using sample_entry_hashes(2) by (simp add: node_input_def hash_transparency_node_def)
  have neq: "rev (sample_tail e) \<noteq> sample_tail e'" "sample_tail e \<noteq> zeros 32" "sample_tail e \<noteq> LONE_NODE_SENTINEL"
      "rev (sample_tail e) \<noteq> zeros 32" "rev (sample_tail e) \<noteq> LONE_NODE_SENTINEL" for e e'
    using sample_tail_facts(1,3,4) [of e] sample_tail_facts(3) [of e']
    by (auto simp: zeros_def LONE_NODE_SENTINEL_def replicate_32 rev_eq_Cons_iff dest: arg_cong [of _ _ hd] simp: hd_rev)
  show ?thesis
    unfolding sha_safe_def sample_log_inputs
    using neq by (auto simp: inj_on_def sha node sample_tail_facts(2) neq [symmetric])
qed

lemma sample_log:
  assumes "length pk = 32"
  shows "distinct (map log_key [sample_entry pk 4, sample_entry pk 5])" "wf_state (sample_entry pk e)"
    "current_root sample_crypto (log_of sample_crypto [sample_entry pk 4, sample_entry pk 5]) = sample_tail 5"
proof -
  show d: "distinct (map log_key [sample_entry pk 4, sample_entry pk 5])" by (simp add: log_key_def sample_entry_def)
  show "wf_state (sample_entry pk e)" using assms by (simp add: wf_state_def sample_entry_def wf_str_def ascii_def)
  show "current_root sample_crypto (log_of sample_crypto [sample_entry pk 4, sample_entry pk 5]) = sample_tail 5"
    by (simp add: current_root_def log_of_leaves [OF d] sample_entry_hashes merkle_root_def merkle_levels.simps merkle_next_eq)
qed

subsection \<open>A revoked capability\<close>

definition sample_stamp :: bytes where
  "sample_stamp = capability_stamp sample_crypto sample_cap sample_state"

definition sample_revoked :: authority_capability_tree where
  "sample_revoked = \<lparr>ct_leaf_hashes = [capability_leaf_hash sample_crypto sample_cap],
     ct_revoked_stamps = [sample_stamp, replicate 32 0xfe]\<rparr>"

definition sample_revoked_state :: authority_state where
  "sample_revoked_state = sample_state\<lparr>
     st_authority_root := tree_authority_root sample_crypto sample_revoked,
     st_revocation_root := tree_revocation_root sample_crypto sample_revoked,
     st_revocation_count := tree_revocation_count sample_revoked\<rparr>"

lemma sample_stamp_head: "\<exists>x. sample_stamp = 0x68 # x"
  by (simp add: sample_stamp_def capability_stamp_def sample_crypto_def sample_sha_def sample_state_def ascii_def)

lemma sample_revoked_facts:
  "tree_wf sample_revoked" "publishes sample_crypto sample_revoked_state sample_revoked"
  "is_revoked sample_revoked (capability_stamp sample_crypto sample_cap sample_revoked_state)"
  "capability_stamp sample_crypto sample_cap sample_revoked_state \<noteq> tree_revocation_root sample_crypto sample_revoked"
proof -
  have stamp: "capability_stamp sample_crypto sample_cap sample_revoked_state = sample_stamp"
    unfolding sample_stamp_def by (rule capability_stamp_cong) (simp add: sample_revoked_state_def)
  obtain x where x: "sample_stamp = 0x68 # x" using sample_stamp_head by blast
  show "tree_wf sample_revoked" by (simp add: tree_wf_def sample_revoked_def x replicate_32)
  show "is_revoked sample_revoked (capability_stamp sample_crypto sample_cap sample_revoked_state)"
    by (simp add: stamp is_revoked_def sample_revoked_def)
  have "tree_revocation_root sample_crypto sample_revoked =
      hash_transparency_node sample_crypto sample_stamp (replicate 32 0xfe)"
    by (simp add: tree_revocation_root_def sample_revoked_def merkle_root_def merkle_levels.simps merkle_next_eq)
  also have "\<exists>y. \<dots> = 0xfe # y"
    by (simp add: hash_transparency_node_def sample_crypto_def sample_sha_def) (rule exI, rule replicate_32)
  finally show "capability_stamp sample_crypto sample_cap sample_revoked_state \<noteq>
      tree_revocation_root sample_crypto sample_revoked" unfolding stamp x by auto
qed (simp add: publishes_def sample_revoked_state_def)

definition sample_revoked_proof :: capability_proof where
  "sample_revoked_proof = \<lparr>
     cp_inclusion = the (inclusion_proof sample_crypto sample_revoked sample_cap),
     cp_non_revocation = \<lparr>nw_stamp = [], nw_total_revoked = 0, nw_left = None, nw_right = None\<rparr>,
     cp_issuance = \<lparr>is_sig = sign_capability_issuance sample_crypto sample_epoch_kp
         (capability_leaf_hash sample_crypto sample_cap) (tree_authority_root sample_crypto sample_revoked) 4,
       is_epoch_cert = sample_cert\<rparr>\<rparr>"

lemma sample_revoked_included:
  "issued_and_included sample_crypto sample_cap sample_revoked_proof sample_revoked_state"
proof -
  obtain p where p: "inclusion_proof sample_crypto sample_revoked sample_cap = Some p"
      "verify_capability_inclusion sample_crypto sample_cap p (tree_authority_root sample_crypto sample_revoked) = Inr ()"
    using inclusion_complete [of sample_crypto sample_cap sample_revoked] by (auto simp: sample_revoked_def)
  have "verify_capability_issuance sample_crypto sample_cap (tree_authority_root sample_crypto sample_revoked) 4
      (cp_issuance sample_revoked_proof) (root_verifying_key_bytes sample_crypto sample_root) = Inr ()"
    unfolding sample_revoked_proof_def sample_cert_def capability_proof.simps
    by (rule issuance_complete [OF sample_sig_correct]) (simp_all add: sample_cap_def)
  then show ?thesis using p sample_facts(1,5)
    by (simp add: issued_and_included_def sample_revoked_proof_def sample_revoked_state_def sample_cert_def
        issue_epoch_cert_def Let_def)
qed

end
