(* ===== verification/Csk2_Fuzz.thy ===== *)
theory Csk2_Fuzz
  imports Csk2_Wire Csk2_Transparency
begin

text \<open>
  The repository's fuzz targets (\<open>fuzz/fuzz_targets\<close>) as programs, with the support crate
  \<open>fuzz/src/lib.rs\<close> they share. A target is a function of the fuzzer's input that calls the crate and
  asserts what must hold; running it ends normally, by an early \<open>return\<close>, or by a panic. In the
  model a computation is a result whose error is the way the target ended. That a target never
  panics, for every input, turns its assertions into theorems.

  Besides the support functions this theory has the two targets that use no keys: the codec target and
  the transparency log state machine.
\<close>

subsection \<open>Runs that may panic\<close>

datatype fuzz_run = Passed | Panicked string

type_synonym 'a fuzz = "fuzz_run + 'a"

text \<open>\<open>assert!\<close>, \<open>expect\<close>, \<open>expect_err\<close>, and \<open>let .. else { return }\<close>.\<close>

definition fuzz_assert :: "string \<Rightarrow> bool \<Rightarrow> unit fuzz" where
  "fuzz_assert msg b = (if b then Inr () else Inl (Panicked msg))"

definition expect :: "'e + 'a \<Rightarrow> string \<Rightarrow> 'a fuzz" where
  "expect r msg = map_err (\<lambda>_. Panicked msg) r"

definition expect_err :: "'e + 'a \<Rightarrow> string \<Rightarrow> 'e fuzz" where
  "expect_err r msg = (case r of Inl e \<Rightarrow> Inr e | Inr _ \<Rightarrow> Inl (Panicked msg))"

definition or_return :: "'e + 'a \<Rightarrow> 'a fuzz" where
  "or_return r = map_err (\<lambda>_. Passed) r"

text \<open>How a function ended for its caller: an early \<open>return\<close> is the end of that function only.\<close>

definition returned :: "unit fuzz \<Rightarrow> unit fuzz" where
  "returned r = (case r of Inl (Panicked msg) \<Rightarrow> Inl (Panicked msg) | _ \<Rightarrow> Inr ())"

definition outcome :: "unit fuzz \<Rightarrow> fuzz_run" where
  "outcome r = (case r of Inl e \<Rightarrow> e | Inr _ \<Rightarrow> Passed)"

text \<open>A \<open>for\<close> loop whose body may end the function.\<close>

fun fold_r :: "('s \<Rightarrow> 'x \<Rightarrow> 'e + 's) \<Rightarrow> 's \<Rightarrow> 'x list \<Rightarrow> 'e + 's" where
  "fold_r f s [] = Inr s"
| "fold_r f s (x # xs) = bind_r (f s x) (\<lambda>s'. fold_r f s' xs)"

definition no_panic :: "'a fuzz \<Rightarrow> bool" where
  "no_panic r \<longleftrightarrow> (\<forall>msg. r \<noteq> Inl (Panicked msg))"

named_theorems fuzz_vc \<open>when the parts of a target do not panic\<close>

lemma no_panic_simps [fuzz_vc]:
  "no_panic (Inr v)" "no_panic (Inl Passed)" "\<not> no_panic (Inl (Panicked msg))"
  "no_panic (fuzz_assert msg b) \<longleftrightarrow> b" "no_panic (expect r msg) \<longleftrightarrow> is_ok r"
  "no_panic (expect_err r msg) \<longleftrightarrow> \<not> is_ok r" "no_panic (or_return r)"
  "no_panic (if b then x else y) \<longleftrightarrow> (if b then no_panic x else no_panic y)"
  by (auto simp: no_panic_def fuzz_assert_def expect_def expect_err_def or_return_def map_err_def
      split: sum.splits)

lemma no_panic_bind [fuzz_vc]:
  "no_panic (bind_r r f) \<longleftrightarrow> no_panic r \<and> (\<forall>v. r = Inr v \<longrightarrow> no_panic (f v))"
  by (cases r) (auto simp: no_panic_def)

lemma fuzz_Inr [fuzz_vc]:
  "fuzz_assert msg b = Inr u \<longleftrightarrow> b" "expect r msg = Inr v \<longleftrightarrow> r = Inr v"
  "expect_err r msg = Inr e \<longleftrightarrow> r = Inl e" "or_return r = Inr v \<longleftrightarrow> r = Inr v"
  by (auto simp: fuzz_assert_def expect_def expect_err_def or_return_def map_err_eq_Inr split: sum.splits)

lemma no_panic_returned [fuzz_vc]: "no_panic (returned r) \<longleftrightarrow> no_panic r"
  by (auto simp: no_panic_def returned_def split: sum.splits fuzz_run.splits)

lemma outcome_passed: "outcome r = Passed \<longleftrightarrow> no_panic r"
  by (auto simp: outcome_def no_panic_def split: sum.splits) (metis fuzz_run.exhaust)

lemma no_panic_fold:
  assumes "\<And>i s. i < length xs \<Longrightarrow> I i s \<Longrightarrow> no_panic (f s (xs ! i)) \<and> (\<forall>s'. f s (xs ! i) = Inr s' \<longrightarrow> I (Suc i) s')"
    and "I 0 s"
  shows "no_panic (fold_r f s xs) \<and> (\<forall>s'. fold_r f s xs = Inr s' \<longrightarrow> I (length xs) s')"
  using assms
proof (induction xs arbitrary: s I)
  case Nil
  then show ?case by (simp add: fuzz_vc)
next
  case (Cons x xs)
  have head: "no_panic (f s x)" "\<And>s'. f s x = Inr s' \<Longrightarrow> I (Suc 0) s'"
    using Cons.prems(1) [of 0 s] Cons.prems(2) by auto
  have "no_panic (fold_r f s' xs) \<and> (\<forall>t. fold_r f s' xs = Inr t \<longrightarrow> I (Suc (length xs)) t)"
    if "f s x = Inr s'" for s'
  proof (rule Cons.IH [where I = "\<lambda>i. I (Suc i)"])
    show "no_panic (f t (xs ! i)) \<and> (\<forall>s'. f t (xs ! i) = Inr s' \<longrightarrow> I (Suc (Suc i)) s')"
      if "i < length xs" "I (Suc i) t" for i t
      using Cons.prems(1) [of "Suc i" t] that by simp
  qed (rule head(2) [OF that])
  with head show ?case by (auto simp: fuzz_vc bind_r_eq_Inr)
qed

text \<open>
  Some assertions are about the strength of the primitives. \<open>panics_only S\<close> says that every other assertion
  holds: a panic can only carry a message of \<open>S\<close>.
\<close>

definition panics_only :: "string set \<Rightarrow> 'a fuzz \<Rightarrow> bool" where
  "panics_only S r \<longleftrightarrow> (\<forall>msg. r = Inl (Panicked msg) \<longrightarrow> msg \<in> S)"

named_theorems panic_vc \<open>when the parts of a target only panic with given messages\<close>

lemma panics_only_simps [panic_vc]:
  "panics_only S (Inr v)" "panics_only S (Inl Passed)" "panics_only S (Inl (Panicked msg)) \<longleftrightarrow> msg \<in> S"
  "panics_only S (fuzz_assert msg b) \<longleftrightarrow> b \<or> msg \<in> S" "panics_only S (expect r msg) \<longleftrightarrow> is_ok r \<or> msg \<in> S"
  "panics_only S (expect_err r msg) \<longleftrightarrow> \<not> is_ok r \<or> msg \<in> S" "panics_only S (or_return r)"
  "panics_only S (if b then x else y) \<longleftrightarrow> (if b then panics_only S x else panics_only S y)"
  by (auto simp: panics_only_def fuzz_assert_def expect_def expect_err_def or_return_def map_err_def
      split: sum.splits)

lemma panics_only_bind [panic_vc]:
  "panics_only S (bind_r r f) \<longleftrightarrow> panics_only S r \<and> (\<forall>v. r = Inr v \<longrightarrow> panics_only S (f v))"
  by (cases r) (auto simp: panics_only_def)

lemmas [panic_vc] = fuzz_Inr

lemma outcome_panics_only: "outcome r \<in> insert Passed (Panicked ` S) \<longleftrightarrow> panics_only S r"
  by (auto simp: outcome_def panics_only_def image_iff split: sum.splits) (metis fuzz_run.exhaust)

lemma no_panic_panics_only: "no_panic r \<longleftrightarrow> panics_only {} r"
  by (simp add: no_panic_def panics_only_def)

subsection \<open>The support crate\<close>

definition MAX_SLICE_LEN :: nat where "MAX_SLICE_LEN = 524288"
definition MAX_STATEFUL_STRESS_STEPS :: nat where "MAX_STATEFUL_STRESS_STEPS = 12"

definition bounded :: "bytes \<Rightarrow> bytes" where
  "bounded data = (if length data > MAX_SLICE_LEN then take MAX_SLICE_LEN data else data)"

record fuzz_header =
  fh_selector :: byte
  fh_profile_selector :: byte
  fh_mutation_selector :: byte
  fh_repeat_count :: byte
  fh_offset_a :: u16
  fh_offset_b :: u16
  fh_len_a :: u16
  fh_len_b :: u16
  fh_epoch_a :: u64
  fh_epoch_b :: u64
  fh_rights_a :: u64
  fh_rights_b :: u64
  fh_stamp_a :: u64
  fh_stamp_b :: u64

record split_slices =
  sl_whole :: bytes
  sl_a :: bytes
  sl_b :: bytes
  sl_c :: bytes
  sl_d :: bytes

text \<open>\<open>&data[i..j]\<close>, which panics (\<open>None\<close>) unless \<open>i \<le> j \<le> data.len()\<close>.\<close>

definition sub_slice :: "bytes \<Rightarrow> nat \<Rightarrow> nat \<Rightarrow> bytes option" where
  "sub_slice data i j = (if i \<le> j \<and> j \<le> length data then Some (take (j - i) (drop i data)) else None)"

definition split_input :: "fuzz_header \<Rightarrow> bytes \<Rightarrow> split_slices option" where
  "split_input header rest =
     (let len = length rest;
          start_a = min (unat (fh_offset_a header)) len;
          start_b = min (unat (fh_offset_b header)) len;
          end_a = min (start_a + unat (fh_len_a header)) len;
          end_b = min (start_b + unat (fh_len_b header)) len;
          mid = len div 2;
          q1 = len div 4;
          q3 = min (q1 * 3) len
      in case (sub_slice rest start_a end_a, sub_slice rest start_b end_b, sub_slice rest 0 mid, sub_slice rest q1 q3) of
           (Some a, Some b, Some c, Some d) \<Rightarrow>
             Some \<lparr>sl_whole = rest, sl_a = a, sl_b = b, sl_c = c, sl_d = d\<rparr>
         | _ \<Rightarrow> None)"

definition mutate_one_byte :: "bytes \<Rightarrow> byte \<Rightarrow> bytes" where
  "mutate_one_byte data selector =
     (if data = [] then data
      else let index = unat selector mod length data
           in data[index := word_rotl (unat selector mod 7) (data ! index + 1)])"

definition truncate_by_selector :: "bytes \<Rightarrow> byte \<Rightarrow> bytes" where
  "truncate_by_selector data selector =
     (if data = [] then data else take (unat selector mod length data) data)"

definition append_length_bomb :: "bytes \<Rightarrow> byte \<Rightarrow> bytes" where
  "append_length_bomb data selector =
     (let patterns = [replicate 8 0xff, replicate 8 0x7f, [0x80, 0, 0, 0, 0, 0, 0, 0],
            [0, 0, 0, 0, 0xff, 0xff, 0xff, 0xff], [0, 0, 0, 0, 0, 0, 0, 0], [1, 0, 0, 0, 0, 0, 0, 0],
            [0, 1, 0, 0, 0, 0, 0, 0], [0xde, 0xad, 0xbe, 0xef, 0xca, 0xfe, 0xba, 0xbe]]
      in data @ patterns ! (unat selector mod length patterns))"

fun repeat_loop :: "bytes \<Rightarrow> nat \<Rightarrow> bytes \<Rightarrow> bytes" where
  "repeat_loop data 0 out = out"
| "repeat_loop data (Suc n) out =
     (if length out + length data > MAX_SLICE_LEN then out else repeat_loop data n (out @ data))"

definition repeat_small :: "bytes \<Rightarrow> byte \<Rightarrow> bytes" where
  "repeat_small data repeat_count = repeat_loop data (unat repeat_count mod 8 + 1) []"

text \<open>
  The inputs \<open>drive_parser_like_targets\<close> hands to its callback, in order; \<open>parse\<close> stands for the
  \<open>arbitrary\<close> crate, which reads a header from the front of the input. Panics of the callback are
  caught.
\<close>

definition parse_header :: "(bytes \<Rightarrow> (fuzz_header \<times> bytes) option) \<Rightarrow> bytes \<Rightarrow> (fuzz_header \<times> bytes) option" where
  "parse_header parse data = parse (bounded data)"

definition drive_parser_like_targets ::
    "(bytes \<Rightarrow> (fuzz_header \<times> bytes) option) \<Rightarrow> bytes \<Rightarrow> bytes list option" where
  "drive_parser_like_targets parse data =
     (case parse_header parse data of None \<Rightarrow> Some []
      | Some (header, rest) \<Rightarrow> map_option (\<lambda>split.
          [sl_whole split, sl_a split, sl_b split, sl_c split, sl_d split,
           mutate_one_byte (sl_whole split) (fh_mutation_selector header),
           truncate_by_selector (sl_whole split) (fh_selector header),
           append_length_bomb (sl_whole split) (fh_profile_selector header),
           repeat_small (sl_a split) (fh_repeat_count header)]) (split_input header rest))"

definition bytes_to_u64 :: "bytes \<Rightarrow> u64" where
  "bytes_to_u64 data = word_of_nat (nat_from_le (take 8 data @ zeros (8 - min (length data) 8)))"

definition bytes_to_u32 :: "bytes \<Rightarrow> u32" where
  "bytes_to_u32 data = word_of_nat (nat_from_le (take 4 data @ zeros (4 - min (length data) 4)))"

definition first_or_zero :: "bytes \<Rightarrow> byte" where
  "first_or_zero data = (case data of [] \<Rightarrow> 0 | b # _ \<Rightarrow> b)"

definition bytes_to_bool :: "bytes \<Rightarrow> bool" where
  "bytes_to_bool data \<longleftrightarrow> first_or_zero data AND 1 = 1"

definition deterministic_seed32 :: "bytes \<Rightarrow> byte \<Rightarrow> bytes" where
  "deterministic_seed32 data domain =
     take 32 data @ map (\<lambda>index. word_rotl (index mod 7) (domain + word_of_nat index))
       [min (length data) 32..<32]"

lemma length_deterministic_seed32 [simp]: "length (deterministic_seed32 data domain) = 32"
  by (simp add: deterministic_seed32_def min_def)

lemma length_bounded: "length (bounded data) \<le> 524288"
  by (simp add: bounded_def MAX_SLICE_LEN_def)

text \<open>\<open>format!\<close> with a decimal number or with \<open>{:016x}\<close>.\<close>

fun decimal :: "nat \<Rightarrow> bytes" where
  "decimal n = (if n < 10 then [0x30 + word_of_nat n]
     else decimal (n div 10) @ [0x30 + word_of_nat (n mod 10)])"

declare decimal.simps [simp del]

definition hex_digit :: "nat \<Rightarrow> byte" where
  "hex_digit n = (if n < 10 then 0x30 + word_of_nat n else 0x57 + word_of_nat n)"

definition hex16 :: "u64 \<Rightarrow> bytes" where
  "hex16 x = map (\<lambda>i. hex_digit (unat x div 16 ^ i mod 16)) (rev [0..<16])"

lemma length_hex16 [simp]: "length (hex16 x) = 16"
  by (simp add: hex16_def)

text \<open>\<open>data.get(i)\<close> with a default of zero.\<close>

definition byte_at :: "bytes \<Rightarrow> nat \<Rightarrow> byte" where
  "byte_at data i = (if i < length data then data ! i else 0)"

text \<open>Slicing never panics, and no input grows beyond the bound by more than the appended pattern.\<close>

lemma slice_length: "sub_slice data i j = Some s \<Longrightarrow> length s \<le> length data"
  by (auto simp: sub_slice_def split: if_splits)

lemma split_input_total:
  obtains split where "split_input header rest = Some split" "sl_whole split = rest"
    "length (sl_a split) \<le> length rest" "length (sl_b split) \<le> length rest"
    "length (sl_c split) \<le> length rest" "length (sl_d split) \<le> length rest"
proof -
  let ?len = "length rest"
  have "\<exists>s. sub_slice rest i j = Some s \<and> length s \<le> ?len" if "i \<le> j" "j \<le> ?len" for i j
    using that by (simp add: sub_slice_def)
  moreover have "min (unat x) ?len \<le> min (min (unat x) ?len + n) ?len" for x :: u16 and n by simp
  moreover have "?len div 4 \<le> min (?len div 4 * 3) ?len" "?len div 2 \<le> ?len" by simp_all
  ultimately obtain a b c d where
    "sub_slice rest (min (unat (fh_offset_a header)) ?len)
       (min (min (unat (fh_offset_a header)) ?len + unat (fh_len_a header)) ?len) = Some a" "length a \<le> ?len"
    "sub_slice rest (min (unat (fh_offset_b header)) ?len)
       (min (min (unat (fh_offset_b header)) ?len + unat (fh_len_b header)) ?len) = Some b" "length b \<le> ?len"
    "sub_slice rest 0 (?len div 2) = Some c" "length c \<le> ?len"
    "sub_slice rest (?len div 4) (min (?len div 4 * 3) ?len) = Some d" "length d \<le> ?len"
    by (metis le0 min.cobounded2)
  then show thesis
    by (intro that [of "\<lparr>sl_whole = rest, sl_a = a, sl_b = b, sl_c = c, sl_d = d\<rparr>"])
      (simp_all add: split_input_def Let_def)
qed

lemma repeat_loop_length: "length out \<le> MAX_SLICE_LEN \<Longrightarrow> length (repeat_loop data n out) \<le> MAX_SLICE_LEN"
  by (induction data n out rule: repeat_loop.induct) simp_all

lemma length_bomb: "length (append_length_bomb data selector) = length data + 8"
proof -
  have "unat selector mod 8 < 8" by simp
  then have "unat selector mod 8 \<in> {0, 1, 2, 3, 4, 5, 6, 7}" by auto
  then show ?thesis by (auto simp: append_length_bomb_def Let_def)
qed

text \<open>A parser only hands back part of what it was given.\<close>

definition parse_shrinks :: "(bytes \<Rightarrow> (fuzz_header \<times> bytes) option) \<Rightarrow> bool" where
  "parse_shrinks parse \<longleftrightarrow> (\<forall>data header rest. parse data = Some (header, rest) \<longrightarrow> length rest \<le> length data)"

lemma driver_total:
  assumes "parse_shrinks parse"
  shows "\<exists>inputs. drive_parser_like_targets parse data = Some inputs \<and>
    length inputs = (if parse_header parse data = None then 0 else 9) \<and>
    (\<forall>input \<in> set inputs. length input \<le> MAX_SLICE_LEN + 8)"
proof (cases "parse (bounded data)")
  case (Some p)
  obtain header rest where p: "parse (bounded data) = Some (header, rest)" using Some by (cases p) auto
  have "length rest \<le> length (bounded data)" using assms p unfolding parse_shrinks_def by blast
  then have len: "length rest \<le> MAX_SLICE_LEN"
    using length_bounded [of data] by (simp add: MAX_SLICE_LEN_def)
  obtain split where s: "split_input header rest = Some split" "sl_whole split = rest"
    "length (sl_a split) \<le> length rest" "length (sl_b split) \<le> length rest"
    "length (sl_c split) \<le> length rest" "length (sl_d split) \<le> length rest"
    by (rule split_input_total)
  have "length (repeat_small (sl_a split) n) \<le> MAX_SLICE_LEN" for n
    unfolding repeat_small_def by (rule repeat_loop_length) simp
  moreover have "length (mutate_one_byte rest n) = length rest"
      "length (truncate_by_selector rest n) \<le> length rest" for n
    by (simp_all add: mutate_one_byte_def truncate_by_selector_def Let_def)
  then have "length (mutate_one_byte rest n) = length rest"
      "length (truncate_by_selector rest n) \<le> MAX_SLICE_LEN + 8" for n
    using len by (meson le_trans trans_le_add1)+
  ultimately show ?thesis
    using s len by (auto simp: drive_parser_like_targets_def parse_header_def p length_bomb
        intro: le_trans trans_le_add1 order_trans [OF _ le_add1])
qed (simp add: drive_parser_like_targets_def parse_header_def)

text \<open>
  A parser to run the driver with: the fields of the header in their order, integers little-endian, from the
  first sixty bytes.
\<close>

definition u16_at :: "bytes \<Rightarrow> nat \<Rightarrow> u16" where
  "u16_at data i = word_of_nat (nat_from_le (take 2 (drop i data)))"

definition front_fields :: "bytes \<Rightarrow> fuzz_header" where
  "front_fields data = \<lparr>fh_selector = data ! 0, fh_profile_selector = data ! 1, fh_mutation_selector = data ! 2,
     fh_repeat_count = data ! 3, fh_offset_a = u16_at data 4, fh_offset_b = u16_at data 6, fh_len_a = u16_at data 8,
     fh_len_b = u16_at data 10, fh_epoch_a = bytes_to_u64 (drop 12 data), fh_epoch_b = bytes_to_u64 (drop 20 data),
     fh_rights_a = bytes_to_u64 (drop 28 data), fh_rights_b = bytes_to_u64 (drop 36 data),
     fh_stamp_a = bytes_to_u64 (drop 44 data), fh_stamp_b = bytes_to_u64 (drop 52 data)\<rparr>"

definition front_header :: "bytes \<Rightarrow> (fuzz_header \<times> bytes) option" where
  "front_header data = (if length data < 60 then None else Some (front_fields data, drop 60 data))"

lemma front_header_shrinks: "parse_shrinks front_header"
  by (auto simp: parse_shrinks_def front_header_def split: if_splits)

lemma front_header_run: "drive_parser_like_targets front_header
     ([2, 0, 1, 2, 1, 0, 2, 0, 3, 0, 2, 0] @ replicate 48 0 @ [10, 20, 30, 40, 50, 60, 70, 80]) =
   Some [[10, 20, 30, 40, 50, 60, 70, 80], [20, 30, 40], [30, 40], [10, 20, 30, 40], [30, 40, 50, 60],
     [10, 42, 30, 40, 50, 60, 70, 80], [10, 20], [10, 20, 30, 40, 50, 60, 70, 80] @ replicate 8 0xff,
     [20, 30, 40, 20, 30, 40, 20, 30, 40]]"
proof -
  let ?rest = "[10, 20, 30, 40, 50, 60, 70, 80] :: bytes" and ?data = "[2, 0, 1, 2, 1, 0, 2, 0, 3, 0, 2, 0] @ replicate 48 0 @ [10, 20, 30, 40, 50, 60, 70, 80] :: bytes"
  obtain h where h: "front_header (bounded ?data) = Some (h, ?rest)" "fh_selector h = 2" "fh_profile_selector h = 0"
      "fh_mutation_selector h = 1" "fh_repeat_count h = 2" "fh_offset_a h = 1" "fh_offset_b h = 2" "fh_len_a h = 3" "fh_len_b h = 2"
    by (simp add: front_header_def front_fields_def u16_at_def bounded_def MAX_SLICE_LEN_def)
  have s: "split_input h ?rest = Some \<lparr>sl_whole = ?rest, sl_a = [20, 30, 40], sl_b = [30, 40], sl_c = [10, 20, 30, 40], sl_d = [30, 40, 50, 60]\<rparr>"
    by (simp add: split_input_def h sub_slice_def)
  have "mutate_one_byte ?rest 1 = [10, 42, 30, 40, 50, 60, 70, 80]" by code_simp
  moreover have "repeat_small [20, 30, 40] 2 = [20, 30, 40, 20, 30, 40, 20, 30, 40]"
    by (simp add: repeat_small_def MAX_SLICE_LEN_def numeral_3_eq_3)
  ultimately show ?thesis
    unfolding drive_parser_like_targets_def parse_header_def h(1) option.case prod.case s option.map
    by (simp add: h(2-5) truncate_by_selector_def append_length_bomb_def)
qed

subsection \<open>The codec target\<close>

text \<open>\<open>fuzz_canonical_codecs.rs\<close>. The encoders that write counts may panic.\<close>

definition fuzz_object_codec :: "bytes \<Rightarrow> unit fuzz" where
  "fuzz_object_codec data =
     (case decode_kyriotes_csk2_object data of Inl _ \<Rightarrow> Inr ()
      | Inr value \<Rightarrow>
          bind_r (expect (ok_or (encode_kyriotes_csk2_object value) ()) ''wrapper count'') (\<lambda>canonical.
          bind_r (fuzz_assert ''accepted object bytes must be canonical'' (canonical = data)) (\<lambda>_.
          bind_r (expect (decode_kyriotes_csk2_object canonical) ''canonical object must decode'') (\<lambda>again.
          bind_r (fuzz_assert ''decoded value'' (again = value)) (\<lambda>_.
          bind_r (fold_r (\<lambda>_ profile.
            (case decode_kyriotes_csk2_object_with_limits canonical (profile_limits profile) of
               Inr profile_value \<Rightarrow> fuzz_assert ''profile value'' (profile_value = value)
             | Inl _ \<Rightarrow> Inr ())) () [Embedded, Strict, Server]) (\<lambda>_.
          fuzz_assert ''trailing object bytes must reject''
            (\<not> is_ok (decode_kyriotes_csk2_object (canonical @ [0])))))))))"

definition fuzz_capability_codec :: "bytes \<Rightarrow> unit fuzz" where
  "fuzz_capability_codec data =
     (case decode_capability data of Inl _ \<Rightarrow> Inr ()
      | Inr value \<Rightarrow>
          let canonical = encode_capability value in
          bind_r (fuzz_assert ''accepted capability bytes must be canonical'' (canonical = data)) (\<lambda>_.
          bind_r (expect (decode_capability canonical) ''canonical capability must decode'') (\<lambda>again.
          bind_r (fuzz_assert ''decoded value'' (again = value)) (\<lambda>_.
          bind_r (expect (decode_capability_with_limits canonical (2 ^ 64 - 1) (2 ^ 64 - 1))
            ''relaxed limits must accept canonical capability'') (\<lambda>relaxed.
          bind_r (fuzz_assert ''relaxed value'' (relaxed = value)) (\<lambda>_.
          fuzz_assert ''trailing capability bytes must reject''
            (\<not> is_ok (decode_capability (canonical @ [0])))))))))"

definition fuzz_threshold_signature_codec :: "bytes \<Rightarrow> unit fuzz" where
  "fuzz_threshold_signature_codec data =
     (case decode_threshold_signature_set data of Inl _ \<Rightarrow> Inr ()
      | Inr value \<Rightarrow>
          bind_r (expect (ok_or (encode_threshold_signature_set value) ()) ''partial count'') (\<lambda>canonical.
          bind_r (fuzz_assert ''accepted threshold-signature bytes must be canonical'' (canonical = data)) (\<lambda>_.
          bind_r (expect (decode_threshold_signature_set canonical)
            ''canonical threshold-signature set must decode'') (\<lambda>decoded.
          bind_r (fuzz_assert ''decoded value'' (encode_threshold_signature_set decoded = Some canonical)) (\<lambda>_.
          bind_r (expect (decode_threshold_signature_set_with_max canonical (length (ts_partials value)))
            ''exact partial limit must accept canonical set'') (\<lambda>exact_limit.
          bind_r (fuzz_assert ''exact value'' (encode_threshold_signature_set exact_limit = Some canonical)) (\<lambda>_.
          fuzz_assert ''trailing threshold-signature bytes must reject''
            (\<not> is_ok (decode_threshold_signature_set (canonical @ [0]))))))))))"

definition fuzz_canonical_codecs :: "bytes \<Rightarrow> fuzz_run" where
  "fuzz_canonical_codecs data0 =
     (let data = bounded data0 in
      outcome (bind_r (returned (fuzz_object_codec data)) (\<lambda>_.
        bind_r (returned (fuzz_capability_codec data)) (\<lambda>_.
        returned (fuzz_threshold_signature_codec data)))))"

lemma object_encoding:
  assumes "decode_kyriotes_csk2_object data = Inr v"
  shows "object_fits default_limits v" "encode_kyriotes_csk2_object v = Some data" "data = MAGIC @ put_object v"
  using assms encode_object_fits [of default_limits v]
  by (auto simp: decode_kyriotes_csk2_object_def decode_object_iff)

lemma object_codec_no_panic: "no_panic (fuzz_object_codec data)"
proof (cases "decode_kyriotes_csk2_object data")
  case (Inr v)
  note o = object_encoding [OF Inr]
  have limits: "decode_kyriotes_csk2_object_with_limits data l = Inr w \<Longrightarrow> w = v" for l w
    using o(1,2) object_encoding_inj [of l w default_limits v] by (simp add: decode_object_iff)
  have "\<not> is_ok (decode_kyriotes_csk2_object (data @ [0]))"
  proof
    assume "is_ok (decode_kyriotes_csk2_object (data @ [0]))"
    then obtain w where "decode_kyriotes_csk2_object (data @ [0]) = Inr w" by (auto simp: is_ok_iff)
    note w = object_encoding [OF this]
    with o(3) have "put_object v @ [0] = put_object w" by simp
    with wire_object.put_no_extension [OF o(1) w(1), of 0 "[]"] show False by simp
  qed
  with Inr o(2) limits show ?thesis
    by (auto simp: fuzz_object_codec_def fuzz_vc fold_r.simps split: sum.splits)
qed (simp add: fuzz_object_codec_def fuzz_vc)

lemma capability_codec_no_panic: "no_panic (fuzz_capability_codec data)"
proof (cases "decode_capability data")
  case (Inr v)
  then have v: "encode_capability v = data" and fits: "\<exists>ms mo. capability_fits ms mo v \<and>
      (\<forall>w. decode_capability w = decode_capability_with_limits w ms mo)"
    by (auto simp: decode_capability_def decode_capability_iff)
  then obtain ms mo where m: "capability_fits ms mo v"
      "\<And>w. decode_capability w = decode_capability_with_limits w ms mo" by blast
  have "capability_fits (2 ^ 64 - 1) (2 ^ 64 - 1) v" using m(1) by (auto simp: capability_fits_def wire_bytes_def)
  then have relaxed: "decode_capability_with_limits data (2 ^ 64 - 1) (2 ^ 64 - 1) = Inr v"
    using v by (simp add: decode_capability_iff)
  have "\<not> is_ok (decode_capability (data @ [0]))"
  proof
    assume "is_ok (decode_capability (data @ [0]))"
    then obtain w where "capability_fits ms mo w" "encode_capability w = data @ [0]"
      by (auto simp: is_ok_iff m(2) decode_capability_iff)
    with wire_capability.put_no_extension [OF m(1), of w 0 "[]"] v show False by simp
  qed
  with Inr v relaxed show ?thesis by (simp add: fuzz_capability_codec_def fuzz_vc)
qed (simp add: fuzz_capability_codec_def fuzz_vc)

lemma signature_codec_no_panic: "no_panic (fuzz_threshold_signature_codec data)"
proof (cases "decode_threshold_signature_set data")
  case (Inr v)
  then obtain m where m: "signature_set_fits m v" "encode_threshold_signature_set v = Some data"
      "\<And>w. decode_threshold_signature_set w = decode_threshold_signature_set_with_max w m"
    by (auto simp: decode_threshold_signature_set_def decode_signature_set_iff)
  have "signature_set_fits (length (ts_partials v)) v" using m(1) by (simp add: signature_set_fits_def)
  then have exact: "decode_threshold_signature_set_with_max data (length (ts_partials v)) = Inr v"
    using m(2) by (simp add: decode_signature_set_iff)
  have "\<not> is_ok (decode_threshold_signature_set (data @ [0]))"
  proof
    assume "is_ok (decode_threshold_signature_set (data @ [0]))"
    then obtain w where w: "signature_set_fits m w" "encode_threshold_signature_set w = Some (data @ [0])"
      by (auto simp: is_ok_iff m(3) decode_signature_set_iff)
    show False
      using signature_set.put_no_extension [OF m(1) w(1), of 0 "[]"] m(2) w(2)
      by (auto simp: encode_threshold_signature_set_def split: if_splits)
  qed
  with Inr m(2) exact show ?thesis by (simp add: fuzz_threshold_signature_codec_def fuzz_vc)
qed (simp add: fuzz_threshold_signature_codec_def fuzz_vc)

lemma canonical_codecs_pass: "fuzz_canonical_codecs data = Passed"
  using object_codec_no_panic capability_codec_no_panic signature_codec_no_panic
  by (simp add: fuzz_canonical_codecs_def outcome_passed fuzz_vc Let_def)

subsection \<open>The transparency state machine\<close>

text \<open>\<open>fuzz_transparency_state_machine.rs\<close>.\<close>

definition MAX_STATES :: nat where "MAX_STATES = 16"

definition offset_seed32 :: "bytes \<Rightarrow> nat \<Rightarrow> byte \<Rightarrow> bytes" where
  "offset_seed32 data offset domain =
     (if offset < length data
      then take (min (length data - offset) 32) (drop offset data) @
        replicate (32 - min (length data - offset) 32) domain
      else replicate 32 domain)"

definition fuzz_authority_id :: "bytes \<Rightarrow> bytes" where
  "fuzz_authority_id data = ascii ''fuzz-authority-'' @ decimal (unat (first_or_zero data))"

definition state_for :: "bytes \<Rightarrow> nat \<Rightarrow> authority_state" where
  "state_for data index =
     \<lparr>st_authority_root = offset_seed32 data (index * 7) 0x11,
      st_revocation_root = offset_seed32 data (index * 11) 0x22,
      st_transparency_root = zeros 32, st_epoch = word_of_nat index,
      st_authority_id = fuzz_authority_id data,
      st_root_pk = offset_seed32 data (index * 13) 0x33,
      st_revocation_count = bytes_to_u64 (drop index data) mod 64,
      st_prev_epoch_hash = offset_seed32 data (index * 17) 0x44\<rparr>"

text \<open>One round of the loop, on the log and the vector of what has been committed.\<close>

definition commit_round ::
    "crypto \<Rightarrow> bytes \<Rightarrow> in_memory_log \<times> (authority_state \<times> transparency_state_commit) list \<Rightarrow> nat \<Rightarrow>
     (in_memory_log \<times> (authority_state \<times> transparency_state_commit) list) fuzz" where
  "commit_round C data = (\<lambda>(log, committed) index.
     let state = state_for data index;
         leaf = transparency_leaf_hash C state;
         before_root = current_root C log;
         (res, log1) = commit_state C log state
     in bind_r (expect res ''fresh authority/epoch pair must commit'') (\<lambda>first.
        bind_r (fuzz_assert ''leaf hash'' (tp_leaf_hash (tc_proof first) = leaf)) (\<lambda>_.
        bind_r (fuzz_assert ''transparency root''
          (st_transparency_root (tc_state first) = current_root C log1)) (\<lambda>_.
        bind_r (expect (proof_for_state C log1 (tc_state first)) ''committed state must have a proof'') (\<lambda>p.
        bind_r (fuzz_assert ''proof'' (p = tc_proof first)) (\<lambda>_.
        let (res2, log2) = commit_state C log1 state
        in bind_r (expect res2 ''identical commit must be idempotent'') (\<lambda>second.
           bind_r (fuzz_assert ''second commit'' (second = first)) (\<lambda>_.
           bind_r (fuzz_assert ''root'' (current_root C log2 = st_transparency_root (tc_state first))) (\<lambda>_.
           bind_r (fuzz_assert ''appending a distinct leaf should change the Merkle root''
             (index > 0 \<longrightarrow> before_root \<noteq> current_root C log2)) (\<lambda>_.
           Inr (log2, committed @ [(state, first)])))))))))))"

definition flip_first :: "bytes \<Rightarrow> bytes" where
  "flip_first bs = bs[0 := bs ! 0 XOR 1]"

definition conflict_round ::
    "crypto \<Rightarrow> bytes \<Rightarrow> nat \<Rightarrow> in_memory_log \<Rightarrow> (authority_state \<times> transparency_state_commit) list \<Rightarrow>
     unit fuzz" where
  "conflict_round C data state_count log committed =
     (let (original, commit) = committed ! (unat (byte_at data 1) mod length committed)
      in bind_r (expect (proof_for_state C log (tc_state commit))
           ''committed state must have a current proof'') (\<lambda>proof_before_conflict.
         let root_before_conflict = current_root C log;
             conflicting = original\<lparr>st_authority_root := flip_first (st_authority_root original)\<rparr>;
             (res, log1) = commit_state C log conflicting
         in bind_r (fuzz_assert ''same authority/epoch with a different leaf must reject'' (\<not> is_ok res)) (\<lambda>_.
            bind_r (expect (proof_for_state C log1 (tc_state commit))
              ''conflict rejection must preserve prior entry'') (\<lambda>p.
            bind_r (fuzz_assert ''proof after conflict'' (p = proof_before_conflict)) (\<lambda>_.
            bind_r (fuzz_assert ''root after conflict'' (current_root C log1 = root_before_conflict)) (\<lambda>_.
            let unknown = original\<lparr>st_epoch := st_epoch original + (word_of_nat state_count + 1)\<rparr>
            in fuzz_assert ''uncommitted authority/epoch must not produce a proof''
                 (\<not> is_ok (proof_for_state C log1 unknown))))))))"

definition fuzz_transparency_state_machine :: "crypto \<Rightarrow> bytes \<Rightarrow> fuzz_run" where
  "fuzz_transparency_state_machine C data0 =
     (let data = bounded data0;
          state_count = unat (first_or_zero data) mod MAX_STATES + 1
      in outcome (bind_r (fold_r (commit_round C data) (log_new, []) [0..<state_count]) (\<lambda>(log, committed).
           conflict_round C data state_count log committed)))"

text \<open>The log after \<open>i\<close> rounds, and what a round finds in it.\<close>

definition rounds_log :: "crypto \<Rightarrow> bytes \<Rightarrow> nat \<Rightarrow> in_memory_log" where
  "rounds_log C data i = \<lparr>lg_entries = map (\<lambda>j. new_entry (state_for data j)
     (transparency_leaf_hash C (state_for data j))) [0..<i]\<rparr>"

lemma position_upt:
  "(\<And>j. j < i \<Longrightarrow> P (f j) \<longleftrightarrow> j = k) \<Longrightarrow> position P (map f [0..<i]) = (if k < i then Some k else None)"
proof (induction i)
  case (Suc i)
  from Suc.IH Suc.prems have "position P (map f [0..<i]) = (if k < i then Some k else None)" by simp
  with Suc.prems [of i] show ?case by (auto simp: position_append)
qed simp

lemma state_for_simps [simp]:
  "st_epoch (state_for data j) = word_of_nat j" "st_transparency_root (state_for data j) = zeros 32"
  "st_authority_id (state_for data j) = fuzz_authority_id data"
  by (simp_all add: state_for_def)

lemma rounds_find_index:
  assumes "i \<le> 2 ^ 64"
  shows "find_index (rounds_log C data i) (fuzz_authority_id data) e =
    (if unat e < i then Some (unat e) else None)"
  unfolding find_index_def rounds_log_def in_memory_log.simps
proof (rule position_upt)
  fix j
  assume "j < i"
  then have "unat (word_of_nat j :: u64) = j" using assms by (intro unat_index) simp
  then show "te_authority_id (new_entry (state_for data j) (transparency_leaf_hash C (state_for data j))) =
        fuzz_authority_id data \<and>
      te_epoch (new_entry (state_for data j) (transparency_leaf_hash C (state_for data j))) = e \<longleftrightarrow> j = unat e"
    by (auto simp: word_unat_eq_iff)
qed

lemma rounds_view:
  assumes "i \<le> 2 ^ 64"
  shows "log_view (rounds_log C data i) (fuzz_authority_id data, e) =
    (if unat e < i then Some (transparency_leaf_hash C (state_for data (unat e))) else None)"
  using rounds_find_index [OF assms, of C data e]
  by (simp add: log_view_find_index) (simp add: rounds_log_def)

lemma rounds_log_Suc:
  "lg_entries (rounds_log C data (Suc i)) = lg_entries (rounds_log C data i) @
     [new_entry (state_for data i) (transparency_leaf_hash C (state_for data i))]"
  by (simp add: rounds_log_def)

lemma rounds_leaves: "leaf_hashes (rounds_log C data i) = map (transparency_leaf_hash C) (map (state_for data) [0..<i])"
  by (simp add: leaf_hashes_def rounds_log_def comp_def)

lemma commit_next_round:
  assumes "i < 2 ^ 64"
  obtains c where "commit_state C (rounds_log C data i) (state_for data i) = (Inr c, rounds_log C data (Suc i))"
    "tc_state c = bind_transparency_root_to_state (state_for data i) (current_root C (rounds_log C data (Suc i)))"
    "proof_for_state C (rounds_log C data (Suc i)) (state_for data i) = Inr (tc_proof c)"
    "tp_leaf_hash (tc_proof c) = transparency_leaf_hash C (state_for data i)"
proof (cases rule: commit_state_cases [of "rounds_log C data i" "state_for data i" C])
  case (committed log' k c)
  have "unat (word_of_nat i :: u64) = i" using assms by (rule unat_index)
  then have none: "log_view (rounds_log C data i) (st_authority_id (state_for data i), st_epoch (state_for data i)) = None"
    using rounds_view [of i C data "word_of_nat i"] assms by simp
  have log': "log' = rounds_log C data (Suc i)"
    using committed(7) none by (simp add: rounds_log_Suc [symmetric] in_memory_log.equality)
  have "proof_for_state C log' (state_for data i) = Inr (tc_proof c)"
    using committed(2,3,5) by (auto simp: proof_for_state_ok)
  moreover have "tp_leaf_hash (tc_proof c) = transparency_leaf_hash C (state_for data i)"
    using committed(3,5) proof_for_index_ok [OF find_index_less [OF committed(2)], of C]
    by (metis Inr_inject transparency_proof.select_convs(1))
  ultimately show thesis using that committed(1,4) by (simp add: log')
next
  case (conflict lh)
  then show thesis
    using rounds_view [of i C data "word_of_nat i"] assms unat_index [OF assms]
    by simp
qed

text \<open>
  The messages a run hashes: the leaves of the committed and of the conflicting states, and the nodes
  of the log's trees.
\<close>

definition conflicting_state :: "authority_state \<Rightarrow> authority_state" where
  "conflicting_state s = s\<lparr>st_authority_root := flip_first (st_authority_root s)\<rparr>"

definition machine_inputs :: "crypto \<Rightarrow> bytes \<Rightarrow> nat \<Rightarrow> bytes set" where
  "machine_inputs C data n =
     transparency_input ` (state_for data ` {..<n} \<union> (\<lambda>j. conflicting_state (state_for data j)) ` {..<n}) \<union>
     (\<Union>k \<in> {..n}. log_inputs C (map (state_for data) [0..<k]))"

definition rounds_inv ::
    "crypto \<Rightarrow> bytes \<Rightarrow> nat \<Rightarrow> in_memory_log \<times> (authority_state \<times> transparency_state_commit) list \<Rightarrow> bool" where
  "rounds_inv C data i = (\<lambda>(log, committed). log = rounds_log C data i \<and> length committed = i \<and>
     (\<forall>j < i. fst (committed ! j) = state_for data j \<and>
        (\<exists>r. tc_state (snd (committed ! j)) = bind_transparency_root_to_state (state_for data j) r)))"

lemma proof_for_state_bind [simp]:
  "proof_for_state C log (bind_transparency_root_to_state s r) = proof_for_state C log s"
  by (simp add: proof_for_state_def)

lemma sha_safe_mono: "sha_safe C M \<Longrightarrow> N \<subseteq> M \<Longrightarrow> sha_safe C N"
  unfolding sha_safe_def by (blast intro: inj_on_subset)

lemma rounds_root_changes:
  assumes "sha_safe C (machine_inputs C data n)" "sha_32 C" "i < n"
  shows "current_root C (rounds_log C data i) \<noteq> current_root C (rounds_log C data (Suc i))"
proof
  assume eq: "current_root C (rounds_log C data i) = current_root C (rounds_log C data (Suc i))"
  let ?s = "\<lambda>k. map (state_for data) [0..<k]"
  have "log_inputs C (?s i) \<union> log_inputs C (?s (Suc i)) \<subseteq> machine_inputs C data n"
    using assms(3) unfolding machine_inputs_def by (intro le_supI2 Un_least UN_upper) auto
  then have "sha_safe C (log_inputs C (?s i) \<union> log_inputs C (?s (Suc i)))"
    by (rule sha_safe_mono [OF assms(1)])
  from log_root_commits [OF _ this assms(2)] eq
  have "map transparency_input (?s i) = map transparency_input (?s (Suc i))"
    by (simp only: current_root_def rounds_leaves)
  from arg_cong [where f = length, OF this] show False by simp
qed

lemma commit_round_ok:
  assumes "sha_safe C (machine_inputs C data n)" "sha_32 C" "n \<le> 16" "i < n" "rounds_inv C data i s"
  shows "no_panic (commit_round C data s i) \<and>
    (\<forall>s'. commit_round C data s i = Inr s' \<longrightarrow> rounds_inv C data (Suc i) s')"
proof -
  obtain committed where s: "s = (rounds_log C data i, committed)" "length committed = i"
      "\<And>j. j < i \<Longrightarrow> fst (committed ! j) = state_for data j \<and>
        (\<exists>r. tc_state (snd (committed ! j)) = bind_transparency_root_to_state (state_for data j) r)"
    using assms(5) by (cases s) (auto simp: rounds_inv_def)
  have "i < 2 ^ 64" using assms(3,4) by simp
  then obtain c where c: "commit_state C (rounds_log C data i) (state_for data i) = (Inr c, rounds_log C data (Suc i))"
    "tc_state c = bind_transparency_root_to_state (state_for data i) (current_root C (rounds_log C data (Suc i)))"
    "proof_for_state C (rounds_log C data (Suc i)) (state_for data i) = Inr (tc_proof c)"
    "tp_leaf_hash (tc_proof c) = transparency_leaf_hash C (state_for data i)"
    by (rule commit_next_round)
  note again = commit_idempotent [OF c(1)]
  note root = rounds_root_changes [OF assms(1,2,4)]
  have run: "commit_round C data s i = Inr (rounds_log C data (Suc i), committed @ [(state_for data i, c)])"
    by (simp add: commit_round_def s(1) c again root fuzz_assert_def expect_def)
  then have "rounds_inv C data (Suc i) (rounds_log C data (Suc i), committed @ [(state_for data i, c)])"
    using s(2,3) c(2) by (auto simp: rounds_inv_def nth_append less_Suc_eq)
  with run show ?thesis by (simp add: fuzz_vc)
qed

lemma flip_first_neq: "bs \<noteq> [] \<Longrightarrow> flip_first bs \<noteq> bs"
proof
  assume "bs \<noteq> []" "flip_first bs = bs"
  then have "bs ! 0 XOR 1 = bs ! 0" by (metis flip_first_def length_greater_0_conv nth_list_update_eq)
  then have "(bs ! 0 XOR 1) XOR bs ! 0 = bs ! 0 XOR bs ! 0" by simp
  then show False by (simp add: xor.assoc xor.left_commute)
qed

lemma length_flip_first [simp]: "length (flip_first bs) = length bs"
  by (simp add: flip_first_def)

lemma offset_seed32_length [simp]: "length (offset_seed32 data k d) = 32"
  by (simp add: offset_seed32_def)

lemma decimal_bytes: "length (decimal n) \<le> Suc n \<and> (\<forall>b \<in> set (decimal n). b < 0x80)"
proof (induction n rule: decimal.induct)
  case (1 n)
  have digit: "(0x30 :: byte) + word_of_nat d < 0x80" if "d < 10" for d
  proof -
    have "d \<in> {0, 1, 2, 3, 4, 5, 6, 7, 8, 9}" using that by auto
    then show ?thesis by auto
  qed
  show ?case
  proof (cases "n < 10")
    case True
    then show ?thesis using digit by (simp add: decimal.simps [of n])
  next
    case False
    then have "length (decimal (n div 10)) \<le> Suc (n div 10)" "\<forall>b \<in> set (decimal (n div 10)). b < 0x80"
      using 1 by auto
    with False digit show ?thesis by (subst (1 2) decimal.simps) (auto simp: le_div_geq)
  qed
qed

lemma fuzz_authority_id_wf: "wf_str (fuzz_authority_id data)"
proof -
  have "unat (first_or_zero data) < 256" using unsigned_less [of "first_or_zero data"] by simp
  then have "length (decimal (unat (first_or_zero data))) \<le> 256"
    using decimal_bytes [of "unat (first_or_zero data)"] by linarith
  moreover have "utf8_valid (fuzz_authority_id data)"
    using decimal_bytes by (intro utf8_valid_ascii) (auto simp: fuzz_authority_id_def ascii_def)
  ultimately show ?thesis by (simp add: wf_str_def fuzz_authority_id_def ascii_def)
qed

lemma state_for_wf: "wf_state (state_for data j)" "wf_state (conflicting_state (state_for data j))"
  using fuzz_authority_id_wf by (simp_all add: wf_state_def conflicting_state_def state_for_def)

lemma conflict_round_ok:
  assumes "sha_safe C (machine_inputs C data n)" "0 < n" "n \<le> 16" "rounds_inv C data n (log, committed)"
  shows "no_panic (conflict_round C data n log committed)"
proof -
  let ?j = "unat (byte_at data 1) mod length committed"
  have len: "length committed = n" and log: "log = rounds_log C data n" using assms(4) by (auto simp: rounds_inv_def)
  have j: "?j < n" using len assms(2) by simp
  obtain r commit where cj: "committed ! ?j = (state_for data ?j, commit)"
      "tc_state commit = bind_transparency_root_to_state (state_for data ?j) r"
    using assms(4) j by (cases "committed ! ?j") (auto simp: rounds_inv_def)
  have n: "n \<le> 2 ^ 64" and uj: "unat (word_of_nat ?j :: u64) = ?j"
    using assms(3) j by (simp_all add: unat_index del: unat_of_nat)
  note view = rounds_view [OF n, of C data]
  have "is_ok (proof_for_state C log (state_for data ?j))"
    unfolding provable_iff_view log using view [of "word_of_nat ?j"] uj j by simp
  then obtain p where p: "proof_for_state C log (state_for data ?j) = Inr p" by (auto simp: is_ok_iff)
  have "transparency_input (conflicting_state (state_for data ?j)) \<noteq> transparency_input (state_for data ?j)"
    using transparency_input_inj [OF state_for_wf(2) [of data ?j] state_for_wf(1) [of data ?j]]
      flip_first_neq [of "st_authority_root (state_for data ?j)"]
    by (auto simp: conflicting_state_def state_for_def offset_seed32_def)
  moreover have "inj_on (sha256 C) (machine_inputs C data n)" using assms(1) by (simp add: sha_safe_def)
  ultimately have differ: "transparency_leaf_hash C (conflicting_state (state_for data ?j)) \<noteq>
      transparency_leaf_hash C (state_for data ?j)"
    unfolding transparency_leaf_input using j by (auto simp: machine_inputs_def dest: inj_onD)
  have conflict: "\<exists>e. commit_state C log (conflicting_state (state_for data ?j)) = (Inl e, log)"
    using view [of "word_of_nat ?j"] uj j differ
    by (cases rule: commit_state_cases [of log "conflicting_state (state_for data ?j)" C])
      (auto simp: log conflicting_state_def)
  have "unat (word_of_nat ?j + (word_of_nat n + 1) :: u64) = ?j + n + 1"
    using uj j assms(3) unat_index [of n] by (simp add: unat_word_ariths)
  then have unknown: "\<not> is_ok (proof_for_state C log
      ((state_for data ?j)\<lparr>st_epoch := word_of_nat ?j + (word_of_nat n + 1)\<rparr>))"
    unfolding provable_iff_view log using view [of "word_of_nat ?j + (word_of_nat n + 1)"] by simp
  show ?thesis
    using conflict p unknown cj
    by (auto simp: conflict_round_def conflicting_state_def [symmetric] fuzz_vc)
qed

lemma state_machine_passes:
  fixes data
  defines "n \<equiv> unat (first_or_zero (bounded data)) mod 16 + 1"
  assumes "sha_safe C (machine_inputs C (bounded data) n)" "sha_32 C"
  shows "fuzz_transparency_state_machine C data = Passed"
proof -
  have n: "0 < n" "n \<le> 16"
    using mod_less_divisor [of 16 "unat (first_or_zero (bounded data))"] unfolding n_def by linarith+
  let ?d = "bounded data"
  let ?run = "fold_r (commit_round C ?d) (log_new, []) [0..<n]"
  have run: "no_panic ?run \<and> (\<forall>s'. ?run = Inr s' \<longrightarrow> rounds_inv C ?d (length [0..<n]) s')"
  proof (rule no_panic_fold)
    fix i s
    assume "i < length [0..<n]" "rounds_inv C ?d i s"
    then show "no_panic (commit_round C ?d s ([0..<n] ! i)) \<and>
        (\<forall>s'. commit_round C ?d s ([0..<n] ! i) = Inr s' \<longrightarrow> rounds_inv C ?d (Suc i) s')"
      using commit_round_ok [OF assms(2,3) n(2), of i s] by simp
  next
    show "rounds_inv C ?d 0 (log_new, [])" by (simp add: rounds_inv_def rounds_log_def log_new_def)
  qed
  have "no_panic (case v of (log, committed) \<Rightarrow> conflict_round C ?d n log committed)" if "?run = Inr v" for v
    using run that conflict_round_ok [OF assms(2) n] by (cases v) simp
  with run have "no_panic (bind_r ?run (\<lambda>(log, committed). conflict_round C ?d n log committed))"
    unfolding no_panic_bind by blast
  then show ?thesis
    by (simp add: fuzz_transparency_state_machine_def outcome_passed Let_def MAX_STATES_def n_def)
qed

end
