(* ===== verification/Csk2_Fuzz_Delegation.thy ===== *)
theory Csk2_Fuzz_Delegation
  imports Csk2_Fuzz Csk2_Lifecycle
begin

text \<open>
  What the semantic fuzz targets share (the fixtures each of them has a copy of), and the delegation
  target, \<open>fuzz_delegation_chain_semantic.rs\<close>. The generator \<open>StdRng::from_seed\<close> is a parameter that turns
  a seed into a tape; the calls that draw from the operating system get the tapes \<open>os 0\<close>, \<open>os 1\<close>, ...
  The fuzz crate enables \<open>insecure-stub-verifier\<close> and is built with overflow checks, so an unsigned
  subtraction that would wrap panics.
\<close>

subsection \<open>Fixtures\<close>

definition saturating_sub :: "u64 \<Rightarrow> u64 \<Rightarrow> u64" where
  "saturating_sub a b = (if b \<le> a then a - b else 0)"

definition fuzz_capability ::
    "string \<Rightarrow> string \<Rightarrow> byte \<Rightarrow> rights \<Rightarrow> u64 \<Rightarrow> bytes \<Rightarrow> bytes \<Rightarrow> capability" where
  "fuzz_capability subject object_prefix domain rights epoch_end data policy_hash =
     \<lparr>cap_version = 1, cap_subject = ascii subject,
      cap_object_id = ascii object_prefix @ hex16 (bytes_to_u64 data),
      cap_rights = rights, cap_policy_hash = policy_hash, cap_epoch_start = 1,
      cap_epoch_end = epoch_end, cap_delegation_depth = 0, cap_parent_stamp = zeros 32,
      cap_nonce = take 16 (deterministic_seed32 (drop 8 data) domain)\<rparr>"

definition build_state ::
    "crypto \<Rightarrow> authority_capability_tree \<Rightarrow> bytes \<Rightarrow> bytes \<Rightarrow> u64 \<Rightarrow> bytes \<Rightarrow> authority_state" where
  "build_state C tree root_pk authority_id epoch prev_epoch_hash =
     \<lparr>st_authority_root = tree_authority_root C tree, st_revocation_root = tree_revocation_root C tree,
      st_transparency_root = zeros 32, st_epoch = epoch, st_authority_id = authority_id,
      st_root_pk = root_pk, st_revocation_count = tree_revocation_count tree,
      st_prev_epoch_hash = prev_epoch_hash\<rparr>"

definition fuzz_policy :: "crypto \<Rightarrow> string \<Rightarrow> bytes \<Rightarrow> bytes" where
  "fuzz_policy C prefix data = hash_policy C (ascii prefix @ hex16 (bytes_to_u64 data))"

definition fuzz_id :: "string \<Rightarrow> bytes \<Rightarrow> bytes" where
  "fuzz_id prefix data = ascii prefix @ decimal (unat (first_or_zero data))"

definition build_capability_proof ::
    "crypto \<Rightarrow> authority_capability_tree \<Rightarrow> capability \<Rightarrow> capability_issuance_proof \<Rightarrow> authority_state \<Rightarrow>
     capability_proof option" where
  "build_capability_proof C tree cap issuance state =
     (case (inclusion_proof C tree cap, tree_non_revocation_witness C tree (capability_stamp C cap state)) of
        (Some incl, Inr nr) \<Rightarrow> Some \<lparr>cp_inclusion = incl, cp_non_revocation = nr, cp_issuance = issuance\<rparr>
      | _ \<Rightarrow> None)"

definition request_for :: "capability \<Rightarrow> bytes \<Rightarrow> u64 \<Rightarrow> open_request" where
  "request_for cap policy_hash epoch = \<lparr>rq_object_id = cap_object_id cap, rq_required_rights = READ,
     rq_policy_hash = policy_hash, rq_epoch = epoch\<rparr>"

text \<open>An object that was sealed for \<open>Current\<close> verifies and opens under the state it was sealed under.\<close>

context authority_verifier
begin

lemma sealed_current:
  assumes "crypto_correct C" "keys_match C pk sk"
    and "seal_with_verifier C rng os verify_state pk m cap proof tp s req Current = Inr object"
  shows "verify_with_verifier C verify_state object cap proof s tp = Inr ()"
    "open_with_verifier C verify_state sk object cap proof s = Inr m"
proof -
  obtain v where v: "verify_state s tp = Inr v"
      "seal_verified C rng os pk m cap proof tp v req Current = Inr object"
    using assms(3) by (auto simp: seal_with_verifier_def bind_r_eq_Inr)
  then show "verify_with_verifier C verify_state object cap proof s tp = Inr ()"
    using sealed_verifies [OF v(2)] by (simp add: verify_with_verifier_def openable_epoch_simps)
  show "open_with_verifier C verify_state sk object cap proof s = Inr m"
    by (rule seal_open_roundtrip [OF assms]) (simp add: openable_epoch_simps)
qed

end

subsection \<open>The delegation target\<close>

definition is_invalid_capability :: "csk2_error \<Rightarrow> bool" where
  "is_invalid_capability e = (case e of InvalidCapability _ \<Rightarrow> True | _ \<Rightarrow> False)"

type_synonym delegation_state = "authority_capability_tree \<times> capability \<times> authority_state \<times> rng"

text \<open>The refused delegations: \<open>expect_err\<close> and the check of the error's kind.\<close>

definition must_reject :: "string \<Rightarrow> capability result \<times> rng \<Rightarrow> rng fuzz" where
  "must_reject msg r =
     bind_r (expect_err (fst r) msg) (\<lambda>err.
     bind_r (fuzz_assert ''InvalidCapability'' (is_invalid_capability err)) (\<lambda>_. Inr (snd r)))"

definition delegation_step ::
    "crypto \<Rightarrow> bytes \<Rightarrow> delegation_state \<Rightarrow> byte \<Rightarrow> delegation_state fuzz" where
  "delegation_step C root_pk = (\<lambda>(tree, active_cap, state, rng) selector.
     if unat selector mod 5 = 0 then
       let window = saturating_sub (cap_epoch_end active_cap) (cap_epoch_start active_cap);
           start = saturating_add (cap_epoch_start active_cap)
             (min (ucast selector mod saturating_add window 1) window)
       in bind_r (fuzz_assert ''attempt to subtract with overflow'' (start \<le> cap_epoch_end active_cap)) (\<lambda>_.
          let end = saturating_add start (min (ucast selector mod 8) (cap_epoch_end active_cap - start));
              requested_rights = (if selector AND 1 = 0 then rights_union READ DELEGATE else READ)
          in case delegate_capability C active_cap state (ascii ''delegated-subject'') requested_rights
                 start end rng of
               (Inr next_cap, rng') \<Rightarrow>
                 let tree' = snd (add_capability C tree next_cap)
                 in Inr (tree', next_cap, build_state C tree' root_pk (st_authority_id state) (st_epoch state)
                      (zeros 32), rng')
             | (Inl _, rng') \<Rightarrow> Inr (tree, active_cap, state, rng'))
     else
       bind_r
         (if unat selector mod 5 = 1 then must_reject ''rights escalation must reject''
            (delegate_capability C active_cap state (ascii ''escalation'')
              (rights_union (cap_rights active_cap) WRITE) (cap_epoch_start active_cap)
              (cap_epoch_end active_cap) rng)
          else if unat selector mod 5 = 2 then must_reject ''epoch expansion must reject''
            (delegate_capability C active_cap state (ascii ''window-expansion'') READ
              (saturating_sub (cap_epoch_start active_cap) 1) (saturating_add (cap_epoch_end active_cap) 1) rng)
          else if unat selector mod 5 = 3 then must_reject ''inverted window must reject''
            (delegate_capability C active_cap state (ascii ''inverted-window'') READ
              (cap_epoch_end active_cap) (cap_epoch_start active_cap) rng)
          else must_reject ''depth overflow must reject''
            (delegate_capability C (active_cap\<lparr>cap_delegation_depth := MAX_DELEGATION_DEPTH\<rparr>) state
              (ascii ''depth-overflow'') READ (cap_epoch_start active_cap) (cap_epoch_end active_cap) rng))
         (\<lambda>rng'. Inr (tree, active_cap, state, rng')))"

definition delegation_finish ::
    "crypto \<Rightarrow> (nat \<Rightarrow> rng) \<Rightarrow> bytes \<Rightarrow> bytes \<Rightarrow> epoch_signing_key_pair \<Rightarrow> epoch_key_cert \<Rightarrow> bytes \<Rightarrow>
     delegation_state \<Rightarrow> unit fuzz" where
  "delegation_finish C os data policy_hash epoch_kp epoch_cert root_pk = (\<lambda>(tree, active_cap, state, rng).
     let (res, tree) = issue_capability C tree active_cap epoch_kp epoch_cert
     in bind_r (or_return res) (\<lambda>issuance.
        let state = build_state C tree root_pk (st_authority_id state) (st_epoch state) (zeros 32)
        in bind_r (or_return (fst (commit_state C log_new state))) (\<lambda>commit.
        bind_r (or_return (ok_or (build_capability_proof C tree active_cap issuance (tc_state commit)) ())) (\<lambda>proof.
        let request = request_for active_cap policy_hash (st_epoch (tc_state commit));
            (recipient, rng') = recipient_generate C rng
        in bind_r (or_return (seal_with_verifier C (os 0) (os 1) (stub_verify_state C) (kp_public recipient) data
             active_cap proof (tc_proof commit) (tc_state commit) request Current)) (\<lambda>object.
        bind_r (fuzz_assert ''verify'' (is_ok (verify_with_verifier C (stub_verify_state C) object active_cap proof
          (tc_state commit) (tc_proof commit)))) (\<lambda>_.
        bind_r (expect (open_with_verifier C (stub_verify_state C) (kp_secret recipient) object active_cap proof
          (tc_state commit)) ''valid delegated capability should open'') (\<lambda>opened.
        bind_r (fuzz_assert ''opened'' (opened = data)) (\<lambda>_.
        bind_r (if cap_delegation_depth active_cap > 0 then
            fuzz_assert ''tampered parent'' (\<not> is_ok (verify_with_verifier C (stub_verify_state C) object
              (active_cap\<lparr>cap_parent_stamp := zeros 32\<rparr>) proof (tc_state commit) (tc_proof commit)))
          else Inr ()) (\<lambda>_.
        fuzz_assert ''tampered direct'' (\<not> is_ok (verify_with_verifier C (stub_verify_state C) object
          (active_cap\<lparr>cap_delegation_depth := 0, cap_parent_stamp := capability_leaf_hash C active_cap\<rparr>)
          proof (tc_state commit) (tc_proof commit))))))))))))"

definition fuzz_delegation_chain_semantic :: "crypto \<Rightarrow> (bytes \<Rightarrow> rng) \<Rightarrow> (nat \<Rightarrow> rng) \<Rightarrow> bytes \<Rightarrow> fuzz_run" where
  "fuzz_delegation_chain_semantic C std_rng os data0 =
     (let data = bounded data0;
          rng = std_rng (deterministic_seed32 data 0x19);
          root_kp = root_from_seed (deterministic_seed32 (drop 1 data) 0x29);
          epoch_kp = epoch_from_seed (deterministic_seed32 (drop 3 data) 0x39);
          policy_hash = fuzz_policy C ''delegation-chain-policy-'' (drop 6 data);
          active_cap = fuzz_capability ''delegation-root'' ''delegation-chain-object-'' 0x71
            (rights_union (rights_union READ DECRYPT) DELEGATE) 512 data policy_hash;
          tree = snd (add_capability C tree_new active_cap);
          root_pk = root_verifying_key_bytes C root_kp;
          state = build_state C tree root_pk (fuzz_id ''delegation-fuzz-auth-'' data) 5 (zeros 32);
          epoch_cert = issue_epoch_cert C root_kp (epoch_verifying_key_bytes C epoch_kp) (st_epoch state) 1024
      in outcome (bind_r (fold_r (delegation_step C root_pk) (tree, active_cap, state, rng)
             (take MAX_STATEFUL_STRESS_STEPS (drop 12 data)))
           (delegation_finish C os data policy_hash epoch_kp epoch_cert root_pk)))"

text \<open>
  What the loop keeps of the active capability: no right beyond those of the root capability, and a
  window that is not empty, starts after epoch 0 and ends by epoch 512.
\<close>

definition chain_cap :: "capability \<Rightarrow> bool" where
  "chain_cap cap \<longleftrightarrow> contains_all (rights_union (rights_union READ DECRYPT) DELEGATE) (cap_rights cap) \<and>
     1 \<le> cap_epoch_start cap \<and> cap_epoch_start cap \<le> cap_epoch_end cap \<and> cap_epoch_end cap \<le> 512"

lemma delegate_err_kind:
  "fst (delegate_capability C p s subj r a b rng) = Inl e \<Longrightarrow> is_invalid_capability e"
  by (auto simp: delegate_capability_def is_invalid_capability_def Let_def split: if_splits prod.splits)

lemma must_reject_ok:
  assumes "\<not> is_ok (fst (delegate_capability C p s subj r a b rng))"
  shows "must_reject msg (delegate_capability C p s subj r a b rng) =
    Inr (snd (delegate_capability C p s subj r a b rng))"
proof -
  obtain e where e: "fst (delegate_capability C p s subj r a b rng) = Inl e"
    using assms by (cases "fst (delegate_capability C p s subj r a b rng)") auto
  then show ?thesis using delegate_err_kind [OF e] by (simp add: must_reject_def expect_err_def fuzz_assert_def)
qed

lemma delegate_ok_iff:
  "is_ok (fst (delegate_capability C p s subj r a b rng)) \<longleftrightarrow>
     contains_all (cap_rights p) DELEGATE \<and> contains_all (cap_rights p) r \<and>
     cap_epoch_start p \<le> a \<and> b \<le> cap_epoch_end p \<and> a \<le> b \<and> cap_delegation_depth p < MAX_DELEGATION_DEPTH"
  by (auto simp: delegate_capability_def Let_def not_less not_le split: prod.splits)

lemma write_outside:
  assumes "chain_cap cap"
  shows "\<not> contains_all (cap_rights cap) (rights_union (cap_rights cap) WRITE)"
proof
  assume "contains_all (cap_rights cap) (rights_union (cap_rights cap) WRITE)"
  moreover have "1 \<in> right_set WRITE" by (simp add: right_set_def WRITE_def bit_double_iff [of 1, simplified])
  ultimately have "1 \<in> right_set (cap_rights cap)" by (auto simp: contains_all_subset right_set_union)
  then have "1 \<in> right_set (rights_union (rights_union READ DECRYPT) DELEGATE)"
    using assms by (auto simp: chain_cap_def contains_all_subset)
  then show False
    unfolding right_set_union by (auto simp: right_set_def READ_def DECRYPT_def DELEGATE_def bit_push_bit_iff bit_1_iff)
qed

text \<open>
  The loop as an automaton on two values, the length of the active window and whether the capability may
  be delegated: does a step that swaps the ends of the window meet a window of one epoch?
\<close>

fun inverts :: "nat \<Rightarrow> bool \<Rightarrow> nat list \<Rightarrow> bool" where
  "inverts window delegable [] = False"
| "inverts window delegable (sel # sels) =
     (if sel mod 5 = 0 \<and> delegable
      then inverts (min (sel mod 8) (window - sel mod (window + 1))) (even sel) sels
      else sel mod 5 = 3 \<and> delegable \<and> window = 0 \<or> inverts window delegable sels)"

definition chain_view :: "capability \<Rightarrow> nat \<Rightarrow> bool \<Rightarrow> bool" where
  "chain_view cap window delegable \<longleftrightarrow> chain_cap cap \<and> contains_all (cap_rights cap) READ \<and>
     window = unat (cap_epoch_end cap) - unat (cap_epoch_start cap) \<and> delegable = contains_all (cap_rights cap) DELEGATE"

lemma delegated_window:
  fixes sel :: byte
  assumes "chain_cap cap"
  defines "w \<equiv> saturating_sub (cap_epoch_end cap) (cap_epoch_start cap)"
  defines "a \<equiv> saturating_add (cap_epoch_start cap) (min (ucast sel mod saturating_add w 1) w)"
  defines "b \<equiv> saturating_add a (min (ucast sel mod 8) (cap_epoch_end cap - a))"
  defines "n \<equiv> unat (cap_epoch_end cap) - unat (cap_epoch_start cap)"
  shows "cap_epoch_start cap \<le> a" "a \<le> cap_epoch_end cap" "a \<le> b" "b \<le> cap_epoch_end cap"
    "unat b - unat a = min (unat sel mod 8) (n - unat sel mod (n + 1))"
proof -
  have le: "unat (cap_epoch_start cap) \<le> unat (cap_epoch_end cap)" "unat (cap_epoch_end cap) \<le> 512"
    using assms(1) by (auto simp: chain_cap_def word_le_nat_alt)
  have sel: "unat (ucast sel :: u64) = unat sel" by transfer simp
  have w: "unat w = n" using assms(1) by (simp add: w_def n_def saturating_sub_def chain_cap_def unat_sub)
  then have "unat (saturating_add w 1) = n + 1" using le by (simp add: unat_saturating_add n_def)
  then have m: "unat (ucast sel mod saturating_add w 1) = unat sel mod (n + 1)" by (simp add: unat_mod sel)
  define k where "k = unat sel mod (n + 1)"
  have k: "k \<le> n" using mod_less_divisor [of "n + 1" "unat sel"] by (simp add: k_def)
  have "unat (min (ucast sel mod saturating_add w 1) w) = k" using m w k by (simp add: min_def word_le_nat_alt k_def)
  moreover have top: "unat (cap_epoch_start cap) + k \<le> unat (cap_epoch_end cap)" using k le(1) by (simp add: n_def)
  ultimately have a: "unat a = unat (cap_epoch_start cap) + k" using le(2) by (simp add: a_def unat_saturating_add)
  then have "unat (min (ucast sel mod 8) (cap_epoch_end cap - a)) = min (unat sel mod 8) (unat (cap_epoch_end cap) - unat a)"
    using top by (simp add: min_def word_le_nat_alt unat_sub unat_mod sel)
  then have b: "unat b = unat a + min (unat sel mod 8) (unat (cap_epoch_end cap) - unat a)"
    using top a le(2) by (simp add: b_def unat_saturating_add)
  show "cap_epoch_start cap \<le> a" "a \<le> cap_epoch_end cap" "a \<le> b" "b \<le> cap_epoch_end cap"
    using a b top by (auto simp: word_le_nat_alt)
  have "unat b - unat a = min (unat sel mod 8) (unat (cap_epoch_end cap) - unat a)" using b by simp
  also have "unat (cap_epoch_end cap) - unat a = n - k" using a by (simp add: n_def)
  finally show "unat b - unat a = min (unat sel mod 8) (n - unat sel mod (n + 1))" by (simp only: k_def)
qed

lemma delegation_step_window:
  fixes sel :: byte
  assumes "chain_view cap window delegable" "unat (cap_delegation_depth cap) < 255"
  shows "if unat sel mod 5 = 3 \<and> delegable \<and> window = 0
    then delegation_step C pk (tree, cap, state, rng) sel = Inl (Panicked ''inverted window must reject'')
    else \<exists>tree' cap' state' rng'. delegation_step C pk (tree, cap, state, rng) sel = Inr (tree', cap', state', rng') \<and>
      unat (cap_delegation_depth cap') \<le> Suc (unat (cap_delegation_depth cap)) \<and>
      (if unat sel mod 5 = 0 \<and> delegable
       then chain_view cap' (min (unat sel mod 8) (window - unat sel mod (window + 1))) (even (unat sel))
       else chain_view cap' window delegable)"
proof (cases "unat sel mod 5 = 0")
  case False
  have c: "chain_cap cap" and read: "contains_all (cap_rights cap) READ" using assms(1) by (simp_all add: chain_view_def)
  have depth: "cap_delegation_depth cap < MAX_DELEGATION_DEPTH"
    using assms(2) by (simp add: MAX_DELEGATION_DEPTH_def word_less_nat_alt)
  have "\<not> is_ok (fst (delegate_capability C cap state subj (rights_union (cap_rights cap) WRITE) a b rng))" for subj a b
    using write_outside [OF c] by (simp add: delegate_ok_iff)
  moreover have "\<not> is_ok (fst (delegate_capability C cap state subj r (saturating_sub (cap_epoch_start cap) 1) b rng))" for subj r b
    using c by (auto simp: delegate_ok_iff saturating_sub_def chain_cap_def word_le_nat_alt unat_sub)
  moreover have "\<not> is_ok (fst (delegate_capability C (cap\<lparr>cap_delegation_depth := MAX_DELEGATION_DEPTH\<rparr>) state subj r a b rng))" for subj r a b
    by (simp add: delegate_ok_iff)
  moreover have inv: "is_ok (fst (delegate_capability C cap state subj READ (cap_epoch_end cap) (cap_epoch_start cap) rng)) \<longleftrightarrow>
      delegable \<and> window = 0" for subj
    using assms(1) read depth by (auto simp: delegate_ok_iff chain_view_def chain_cap_def word_le_nat_alt)
  moreover have "must_reject msg r = Inl (Panicked msg)" if "is_ok (fst r)" for msg and r :: "capability result \<times> rng"
    using that by (cases "fst r") (auto simp: must_reject_def expect_err_def)
  ultimately show ?thesis
    using False assms by (auto simp: delegation_step_def must_reject_ok)
next
  case True
  let ?w = "saturating_sub (cap_epoch_end cap) (cap_epoch_start cap)"
  let ?a = "saturating_add (cap_epoch_start cap) (min (ucast sel mod saturating_add ?w 1) ?w)"
  let ?b = "saturating_add ?a (min (ucast sel mod 8) (cap_epoch_end cap - ?a))"
  let ?r = "if sel AND 1 = 0 then rights_union READ DELEGATE else READ"
  let ?d = "delegate_capability C cap state (ascii ''delegated-subject'') ?r ?a ?b rng"
  have c: "chain_cap cap" and read: "contains_all (cap_rights cap) READ" and dl: "delegable = contains_all (cap_rights cap) DELEGATE"
    using assms(1) by (simp_all add: chain_view_def)
  note win = delegated_window [OF c, of sel]
  have ok: "is_ok (fst ?d) \<longleftrightarrow> delegable"
    using win(1-4) read assms(2) by (auto simp: delegate_ok_iff dl MAX_DELEGATION_DEPTH_def word_less_nat_alt contains_all_subset right_set_union)
  show ?thesis
  proof (cases "fst ?d")
    case (Inl e)
    then have "delegation_step C pk (tree, cap, state, rng) sel = Inr (tree, cap, state, snd ?d)"
      using True win(2) by (cases ?d) (simp add: delegation_step_def fuzz_assert_def Let_def)
    with assms(1) ok Inl True show ?thesis by auto
  next
    case (Inr cap')
    then obtain rng1 where d: "?d = (Inr cap', rng1)" by (metis prod.collapse)
    note f = delegate_capability_ok [OF d]
    have w': "cap_epoch_start cap' = ?a" "cap_epoch_end cap' = ?b"
      using d by (auto simp: delegate_capability_def Let_def split: if_splits prod.splits)
    have even: "sel AND 1 = 0 \<longleftrightarrow> even (unat sel)" by (simp add: and_one_eq word_unat_eq_iff unat_mod_distrib even_iff_mod_2_eq_zero)
    have "contains_all (rights_union READ DELEGATE) READ" "contains_all (rights_union READ DELEGATE) DELEGATE" "contains_all READ READ" "\<not> contains_all READ DELEGATE"
      by code_simp+
    moreover have "chain_cap cap'"
      using c f(2-6) by (auto simp: chain_cap_def intro: contains_all_trans order_trans)
    ultimately have "chain_view cap' (min (unat sel mod 8) (window - unat sel mod (window + 1))) (even (unat sel))"
      using win(5) assms(1) f(3) even by (simp add: chain_view_def w')
    moreover have "\<exists>tree' state' rng'. delegation_step C pk (tree, cap, state, rng) sel = Inr (tree', cap', state', rng')"
      using True win(2) d by (simp add: delegation_step_def fuzz_assert_def Let_def)
    ultimately show ?thesis using True ok Inr f(12) by auto
  qed
qed


lemma verify_needs_parent:
  assumes "is_ok (verify_with_verifier C V object cap proof s tp)"
  shows "parent_stamp_ok cap"
  using assms
  by (auto simp: is_ok_iff verify_with_verifier_def bind_r_eq_Inr verify_verified_ok validate_capability_ok
      issued_and_included_def)

lemma delegation_loop:
  fixes sels :: "byte list"
  assumes "chain_view cap window delegable" "unat (cap_delegation_depth cap) + length sels < 255"
  shows "if inverts window delegable (map unat sels)
    then fold_r (delegation_step C pk) (tree, cap, state, rng) sels = Inl (Panicked ''inverted window must reject'')
    else \<exists>st. fold_r (delegation_step C pk) (tree, cap, state, rng) sels = Inr st"
  using assms
proof (induction sels arbitrary: tree cap state rng window delegable)
  case (Cons sel sels)
  show ?case
  proof (cases "unat sel mod 5 = 3 \<and> delegable \<and> window = 0")
    case True
    then show ?thesis
      using delegation_step_window [OF Cons.prems(1), of sel C pk tree state rng] Cons.prems(2) by simp
  next
    case False
    obtain tree' cap' state' rng' where
      step: "delegation_step C pk (tree, cap, state, rng) sel = Inr (tree', cap', state', rng')"
        "unat (cap_delegation_depth cap') \<le> Suc (unat (cap_delegation_depth cap))"
        "if unat sel mod 5 = 0 \<and> delegable
         then chain_view cap' (min (unat sel mod 8) (window - unat sel mod (window + 1))) (even (unat sel))
         else chain_view cap' window delegable"
      using delegation_step_window [OF Cons.prems(1), of sel C pk tree state rng] Cons.prems(2) False by auto
    have depth: "unat (cap_delegation_depth cap') + length sels < 255" using step(2) Cons.prems(2) by simp
    define window' delegable' where
      "window' = (if unat sel mod 5 = 0 \<and> delegable then min (unat sel mod 8) (window - unat sel mod (window + 1)) else window)"
      "delegable' = (if unat sel mod 5 = 0 \<and> delegable then even (unat sel) else delegable)"
    note next_defs = this
    have view: "chain_view cap' window' delegable'" using step(3) by (cases delegable) (auto simp: next_defs split: if_splits)
    have same: "inverts window delegable (map unat (sel # sels)) = inverts window' delegable' (map unat sels)"
      using False by (auto simp: next_defs)
    have fold: "fold_r (delegation_step C pk) (tree, cap, state, rng) (sel # sels) =
        fold_r (delegation_step C pk) (tree', cap', state', rng') sels" by (simp add: step(1))
    show ?thesis unfolding same fold by (rule Cons.IH [OF view depth])
  qed
qed simp

lemma delegation_finish_panics:
  assumes "crypto_correct C"
  shows "panics_only {msg. msg = ''tampered direct'' \<and> (\<exists>cap. capability_leaf_hash C cap = zeros 32)}
    (delegation_finish C os data ph kp cert pk (tree, cap, state, rng))"
proof -
  have match: "keys_match C (kp_public r) (kp_secret r)" if "recipient_generate C rng = (r, rng')" for r rng'
    using generated_keys_match [of C rng] that by simp
  have tampered: "0 < cap_delegation_depth cap \<Longrightarrow>
      \<not> is_ok (verify_with_verifier C V object (cap\<lparr>cap_parent_stamp := zeros 32\<rparr>) pf s tp)"
    "is_ok (verify_with_verifier C V object
      (cap\<lparr>cap_delegation_depth := 0, cap_parent_stamp := capability_leaf_hash C cap\<rparr>) pf s tp) \<Longrightarrow>
      capability_leaf_hash C cap = zeros 32" for V object pf s tp
    by (auto dest!: verify_needs_parent simp: parent_stamp_ok_def)
  show ?thesis
    using stub_verifier.sealed_current [OF assms match] tampered
    by (auto simp: delegation_finish_def panic_vc is_ok_iff Let_def split: prod.splits)
qed

lemma root_capability_chain: "chain_cap (fuzz_capability subj pre d
    (rights_union (rights_union READ DECRYPT) DELEGATE) 512 data ph)"
  by (simp add: chain_cap_def fuzz_capability_def)

text \<open>The target's outcome, for every input.\<close>

lemma delegation_target_outcome:
  fixes C std_rng os data
  defines "run \<equiv> fuzz_delegation_chain_semantic C std_rng os data"
    and "sels \<equiv> map unat (take 12 (drop 12 (bounded data)))"
  assumes "crypto_correct C"
  shows "(run = Panicked ''inverted window must reject'' \<longleftrightarrow> inverts 511 True sels) \<and>
    (\<not> inverts 511 True sels \<longrightarrow>
      run = Passed \<or> run = Panicked ''tampered direct'' \<and> (\<exists>cap. capability_leaf_hash C cap = zeros 32))"
proof -
  let ?cap = "fuzz_capability ''delegation-root'' ''delegation-chain-object-'' 0x71
    (rights_union (rights_union READ DECRYPT) DELEGATE) 512 (bounded data) (fuzz_policy C ''delegation-chain-policy-'' (drop 6 (bounded data)))"
  have "contains_all (rights_union (rights_union READ DECRYPT) DELEGATE) READ"
      "contains_all (rights_union (rights_union READ DECRYPT) DELEGATE) DELEGATE"
    by (auto simp: contains_all_subset right_set_union)
  then have "chain_view ?cap 511 True" by (simp add: chain_view_def root_capability_chain) (simp add: fuzz_capability_def)
  moreover have "unat (cap_delegation_depth ?cap) + length (take 12 (drop 12 (bounded data))) < 255"
    by (simp add: fuzz_capability_def)
  ultimately have loop: "if inverts 511 True sels
    then fold_r (delegation_step C pk) (tree, ?cap, state, rng) (take 12 (drop 12 (bounded data))) = Inl (Panicked ''inverted window must reject'')
    else \<exists>st. fold_r (delegation_step C pk) (tree, ?cap, state, rng) (take 12 (drop 12 (bounded data))) = Inr st" for pk tree state rng
    unfolding sels_def by (rule delegation_loop)
  have "\<exists>pk tree state rng ph kp cert. run = outcome (bind_r (fold_r (delegation_step C pk) (tree, ?cap, state, rng)
      (take 12 (drop 12 (bounded data)))) (delegation_finish C os (bounded data) ph kp cert pk))"
    unfolding run_def fuzz_delegation_chain_semantic_def Let_def MAX_STATEFUL_STRESS_STEPS_def by blast
  then obtain pk tree state rng ph kp cert where run: "run = outcome (bind_r (fold_r (delegation_step C pk) (tree, ?cap, state, rng)
      (take 12 (drop 12 (bounded data)))) (delegation_finish C os (bounded data) ph kp cert pk))" by blast
  show ?thesis
  proof (cases "inverts 511 True sels")
    case True
    then show ?thesis using loop run by (simp add: outcome_def)
  next
    case False
    then obtain st where "run = outcome (delegation_finish C os (bounded data) ph kp cert pk st)"
      using loop [of pk tree state rng] run by auto
    then have "run \<in> insert Passed (Panicked ` {msg. msg = ''tampered direct'' \<and> (\<exists>cap. capability_leaf_hash C cap = zeros 32)})"
      using delegation_finish_panics [OF assms(3)] by (cases st) (simp only: outcome_panics_only)
    with False show ?thesis by auto
  qed
qed

end
