(* ===== verification/Csk2_Fuzz_Lifecycle.thy ===== *)
theory Csk2_Fuzz_Lifecycle
  imports Csk2_Fuzz_Delegation
begin

text \<open>
  The fuzz targets of the authority's operations: \<open>fuzz_revoke_capability_and_commit_semantic.rs\<close>
  and \<open>fuzz_rotate_epoch_and_commit_semantic.rs\<close>. Each is
  shown never to panic; where an assertion says that two digests differ, the theorem names the
  messages on which SHA-256 must not collide or give a reserved value.
\<close>

subsection \<open>Revoking and committing\<close>

definition VALIDITY_WINDOW :: u64 where "VALIDITY_WINDOW = 256"

definition revocation_capability :: "crypto \<Rightarrow> bytes \<Rightarrow> capability" where
  "revocation_capability C data = fuzz_capability ''revocation-subject'' ''revocation-object-'' 0x71
     (rights_union READ DECRYPT) 4096 data (fuzz_policy C ''revocation-policy-'' (drop 5 data))"

definition revocation_base :: "crypto \<Rightarrow> bytes \<Rightarrow> authority_state" where
  "revocation_base C data =
     build_state C (snd (add_capability C tree_new (revocation_capability C data)))
       (root_verifying_key_bytes C (root_from_seed (deterministic_seed32 (drop 1 data) 0x27)))
       (fuzz_id ''revocation-fuzz-auth-'' data)
       (saturating_add (bytes_to_u64 (drop 13 data) mod 32) 1) (zeros 32)"

definition revocation_epoch :: "crypto \<Rightarrow> bytes \<Rightarrow> u64" where
  "revocation_epoch C data = saturating_add (st_epoch (revocation_base C data))
     (saturating_add (ucast (byte_at data 21) mod 6) 1)"

text \<open>The assertions after the revocation.\<close>

definition revocation_checks ::
    "crypto \<Rightarrow> capability \<Rightarrow> capability_proof \<Rightarrow> recipient_key_pair \<Rightarrow> csk2_object \<Rightarrow> u64 \<Rightarrow>
     transparency_state_commit \<Rightarrow> transparency_state_commit \<Rightarrow> in_memory_log \<Rightarrow> authority_capability_tree \<Rightarrow>
     unit fuzz" where
  "revocation_checks C cap base_proof recipient object revoke_epoch base_commit revoked_commit log tree =
     (let V = stub_verify_state C; s = tc_state revoked_commit in
      bind_r (fuzz_assert ''epoch'' (st_epoch s = revoke_epoch)) (\<lambda>_.
      bind_r (fuzz_assert ''authority root'' (st_authority_root s = st_authority_root (tc_state base_commit))) (\<lambda>_.
      bind_r (fuzz_assert ''revocation root'' (st_revocation_root s \<noteq> st_revocation_root (tc_state base_commit))) (\<lambda>_.
      bind_r (fuzz_assert ''transparency root'' (st_transparency_root s \<noteq> zeros 32)) (\<lambda>_.
      let revoked_stamp = capability_stamp C cap s in
      bind_r (fuzz_assert ''is revoked'' (is_revoked tree revoked_stamp)) (\<lambda>_.
      bind_r (fuzz_assert ''no witness'' (\<not> is_ok (tree_non_revocation_witness C tree revoked_stamp))) (\<lambda>_.
      bind_r (expect (proof_for_state C log s) ''revoked state must be in transparency log'') (\<lambda>roundtrip_proof.
      bind_r (fuzz_assert ''leaf'' (tp_leaf_hash roundtrip_proof = tp_leaf_hash (tc_proof revoked_commit))) (\<lambda>_.
      bind_r (fuzz_assert ''revoked state must not verify the pre-revocation object''
        (\<not> is_ok (verify_with_verifier C V object cap base_proof s (tc_proof revoked_commit)))) (\<lambda>_.
      bind_r (fuzz_assert ''revoked state must not open the pre-revocation object''
        (\<not> is_ok (open_with_verifier C V (kp_secret recipient) object cap base_proof s))) (\<lambda>_.
      let bad_state = (tc_state base_commit)\<lparr>st_revocation_root :=
            flip_first (st_revocation_root (tc_state base_commit))\<rparr>;
          (res, log, tree) = revoke_capability_and_commit C (in_memory_ops C) log tree cap bad_state (revoke_epoch + 1) in
      bind_r (fuzz_assert ''stale base state must be rejected'' (\<not> is_ok res)) (\<lambda>_.
      fuzz_assert ''revocation epoch must advance''
        (\<not> is_ok (fst (revoke_capability_and_commit C (in_memory_ops C) log tree cap (tc_state base_commit)
          (st_epoch (tc_state base_commit)))))))))))))))))"

definition fuzz_revoke_capability_and_commit_semantic ::
    "crypto \<Rightarrow> (bytes \<Rightarrow> rng) \<Rightarrow> (nat \<Rightarrow> rng) \<Rightarrow> bytes \<Rightarrow> fuzz_run" where
  "fuzz_revoke_capability_and_commit_semantic C std_rng os data0 =
     (let data = bounded data0;
          rng = std_rng (deterministic_seed32 data 0x17);
          root_kp = root_from_seed (deterministic_seed32 (drop 1 data) 0x27);
          epoch_kp = epoch_from_seed (deterministic_seed32 (drop 3 data) 0x37);
          cap = revocation_capability C data;
          policy_hash = fuzz_policy C ''revocation-policy-'' (drop 5 data);
          tree = snd (add_capability C tree_new cap);
          base_state = revocation_base C data;
          revoke_epoch = revocation_epoch C data;
          base_epoch_cert = issue_epoch_cert C root_kp (epoch_verifying_key_bytes C epoch_kp)
            (st_epoch base_state) VALIDITY_WINDOW;
          (res, log, tree) = issue_capability_and_commit C (in_memory_ops C) log_new tree cap epoch_kp
            base_epoch_cert base_state
      in outcome (bind_r (or_return res) (\<lambda>(issuance, base_commit).
         bind_r (or_return (ok_or (build_capability_proof C tree cap issuance (tc_state base_commit)) ())) (\<lambda>base_proof.
         let (recipient, rng') = recipient_generate C rng;
             open_request = request_for cap policy_hash (st_epoch (tc_state base_commit))
         in bind_r (or_return (seal_with_verifier C (os 0) (os 1) (stub_verify_state C) (kp_public recipient) data cap
              base_proof (tc_proof base_commit) (tc_state base_commit) open_request Current)) (\<lambda>object.
            let (res, log, tree) = revoke_capability_and_commit C (in_memory_ops C) log tree cap
                  (tc_state base_commit) revoke_epoch
            in bind_r (or_return res) (\<lambda>revoked_commit.
               revocation_checks C cap base_proof recipient object revoke_epoch base_commit revoked_commit log tree))))))"

definition revocation_after :: "crypto \<Rightarrow> bytes \<Rightarrow> authority_state" where
  "revocation_after C data = (revocation_base C data)\<lparr>st_epoch := revocation_epoch C data,
     st_revocation_root := capability_stamp C (revocation_capability C data) (revocation_base C data),
     st_revocation_count := 1\<rparr>"

lemma small_epochs:
  fixes a b :: u64 and n m :: nat
  assumes "unat a < 64" "unat b < 64"
  shows "unat (saturating_add (saturating_add a 1) (saturating_add b 1)) = unat a + unat b + 2"
    "unat (saturating_add a 1) = unat a + 1"
  using assms by (simp_all add: unat_saturating_add)

lemma revocation_epoch_later: "st_epoch (revocation_base C data) < revocation_epoch C data"
proof -
  have "unat (bytes_to_u64 (drop 13 data) mod 32) < 64" "unat (ucast (byte_at data 21) mod 6 :: u64) < 64"
    by (simp_all add: unat_mod less_le_trans [OF mod_less_divisor])
  note e = small_epochs [OF this]
  show ?thesis using e(1) e(2)
    by (simp add: word_less_nat_alt revocation_epoch_def revocation_base_def build_state_def)
qed

lemma singleton_tree: "snd (add_capability C (snd (add_capability C tree_new cap)) cap) =
    \<lparr>ct_leaf_hashes = [capability_leaf_hash C cap], ct_revoked_stamps = []\<rparr>"
  "snd (add_capability C tree_new cap) = \<lparr>ct_leaf_hashes = [capability_leaf_hash C cap], ct_revoked_stamps = []\<rparr>"
  by (simp_all add: add_capability_def tree_new_def Let_def)

text \<open>Issuing the one capability of a tree again only commits the state.\<close>

lemma repeated_issue:
  assumes "st_authority_root s = merkle_root C [capability_leaf_hash C cap]" "st_transparency_root s = zeros 32"
    and "issue_capability_and_commit C (in_memory_ops C) log0 (snd (add_capability C tree_new cap)) cap kp cert s
      = (Inr (iss, c), log, tree)"
  shows "tree = \<lparr>ct_leaf_hashes = [capability_leaf_hash C cap], ct_revoked_stamps = []\<rparr> \<and>
    issue_capability C (snd (add_capability C tree_new cap)) cap kp cert = (Inr iss, tree) \<and>
    commit_state C log0 s = (Inr c, log)"
  using assms(3)
proof (cases rule: issue_and_commit_cases)
  case (late p r)
  have tree: "tree = \<lparr>ct_leaf_hashes = [capability_leaf_hash C cap], ct_revoked_stamps = []\<rparr>"
    using issue_capability_ok(1) [OF late(1)] singleton_tree by simp
  moreover have "s\<lparr>st_authority_root := tree_authority_root C tree, st_transparency_root := zeros 32\<rparr> = s"
    using assms(1,2) tree by (simp add: tree_authority_root_def)
  moreover have "r = Inr c" "p = iss" using late(5) by (cases r; auto)+
  ultimately show ?thesis using late(1,4) by (simp add: in_memory_ops_def)
qed simp

lemma revocation_issue:
  fixes C data
  defines "cap \<equiv> revocation_capability C data" and "s \<equiv> revocation_base C data"
  assumes "issue_capability_and_commit C (in_memory_ops C) log_new (snd (add_capability C tree_new cap)) cap kp cert s
    = (Inr (iss, c), log, tree)"
  shows "tree = \<lparr>ct_leaf_hashes = [capability_leaf_hash C cap], ct_revoked_stamps = []\<rparr>"
    "tc_state c = bind_transparency_root_to_state s (transparency_leaf_hash C s)"
    "lg_entries log = [new_entry s (transparency_leaf_hash C s)]"
proof -
  have root: "st_authority_root s = merkle_root C [capability_leaf_hash C cap]" "st_transparency_root s = zeros 32"
    by (simp_all add: s_def revocation_base_def build_state_def tree_authority_root_def singleton_tree
        cap_def [symmetric])
  note issue = repeated_issue [OF root assms(3)]
  then show "tree = \<lparr>ct_leaf_hashes = [capability_leaf_hash C cap], ct_revoked_stamps = []\<rparr>"
    "tc_state c = bind_transparency_root_to_state s (transparency_leaf_hash C s)"
    "lg_entries log = [new_entry s (transparency_leaf_hash C s)]"
    using commit_first by blast+
qed

lemma revocation_outcome:
  fixes C data
  defines "cap \<equiv> revocation_capability C data" and "s \<equiv> revocation_base C data"
  defines "stamp \<equiv> capability_stamp C cap s"
  assumes "revoke_capability_and_commit C (in_memory_ops C) log
      \<lparr>ct_leaf_hashes = [capability_leaf_hash C cap], ct_revoked_stamps = []\<rparr> cap
      (bind_transparency_root_to_state s h) (revocation_epoch C data) = (Inr c, log', tree)"
    and "lg_entries log = [new_entry s h]"
  shows "tree = \<lparr>ct_leaf_hashes = [capability_leaf_hash C cap], ct_revoked_stamps = [stamp]\<rparr>"
    "st_epoch (tc_state c) = revocation_epoch C data" "st_authority_id (tc_state c) = st_authority_id s"
    "st_authority_root (tc_state c) = st_authority_root s" "st_revocation_root (tc_state c) = stamp"
    "st_revocation_count (tc_state c) = 1"
    "st_transparency_root (tc_state c) =
      hash_transparency_node C h (transparency_leaf_hash C (revocation_after C data))"
    "proof_for_state C log' (tc_state c) = Inr (tc_proof c)"
proof -
  let ?t0 = "\<lparr>ct_leaf_hashes = [capability_leaf_hash C cap], ct_revoked_stamps = []\<rparr>"
  let ?b = "bind_transparency_root_to_state s h"
  obtain s' where r: "revoke_capability C ?t0 cap ?b (revocation_epoch C data) = (Inr s', tree)"
      "commit_state C log s' = (Inr c, log')"
    using assms(4) by (rule revoke_and_commit_cases) (auto simp: in_memory_ops_def)
  note ok = revoke_capability_ok [OF r(1)]
  have st: "capability_stamp C cap ?b = stamp" unfolding stamp_def by (rule capability_stamp_cong) simp
  show tree: "tree = \<lparr>ct_leaf_hashes = [capability_leaf_hash C cap], ct_revoked_stamps = [stamp]\<rparr>"
    using ok(10) by (simp add: st revoke_stamp_def partition_point_def insert_at_def)
  have root: "tree_authority_root C tree = st_authority_root s" "tree_revocation_root C tree = stamp"
      "tree_revocation_count tree = 1"
    by (simp_all add: tree tree_authority_root_def tree_revocation_root_def tree_revocation_count_def
        merkle_root_def merkle_levels.simps s_def revocation_base_def build_state_def singleton_tree cap_def)
  have "transparency_leaf_hash C s' = transparency_leaf_hash C (revocation_after C data)"
    using ok(5,6,11-13) root
    by (simp add: transparency_leaf_hash_def transparency_transcript_def revocation_after_def s_def cap_def stamp_def)
  moreover have "st_epoch s \<noteq> st_epoch s'" using ok(4,5) by auto
  ultimately have c: "tc_state c = bind_transparency_root_to_state s'
      (hash_transparency_node C h (transparency_leaf_hash C (revocation_after C data)))"
    using commit_second [OF assms(5) _ r(2)] by simp
  then show "st_epoch (tc_state c) = revocation_epoch C data" "st_authority_id (tc_state c) = st_authority_id s"
    "st_authority_root (tc_state c) = st_authority_root s" "st_revocation_root (tc_state c) = stamp"
    "st_revocation_count (tc_state c) = 1"
    "st_transparency_root (tc_state c) =
      hash_transparency_node C h (transparency_leaf_hash C (revocation_after C data))"
    using ok(5,6,11-13) root by simp_all
  show "proof_for_state C log' (tc_state c) = Inr (tc_proof c)"
    using in_memory.commit_provable [of C log s' c log'] r(2) c by (simp add: in_memory_ops_def)
qed

lemma empty_witness_count:
  assumes "build_capability_proof C \<lparr>ct_leaf_hashes = ls, ct_revoked_stamps = []\<rparr> cap iss s = Some pf"
  shows "nw_total_revoked (cp_non_revocation pf) = 0"
  using assms
  by (auto simp: build_capability_proof_def tree_non_revocation_witness_def Let_def split: option.splits sum.splits
      if_splits)

lemma stale_count_rejected:
  assumes "nw_total_revoked (cp_non_revocation pf) \<noteq> st_revocation_count s"
  shows "\<not> is_ok (verify_with_verifier C (stub_verify_state C) object cap pf s tp)"
  using assms
  by (auto simp: is_ok_iff verify_with_verifier_def bind_r_eq_Inr verify_verified_ok validate_capability_ok
      verify_non_revocation_ok dest: stub_verifier.verified_as_state)

lemma sealed_other_epoch:
  assumes "seal_with_verifier C rng os (stub_verify_state C) pk m cap pf tp s req pol = Inr object"
    and "st_epoch t \<noteq> st_epoch s"
  shows "\<not> is_ok (open_with_verifier C V sk object cap' pf' t)"
proof -
  obtain v where v: "stub_verify_state C s tp = Inr v"
      "seal_verified C rng os pk m cap pf tp v req pol = Inr object"
    using assms(1) by (auto simp: seal_with_verifier_def bind_r_eq_Inr)
  have "find_wrapper object (st_epoch t) = None"
    using seal_verified_ok [OF v(2)] stub_verifier.verified_as_state [OF v(1)] assms(2)
    by (auto simp: find_wrapper_def)
  then show ?thesis by (auto simp: is_ok_iff open_with_verifier_ok)
qed

lemma stale_revocation_rejected:
  assumes "tree_revocation_root C tree \<noteq> st_revocation_root s"
  shows "\<exists>err. revoke_capability_and_commit C ops log tree cap s e = (Inl err, log, tree)"
  using assms by (auto simp: revoke_capability_and_commit_def revoke_capability_def)

lemma revocation_checks_ok:
  fixes C data
  defines "cap \<equiv> revocation_capability C data" and "s \<equiv> revocation_base C data"
  defines "stamp \<equiv> capability_stamp C cap s"
  assumes issued: "tc_state base = bind_transparency_root_to_state s h" "lg_entries log = [new_entry s h]"
      "build_capability_proof C \<lparr>ct_leaf_hashes = [capability_leaf_hash C cap], ct_revoked_stamps = []\<rparr> cap iss
        (tc_state base) = Some pf"
    and sealed: "seal_with_verifier C rng os (stub_verify_state C) pk data cap pf (tc_proof base) (tc_state base) req Current
      = Inr object"
    and revoked: "revoke_capability_and_commit C (in_memory_ops C) log
      \<lparr>ct_leaf_hashes = [capability_leaf_hash C cap], ct_revoked_stamps = []\<rparr> cap (tc_state base)
      (revocation_epoch C data) = (Inr c, log', tree)"
    and safe: "stamp \<notin> {zeros 32, flip_first (zeros 32)}"
      "hash_transparency_node C h (transparency_leaf_hash C (revocation_after C data)) \<noteq> zeros 32"
  shows "no_panic (revocation_checks C cap pf recipient object (revocation_epoch C data) base c log' tree)"
proof -
  note out = revocation_outcome [OF revoked [unfolded cap_def issued(1) s_def] issued(2) [unfolded s_def],
      folded cap_def s_def, folded stamp_def]
  have later: "revocation_epoch C data \<noteq> st_epoch (tc_state base)"
    using revocation_epoch_later [of C data] issued(1) by (auto simp: s_def)
  have base_root: "st_revocation_root (tc_state base) = zeros 32"
    by (simp add: issued(1) s_def revocation_base_def build_state_def tree_revocation_root_def singleton_tree merkle_root_def)
  have stamp: "capability_stamp C cap (tc_state c) = stamp"
    unfolding stamp_def by (rule capability_stamp_cong) (simp add: out(3))
  have tree: "is_revoked tree stamp" "tree_wf tree" "tree_revocation_root C tree = stamp"
    by (simp_all add: out(1) is_revoked_def tree_wf_def tree_revocation_root_def merkle_root_def merkle_levels.simps)
  then have "\<not> is_ok (tree_non_revocation_witness C tree stamp)" using witness_refused_iff by blast
  moreover have "\<not> is_ok (verify_with_verifier C (stub_verify_state C) object cap pf (tc_state c) (tc_proof c))"
    using stale_count_rejected empty_witness_count [OF issued(3)] out(6) by simp
  moreover have "\<not> is_ok (open_with_verifier C (stub_verify_state C) (kp_secret recipient) object cap pf (tc_state c))"
    using sealed_other_epoch [OF sealed] out(2) later by simp
  moreover obtain err where "revoke_capability_and_commit C (in_memory_ops C) log' tree cap
      ((tc_state base)\<lparr>st_revocation_root := flip_first (zeros 32)\<rparr>) (revocation_epoch C data + 1) = (Inl err, log', tree)"
    using stale_revocation_rejected [of C tree "(tc_state base)\<lparr>st_revocation_root := flip_first (zeros 32)\<rparr>"]
      tree(3) safe(1) by force
  moreover have "\<not> is_ok (fst (revoke_capability_and_commit C (in_memory_ops C) log' tree cap (tc_state base)
      (st_epoch (tc_state base))))"
    by (auto simp: revoke_capability_and_commit_def revoke_capability_def)
  ultimately show ?thesis
    using out safe tree(1) base_root stamp issued(1) by (auto simp: revocation_checks_def fuzz_vc Let_def)
qed

lemma revocation_target_passes:
  fixes data
  defines "d \<equiv> bounded data"
  assumes "capability_stamp C (revocation_capability C d) (revocation_base C d) \<notin> {zeros 32, flip_first (zeros 32)}"
    and "hash_transparency_node C (transparency_leaf_hash C (revocation_base C d))
      (transparency_leaf_hash C (revocation_after C d)) \<noteq> zeros 32"
  shows "fuzz_revoke_capability_and_commit_semantic C std_rng os data = Passed"
proof -
  let ?cap = "revocation_capability C d" and ?s = "revocation_base C d"
  let ?kp = "epoch_from_seed (deterministic_seed32 (drop 3 d) 0x37)"
  let ?cert = "issue_epoch_cert C (root_from_seed (deterministic_seed32 (drop 1 d) 0x27))
    (epoch_verifying_key_bytes C ?kp) (st_epoch ?s) VALIDITY_WINDOW"
  obtain res log tree where i: "issue_capability_and_commit C (in_memory_ops C) log_new
      (snd (add_capability C tree_new ?cap)) ?cap ?kp ?cert ?s = (res, log, tree)" by (metis prod_cases3)
  show ?thesis
  proof (cases res)
    case (Inl e)
    then show ?thesis
      by (simp add: fuzz_revoke_capability_and_commit_semantic_def d_def [symmetric] i outcome_passed fuzz_vc Let_def
          del: One_nat_def)
  next
    case (Inr p)
    then obtain iss c where p: "res = Inr (iss, c)" by (cases p) auto
    note issue = revocation_issue [OF i [unfolded p]]
    show ?thesis
      using revocation_checks_ok [OF issue(2,3) _ _ _ assms(2,3)] issue(1)
      by (auto simp: fuzz_revoke_capability_and_commit_semantic_def d_def [symmetric] i p outcome_passed fuzz_vc ok_or_eq_Inr Let_def
          simp del: One_nat_def split: prod.splits)
  qed
qed

subsection \<open>Rotating and committing\<close>

definition rotation_capability :: "crypto \<Rightarrow> bytes \<Rightarrow> capability" where
  "rotation_capability C data = fuzz_capability ''rotate-commit-subject'' ''rotate-commit-object-'' 0x91
     (rights_union READ DECRYPT) 4096 data (fuzz_policy C ''rotate-commit-policy-'' (drop 5 data))"

definition rotation_root_kp :: "bytes \<Rightarrow> authority_root_key_pair" where
  "rotation_root_kp data = root_from_seed (deterministic_seed32 (drop 1 data) 0x29)"

definition rotation_prev :: "bytes \<Rightarrow> bytes" where
  "rotation_prev data = deterministic_seed32 (drop 24 data) 0x49"

definition rotation_base :: "crypto \<Rightarrow> bytes \<Rightarrow> authority_state" where
  "rotation_base C data =
     build_state C (snd (add_capability C tree_new (rotation_capability C data)))
       (root_verifying_key_bytes C (rotation_root_kp data)) (fuzz_id ''rotate-commit-fuzz-auth-'' data)
       (saturating_add (bytes_to_u64 (drop 13 data) mod 24) 1) (rotation_prev data)"

definition rotation_epoch :: "crypto \<Rightarrow> bytes \<Rightarrow> u64" where
  "rotation_epoch C data = saturating_add (st_epoch (rotation_base C data))
     (saturating_add (ucast (byte_at data 21) mod 8) 1)"

text \<open>The assertions about a second log and about a conflicting rotation.\<close>

definition rotation_tamper_checks ::
    "crypto \<Rightarrow> (nat \<Rightarrow> rng) \<Rightarrow> bytes \<Rightarrow> transparency_state_commit \<Rightarrow> in_memory_log \<Rightarrow> unit fuzz" where
  "rotation_tamper_checks C os data rotated_commit log =
     (let root_kp = rotation_root_kp data; base_state = rotation_base C data;
          next_epoch = rotation_epoch C data in
      bind_r (case fst (rotate_epoch_and_commit C (in_memory_ops C) (os 3) log_new root_kp base_state next_epoch
            VALIDITY_WINDOW (flip_first (rotation_prev data))) of
          Inr (_, _, other_commit) \<Rightarrow> fuzz_assert ''changing prev_epoch_hash must change the chain hash''
            (tc_chain_hash other_commit \<noteq> tc_chain_hash rotated_commit)
        | Inl _ \<Rightarrow> Inr ()) (\<lambda>_.
      fuzz_assert ''conflicting rotation state at the same epoch must be rejected''
        (\<not> is_ok (fst (rotate_epoch_and_commit C (in_memory_ops C) (os 4) log root_kp
          (base_state\<lparr>st_authority_root := flip_first (st_authority_root base_state)\<rparr>) next_epoch
          VALIDITY_WINDOW (rotation_prev data))))))"

definition fuzz_rotate_epoch_and_commit_semantic ::
    "crypto \<Rightarrow> (bytes \<Rightarrow> rng) \<Rightarrow> (nat \<Rightarrow> rng) \<Rightarrow> bytes \<Rightarrow> fuzz_run" where
  "fuzz_rotate_epoch_and_commit_semantic C std_rng os data0 =
     (let data = bounded data0;
          rng = std_rng (deterministic_seed32 data 0x19);
          root_kp = rotation_root_kp data;
          cap = rotation_capability C data;
          policy_hash = fuzz_policy C ''rotate-commit-policy-'' (drop 5 data);
          tree = snd (add_capability C tree_new cap);
          base_state = rotation_base C data;
          next_epoch = rotation_epoch C data;
          prev_epoch_hash = rotation_prev data;
          (res, log) = rotate_epoch_and_commit C (in_memory_ops C) (os 0) log_new root_kp base_state next_epoch
            VALIDITY_WINDOW prev_epoch_hash
      in outcome (bind_r (or_return res) (\<lambda>(rotated_epoch_kp, rotated_epoch_cert, rotated_commit).
         let s = tc_state rotated_commit in
         bind_r (fuzz_assert ''epoch'' (st_epoch s = next_epoch)) (\<lambda>_.
         bind_r (fuzz_assert ''transparency root'' (st_transparency_root s \<noteq> zeros 32)) (\<lambda>_.
         bind_r (fuzz_assert ''stored chain hash must match committed rotation''
           (chain_hash_for log (st_authority_id s) (st_epoch s) = Some (tc_chain_hash rotated_commit))) (\<lambda>_.
         bind_r (expect (verify_epoch_cert C (root_verifying_key_bytes C root_kp) rotated_epoch_cert)
           ''rotation cert must verify under root key'') (\<lambda>_.
         let (res, tree) = issue_capability C tree cap rotated_epoch_kp rotated_epoch_cert in
         bind_r (or_return res) (\<lambda>issuance.
         bind_r (or_return (ok_or (build_capability_proof C tree cap issuance s) ())) (\<lambda>proof.
         let (recipient, rng') = recipient_generate C rng;
             request = request_for cap policy_hash (st_epoch s) in
         bind_r (or_return (seal_with_verifier C (os 1) (os 2) (stub_verify_state C) (kp_public recipient) data cap
           proof (tc_proof rotated_commit) s request Current)) (\<lambda>object.
         bind_r (fuzz_assert ''rotated state must verify'' (is_ok (verify_with_verifier C (stub_verify_state C) object
           cap proof s (tc_proof rotated_commit)))) (\<lambda>_.
         bind_r (expect (csk2_open C True (kp_secret recipient) object cap proof s) ''rotated state must open'') (\<lambda>opened.
         bind_r (fuzz_assert ''opened'' (opened = data)) (\<lambda>_.
         rotation_tamper_checks C os data rotated_commit log)))))))))))))"


lemma rotate_and_commit_ok:
  assumes "rotate_epoch_and_commit C ops rng log rkp s e w h = (Inr (kp, cert, c), log')"
  obtains c0 log1 where "lo_commit_state ops log (rotated_authority_state s e h) = (Inr c0, log1)"
    "tc_state c = tc_state c0" "tc_proof c = tc_proof c0"
    "kp = fst (epoch_generate rng)" "cert = issue_epoch_cert C rkp (epoch_verifying_key_bytes C kp) e w"
    "log' = lo_store_chain_hash ops log1 (st_authority_id (tc_state c)) (st_epoch (tc_state c)) (tc_chain_hash c)"
    "tc_chain_hash c = transparency_log_entry_hash C h (st_authority_root (tc_state c))
       (st_revocation_root (tc_state c)) (st_epoch (tc_state c)) (epoch_verifying_key_bytes C kp)
       (sign_epoch_root C kp (st_authority_root (tc_state c)) (st_revocation_root (tc_state c))
         (st_transparency_root (tc_state c)) e h)"
  using assms
  by (auto simp: rotate_epoch_and_commit_def rotate_epoch_def Let_def split: prod.splits sum.splits)

text \<open>
  The log entry a rotation hashes, when it is the first of its log: the previous hash, the roots, the
  epoch, the new key and its signature of the roots.
\<close>

definition rotation_entry :: "crypto \<Rightarrow> rng \<Rightarrow> authority_state \<Rightarrow> u64 \<Rightarrow> bytes \<Rightarrow> bytes" where
  "rotation_entry C rng s e h =
     (let kp = fst (epoch_generate rng); root = transparency_leaf_hash C (rotated_authority_state s e h) in
      h @ st_authority_root s @ st_revocation_root s @ put_u64 e @ epoch_verifying_key_bytes C kp @
      sign_epoch_root C kp (st_authority_root s) (st_revocation_root s) root e h)"

lemma first_rotation:
  assumes "rotate_epoch_and_commit C (in_memory_ops C) rng log_new rkp s e w h = (Inr (kp, cert, c), log)" "e \<noteq> 0"
  shows "tc_state c = bind_transparency_root_to_state (rotated_authority_state s e h)
      (transparency_leaf_hash C (rotated_authority_state s e h))"
    "tc_chain_hash c = sha256 C (rotation_entry C rng s e h)"
    "chain_hash_for log (st_authority_id s) e = Some (tc_chain_hash c)"
    "log_view log (st_authority_id s, e) = Some (transparency_leaf_hash C (rotated_authority_state s e h))"
    "cert = issue_epoch_cert C rkp (epoch_verifying_key_bytes C kp) e w"
proof -
  let ?s = "rotated_authority_state s e h"
  obtain c0 log1 where r: "commit_state C log_new ?s = (Inr c0, log1)" "tc_state c = tc_state c0"
      "kp = fst (epoch_generate rng)" "cert = issue_epoch_cert C rkp (epoch_verifying_key_bytes C kp) e w"
      "log = store_chain_hash log1 (st_authority_id (tc_state c)) (st_epoch (tc_state c)) (tc_chain_hash c)"
      "tc_chain_hash c = transparency_log_entry_hash C h (st_authority_root (tc_state c))
        (st_revocation_root (tc_state c)) (st_epoch (tc_state c)) (epoch_verifying_key_bytes C kp)
        (sign_epoch_root C kp (st_authority_root (tc_state c)) (st_revocation_root (tc_state c))
          (st_transparency_root (tc_state c)) e h)"
    using assms(1) by (rule rotate_and_commit_ok) (simp add: in_memory_ops_def)
  note c0 = commit_first [OF r(1)]
  show s: "tc_state c = bind_transparency_root_to_state ?s (transparency_leaf_hash C ?s)" using r(2) c0(2) by simp
  show "tc_chain_hash c = sha256 C (rotation_entry C rng s e h)"
    using assms(2) by (simp add: r(3,6) s transparency_log_entry_hash_def rotation_entry_def rotated_authority_state_def Let_def)
  have "find_index log1 (st_authority_id s) e \<noteq> None"
    using c0(1) by (simp add: find_index_def rotated_authority_state_def)
  then show "chain_hash_for log (st_authority_id s) e = Some (tc_chain_hash c)"
    using r(5) by (simp add: chain_hash_after_store s rotated_authority_state_def)
  show "log_view log (st_authority_id s, e) = Some (transparency_leaf_hash C ?s)"
    by (simp add: r(5) log_view_store) (simp add: log_view_def c0(1) rotated_authority_state_def)
  show "cert = issue_epoch_cert C rkp (epoch_verifying_key_bytes C kp) e w" by (rule r(4))
qed

lemma rotation_epoch_pos: "rotation_epoch C data \<noteq> 0"
proof -
  have "unat (bytes_to_u64 (drop 13 data) mod 24) < 64" "unat (ucast (byte_at data 21) mod 8 :: u64) < 64"
    by (simp_all add: unat_mod less_le_trans [OF mod_less_divisor])
  note small_epochs(1) [OF this]
  then have "unat (rotation_epoch C data) \<noteq> 0" by (simp add: rotation_epoch_def rotation_base_def build_state_def)
  then show ?thesis by (metis unat_0)
qed

definition rotation_conflict :: "crypto \<Rightarrow> bytes \<Rightarrow> authority_state" where
  "rotation_conflict C data = (rotation_base C data)
     \<lparr>st_authority_root := flip_first (st_authority_root (rotation_base C data))\<rparr>"

lemma rotation_conflict_refused:
  assumes "log_view log (st_authority_id s, e) = Some lh" "lh \<noteq> transparency_leaf_hash C (rotated_authority_state s e h)"
  shows "\<not> is_ok (fst (rotate_epoch_and_commit C (in_memory_ops C) rng log rkp s e w h))"
proof -
  obtain err where "commit_state C log (rotated_authority_state s e h) = (Inl err, log)"
    using assms by (cases rule: commit_state_cases [of log "rotated_authority_state s e h" C])
      (auto simp: rotated_authority_state_def)
  then show ?thesis
    by (auto simp: rotate_epoch_and_commit_def rotate_epoch_def in_memory_ops_def Let_def split: prod.splits)
qed

lemma rotation_tamper_checks_ok:
  fixes C data
  defines "e \<equiv> rotation_epoch C data" and "s \<equiv> rotation_base C data" and "h \<equiv> rotation_prev data"
  assumes "rotate_epoch_and_commit C (in_memory_ops C) (os 0) log_new (rotation_root_kp data) s e VALIDITY_WINDOW h
      = (Inr (kp, cert, c), log)"
    and "inj_on (sha256 C) {rotation_entry C (os 0) s e h, rotation_entry C (os 3) s e (flip_first h)}"
    and "inj_on (sha256 C) {transparency_input (rotated_authority_state s e h),
      transparency_input (rotated_authority_state (rotation_conflict C data) e h)}"
    and "st_authority_root s \<noteq> []"
  shows "no_panic (rotation_tamper_checks C os data c log)"
proof -
  have pos: "e \<noteq> 0" unfolding e_def by (rule rotation_epoch_pos)
  note first = first_rotation [OF assms(4) pos]
  have len: "length h = 32" by (simp add: h_def rotation_prev_def)
  then have "take 32 (rotation_entry C (os 0) s e h) \<noteq> take 32 (rotation_entry C (os 3) s e (flip_first h))"
    using flip_first_neq [of h] by (force simp: rotation_entry_def Let_def)
  then have chain: "sha256 C (rotation_entry C (os 0) s e h) \<noteq> sha256 C (rotation_entry C (os 3) s e (flip_first h))"
    using assms(5) by (auto dest: inj_onD)
  have "transparency_input (rotated_authority_state s e h) \<noteq>
      transparency_input (rotated_authority_state (rotation_conflict C data) e h)"
    using flip_first_neq [OF assms(7)] by (auto simp: transparency_input_def transparency_transcript_def
        put_bytes_def rotation_conflict_def s_def rotated_authority_state_def)
  then have "transparency_leaf_hash C (rotated_authority_state s e h) \<noteq>
      transparency_leaf_hash C (rotated_authority_state (rotation_conflict C data) e h)"
    using assms(6) unfolding transparency_leaf_input by (auto dest: inj_onD)
  then have "\<not> is_ok (fst (rotate_epoch_and_commit C (in_memory_ops C) (os 4) log (rotation_root_kp data)
      (rotation_conflict C data) e VALIDITY_WINDOW h))"
    using rotation_conflict_refused [of log "rotation_conflict C data"] first(4)
    by (simp add: rotation_conflict_def s_def)
  moreover have "tc_chain_hash c' \<noteq> tc_chain_hash c"
    if "fst (rotate_epoch_and_commit C (in_memory_ops C) (os 3) log_new (rotation_root_kp data) s e VALIDITY_WINDOW
      (flip_first h)) = Inr (kp', cert', c')" for kp' cert' c'
    using that first(2) chain by (metis first_rotation(2) pos prod.collapse)
  ultimately show ?thesis
    by (auto simp: rotation_tamper_checks_def rotation_conflict_def e_def s_def h_def fuzz_vc Let_def split: sum.splits)
qed

text \<open>
  The target passes when SHA-256 does not give zeros for the first leaf of the log and does not
  collide on the two pairs of messages the assertions compare.
\<close>

lemma rotation_target_passes:
  fixes C data
  defines "d \<equiv> bounded data"
  defines "e \<equiv> rotation_epoch C d" and "s \<equiv> rotation_base C d" and "h \<equiv> rotation_prev d"
  assumes "crypto_correct C" "sig_correct C" "sha_32 C"
    and "transparency_leaf_hash C (rotated_authority_state s e h) \<noteq> zeros 32"
    and "inj_on (sha256 C) {rotation_entry C (os 0) s e h, rotation_entry C (os 3) s e (flip_first h)}"
    and "inj_on (sha256 C) {transparency_input (rotated_authority_state s e h),
      transparency_input (rotated_authority_state (rotation_conflict C d) e h)}"
  shows "fuzz_rotate_epoch_and_commit_semantic C std_rng os data = Passed"
proof -
  obtain res log where r: "rotate_epoch_and_commit C (in_memory_ops C) (os 0) log_new (rotation_root_kp d) s e
      VALIDITY_WINDOW h = (res, log)" by fastforce
  have "length (st_authority_root s) = 32"
    using assms(7) by (simp add: s_def rotation_base_def build_state_def tree_authority_root_def singleton_tree
        merkle_root_def merkle_levels.simps capability_leaf_hash_def sha_32_def)
  then have root: "st_authority_root s \<noteq> []" by auto
  have pos: "e \<noteq> 0" unfolding e_def by (rule rotation_epoch_pos)
  show ?thesis
  proof (cases res)
    case (Inl err)
    then show ?thesis
      using r by (simp add: fuzz_rotate_epoch_and_commit_semantic_def d_def [symmetric] e_def s_def h_def outcome_passed
          fuzz_vc Let_def del: One_nat_def)
  next
    case (Inr p)
    then obtain kp cert c where p: "res = Inr (kp, cert, c)" by (cases p) auto
    note first = first_rotation [OF r [unfolded p] pos]
    have state: "st_epoch (tc_state c) = e" "st_authority_id (tc_state c) = st_authority_id s"
        "st_transparency_root (tc_state c) = transparency_leaf_hash C (rotated_authority_state s e h)"
      by (simp_all add: first(1) rotated_authority_state_def)
    have cert: "verify_epoch_cert C (root_verifying_key_bytes C (rotation_root_kp d)) cert = Inr ()"
      by (simp add: first(5) issued_cert_verifies [OF assms(6)])
    note tamper = rotation_tamper_checks_ok [OF r [unfolded p e_def s_def h_def] assms(9) [unfolded e_def s_def h_def]
        assms(10) [unfolded e_def s_def h_def] root [unfolded s_def]]
    have match: "keys_match C (kp_public k) (kp_secret k)" if "recipient_generate C rng = (k, rng')" for k rng rng'
      using generated_keys_match [of C rng] that by simp
    note sealed = stub_verifier.sealed_current [OF assms(5) match]
    show ?thesis
      using r [unfolded e_def s_def h_def] tamper cert state first(3) assms(8) sealed
      by (auto simp: fuzz_rotate_epoch_and_commit_semantic_def d_def [symmetric] p outcome_passed fuzz_vc csk2_open_def default_verifier_def
          e_def s_def h_def is_ok_iff Let_def simp del: One_nat_def split: prod.splits)
  qed
qed

end
