(* ===== verification/Csk2_Fuzz_Freshness.thy ===== *)
theory Csk2_Fuzz_Freshness
  imports Csk2_Fuzz_Lifecycle
begin

text \<open>
  The target of repeated rotation, \<open>fuzz_epoch_rotation_freshness_semantic.rs\<close>: up to twelve rotations in a
  row on one log, each checked against its transcript, used to seal and open, and compared with the
  verifier of the rotation before. The target never panics as long as SHA-256 does not map a log entry
  and its copy with another previous hash to one digest.
\<close>

subsection \<open>The target\<close>

definition freshness_capability :: "crypto \<Rightarrow> bytes \<Rightarrow> capability" where
  "freshness_capability C data = fuzz_capability ''rotation-subject'' ''rotation-object-'' 0xD1
     (rights_union READ DECRYPT) 4096 data (fuzz_policy C ''rotation-freshness-policy-'' (drop 4 data))"

definition issue_and_build_proof ::
    "crypto \<Rightarrow> authority_capability_tree \<Rightarrow> capability \<Rightarrow> epoch_signing_key_pair \<Rightarrow> epoch_key_cert \<Rightarrow>
     authority_state \<Rightarrow> (capability_proof \<times> authority_capability_tree) fuzz" where
  "issue_and_build_proof C tree cap epoch_kp epoch_cert state =
     (let (res, tree) = issue_capability C tree cap epoch_kp epoch_cert in
      bind_r (expect res ''issue capability'') (\<lambda>issuance.
      let stamp = capability_stamp C cap state in
      bind_r (expect (ok_or (inclusion_proof C tree cap) ()) ''cap in tree'') (\<lambda>incl.
      bind_r (expect (tree_non_revocation_witness C tree stamp) ''not revoked'') (\<lambda>nr.
      Inr (\<lparr>cp_inclusion = incl, cp_non_revocation = nr, cp_issuance = issuance\<rparr>, tree)))))"

definition assert_rotation_transcript :: "crypto \<Rightarrow> epoch_rotation \<Rightarrow> bytes \<Rightarrow> unit fuzz" where
  "assert_rotation_transcript C rotation prev_hash =
     (let expected = transparency_log_entry_hash C prev_hash (st_authority_root (er_state rotation))
            (st_revocation_root (er_state rotation)) (st_epoch (er_state rotation)) (er_epoch_pk rotation)
            (er_sigma_e rotation)
      in fuzz_assert ''rotation chain hash must match transcript hash'' (er_chain_hash rotation = expected))"

record freshness_state =
  fr_tree :: authority_capability_tree
  fr_log :: in_memory_log
  fr_prev_hash :: bytes
  fr_current_state :: authority_state
  fr_rotations :: "epoch_rotation list"
  fr_rng :: rng

text \<open>The checks of one rotation: sealing, opening, the stale verifier, the tampered transcript.\<close>

definition freshness_checks ::
    "crypto \<Rightarrow> rng \<Rightarrow> rng \<Rightarrow> bytes \<Rightarrow> capability \<Rightarrow> bytes \<Rightarrow> epoch_rotation \<Rightarrow> epoch_rotation list \<Rightarrow>
     capability_proof \<Rightarrow> recipient_key_pair \<Rightarrow> unit fuzz" where
  "freshness_checks C rng os data cap policy_hash rotation rotations proof recipient =
     (let V = crypto_verify_state C (into_verifier rotation); s = er_state rotation;
          tp = er_transparency_proof rotation;
          request = request_for cap policy_hash (st_epoch s) in
      bind_r (or_return (seal_with_verifier C rng os V (kp_public recipient) data cap proof tp s request Current)) (\<lambda>object.
      bind_r (fuzz_assert ''verify'' (is_ok (verify_with_verifier C V object cap proof s tp))) (\<lambda>_.
      bind_r (expect (open_with_verifier C V (kp_secret recipient) object cap proof s)
        ''fresh rotation-backed object must open'') (\<lambda>opened.
      bind_r (fuzz_assert ''opened'' (opened = data)) (\<lambda>_.
      bind_r (if rotations = [] then Inr () else
          fuzz_assert ''stale verifier evidence must not validate a later epoch''
            (\<not> is_ok (verify_with_verifier C (crypto_verify_state C (into_verifier (last rotations))) object cap
              proof s tp))) (\<lambda>_.
      let tampered_state = s\<lparr>st_prev_epoch_hash := flip_first (st_prev_epoch_hash s)\<rparr>;
          tampered_chain_hash = transparency_log_entry_hash C (st_prev_epoch_hash tampered_state)
            (st_authority_root tampered_state) (st_revocation_root tampered_state) (st_epoch tampered_state)
            (er_epoch_pk rotation) (er_sigma_e rotation)
      in fuzz_assert ''changing prev_epoch_hash must change the transcript hash''
           (tampered_chain_hash \<noteq> er_chain_hash rotation)))))))"

definition freshness_root_kp :: "bytes \<Rightarrow> authority_root_key_pair" where
  "freshness_root_kp data = root_from_seed (deterministic_seed32 (drop 1 data) 0x25)"

definition freshness_next :: "freshness_state \<Rightarrow> byte \<Rightarrow> u64" where
  "freshness_next st step = saturating_add (st_epoch (fr_current_state st))
     (saturating_add (ucast step mod 4) 1)"

definition freshness_rotate ::
    "crypto \<Rightarrow> (nat \<Rightarrow> rng) \<Rightarrow> bytes \<Rightarrow> freshness_state \<Rightarrow> nat \<times> byte \<Rightarrow> epoch_rotation result \<times> in_memory_log" where
  "freshness_rotate C os data st = (\<lambda>(i, step).
     rotate_epoch_full C (in_memory_ops C) (os (3 * i)) (fr_log st) (freshness_root_kp data)
       (fr_current_state st) (freshness_next st step) VALIDITY_WINDOW (fr_prev_hash st))"

definition freshness_step ::
    "crypto \<Rightarrow> (nat \<Rightarrow> rng) \<Rightarrow> bytes \<Rightarrow> freshness_state \<Rightarrow> nat \<times> byte \<Rightarrow> freshness_state fuzz" where
  "freshness_step C os data st x =
     (let cap = freshness_capability C data;
          policy_hash = fuzz_policy C ''rotation-freshness-policy-'' (drop 4 data)
      in case freshness_rotate C os data st x of
           (Inl _, log) \<Rightarrow> Inr (st\<lparr>fr_log := log\<rparr>)
         | (Inr rotation, log) \<Rightarrow>
             bind_r (assert_rotation_transcript C rotation (fr_prev_hash st)) (\<lambda>_.
             bind_r (fuzz_assert ''stored chain hash must match committed rotation''
               (chain_hash_for log (st_authority_id (er_state rotation)) (st_epoch (er_state rotation)) =
                Some (er_chain_hash rotation))) (\<lambda>_.
             bind_r (issue_and_build_proof C (fr_tree st) cap (er_epoch_kp rotation) (er_epoch_cert rotation)
               (er_state rotation)) (\<lambda>(proof, tree).
             let (recipient, rng) = recipient_generate C (fr_rng st) in
             bind_r (freshness_checks C (os (3 * fst x + 1)) (os (3 * fst x + 2)) data cap policy_hash rotation
               (fr_rotations st) proof recipient) (\<lambda>_.
             Inr \<lparr>fr_tree = tree, fr_log = log, fr_prev_hash = er_chain_hash rotation,
               fr_current_state = er_state rotation, fr_rotations = fr_rotations st @ [rotation],
               fr_rng = rng\<rparr>)))))"

definition freshness_start :: "crypto \<Rightarrow> (bytes \<Rightarrow> rng) \<Rightarrow> bytes \<Rightarrow> freshness_state" where
  "freshness_start C std_rng data =
     (let tree = snd (add_capability C tree_new (freshness_capability C data)); prev_hash = zeros 32 in
      \<lparr>fr_tree = tree, fr_log = log_new, fr_prev_hash = prev_hash,
       fr_current_state = build_state C tree (root_verifying_key_bytes C (freshness_root_kp data))
         (fuzz_id ''rotation-fuzz-auth-'' data) (saturating_add (bytes_to_u64 (drop 12 data) mod 16) 1) prev_hash,
       fr_rotations = [], fr_rng = std_rng (deterministic_seed32 data 0x15)\<rparr>)"

definition freshness_steps :: "bytes \<Rightarrow> (nat \<times> byte) list" where
  "freshness_steps data = enumerate 0 (take MAX_STATEFUL_STRESS_STEPS (drop 20 data))"

definition fuzz_epoch_rotation_freshness_semantic ::
    "crypto \<Rightarrow> (bytes \<Rightarrow> rng) \<Rightarrow> (nat \<Rightarrow> rng) \<Rightarrow> bytes \<Rightarrow> fuzz_run" where
  "fuzz_epoch_rotation_freshness_semantic C std_rng os data0 =
     (let data = bounded data0 in
      outcome (bind_r (fold_r (freshness_step C os data) (freshness_start C std_rng data) (freshness_steps data))
        (\<lambda>_. Inr ())))"

subsection \<open>What a step keeps\<close>

definition freshness_inv :: "crypto \<Rightarrow> bytes \<Rightarrow> nat \<Rightarrow> freshness_state \<Rightarrow> bool" where
  "freshness_inv C data i st \<longleftrightarrow>
     fr_tree st = \<lparr>ct_leaf_hashes = [capability_leaf_hash C (freshness_capability C data)], ct_revoked_stamps = []\<rparr> \<and>
     length (fr_prev_hash st) = 32 \<and>
     1 \<le> unat (st_epoch (fr_current_state st)) \<and> unat (st_epoch (fr_current_state st)) \<le> 16 + 4 * i \<and>
     (\<forall>e > st_epoch (fr_current_state st). log_view (fr_log st) (st_authority_id (fr_current_state st), e) = None) \<and>
     (fr_rotations st \<noteq> [] \<longrightarrow> er_state (last (fr_rotations st)) = fr_current_state st)"

lemma freshness_start_inv: "freshness_inv C data 0 (freshness_start C std_rng data)"
proof -
  have "unat (bytes_to_u64 (drop 12 data) mod 16) < 16" by (simp add: unat_mod)
  then show ?thesis
    by (simp add: freshness_inv_def freshness_start_def singleton_tree build_state_def log_view_def log_new_def
        unat_saturating_add Let_def)
qed

lemma freshness_next_later:
  assumes "freshness_inv C data i st" "i < 12"
  shows "st_epoch (fr_current_state st) < freshness_next st x" "1 \<le> freshness_next st x"
    "unat (freshness_next st x) \<le> 16 + 4 * Suc i"
proof -
  have "unat (ucast x mod 4 :: u64) < 4" by (simp add: unat_mod)
  then have "unat (freshness_next st x) = unat (st_epoch (fr_current_state st)) + unat (ucast x mod 4 :: u64) + 1"
    using assms by (simp add: freshness_next_def unat_saturating_add freshness_inv_def)
  moreover note \<open>unat (ucast x mod 4 :: u64) < 4\<close>
  ultimately show "st_epoch (fr_current_state st) < freshness_next st x" "1 \<le> freshness_next st x"
    "unat (freshness_next st x) \<le> 16 + 4 * Suc i"
    using assms(1) by (auto simp: word_less_nat_alt word_le_nat_alt freshness_inv_def)
qed

lemma proof_built:
  assumes "fst (issue_capability C tree cap kp cert) = Inr iss"
    and "snd (add_capability C tree cap) = \<lparr>ct_leaf_hashes = [capability_leaf_hash C cap], ct_revoked_stamps = []\<rparr>"
  shows "\<exists>pf. issue_and_build_proof C tree cap kp cert s =
    Inr (pf, \<lparr>ct_leaf_hashes = [capability_leaf_hash C cap], ct_revoked_stamps = []\<rparr>)"
proof -
  let ?t = "\<lparr>ct_leaf_hashes = [capability_leaf_hash C cap], ct_revoked_stamps = []\<rparr>"
  have i: "issue_capability C tree cap kp cert = (Inr iss, ?t)"
    using assms issue_capability_ok(1) by (metis prod.collapse)
  obtain incl where "inclusion_proof C ?t cap = Some incl"
    using inclusion_absent [of C ?t cap] by auto
  moreover obtain nr where "tree_non_revocation_witness C ?t (capability_stamp C cap s) = Inr nr"
    using witness_refused_iff [of ?t C "capability_stamp C cap s"] by (auto simp: tree_wf_def is_revoked_def is_ok_iff)
  ultimately show ?thesis by (simp add: issue_and_build_proof_def i ok_or_def expect_def map_err_def)
qed

lemma stale_verifier_rejects:
  assumes "st_epoch (er_state rot) \<noteq> st_epoch s"
  shows "\<not> is_ok (verify_with_verifier C (crypto_verify_state C (into_verifier rot)) object cap pf s tp)"
proof -
  have "registry_find (cv_evidence_registry (into_verifier rot)) (st_authority_id s) (st_epoch s) = None"
    using assms by (simp add: into_verifier_def add_evidence_def with_root_pk_def registry_find_add)
      (simp add: registry_find_def registry_new_def)
  then show ?thesis by (auto simp: is_ok_iff verify_with_verifier_def bind_r_eq_Inr crypto_verify_state_ok)
qed

text \<open>The log entry of a rotation with some previous hash, and when its digest depends on that hash.\<close>

definition rotation_message :: "epoch_rotation \<Rightarrow> bytes \<Rightarrow> bytes" where
  "rotation_message rot h = h @ st_authority_root (er_state rot) @ st_revocation_root (er_state rot) @
     put_u64 (st_epoch (er_state rot)) @ er_epoch_pk rot @ er_sigma_e rot"

definition binds_prev_hash :: "crypto \<Rightarrow> epoch_rotation \<Rightarrow> bool" where
  "binds_prev_hash C rot \<longleftrightarrow> inj_on (sha256 C) {rotation_message rot (st_prev_epoch_hash (er_state rot)),
     rotation_message rot (flip_first (st_prev_epoch_hash (er_state rot)))}"

lemma freshness_rotation:
  assumes "freshness_rotate C os data st x = (Inr rot, log)" "freshness_inv C data i st" "i < 12"
  shows "st_epoch (er_state rot) = freshness_next st (snd x)"
    "st_authority_id (er_state rot) = st_authority_id (fr_current_state st)"
    "st_prev_epoch_hash (er_state rot) = fr_prev_hash st"
    "ec_epoch (er_epoch_cert rot) = freshness_next st (snd x)"
    "er_chain_hash rot = sha256 C (rotation_message rot (fr_prev_hash st))"
    "er_chain_hash rot = transparency_log_entry_hash C (fr_prev_hash st) (st_authority_root (er_state rot))
       (st_revocation_root (er_state rot)) (st_epoch (er_state rot)) (er_epoch_pk rot) (er_sigma_e rot)"
    "chain_hash_for log (st_authority_id (er_state rot)) (st_epoch (er_state rot)) = Some (er_chain_hash rot)"
    "log_view log = (log_view (fr_log st))((st_authority_id (fr_current_state st), freshness_next st (snd x))
       \<mapsto> transparency_leaf_hash C (rotated_authority_state (fr_current_state st) (freshness_next st (snd x)) (fr_prev_hash st)))"
proof -
  let ?e = "freshness_next st (snd x)"
  let ?s = "rotated_authority_state (fr_current_state st) ?e (fr_prev_hash st)"
  have r: "rotate_epoch_full C (in_memory_ops C) (os (3 * fst x)) (fr_log st) (freshness_root_kp data)
      (fr_current_state st) ?e VALIDITY_WINDOW (fr_prev_hash st) = (Inr rot, log)"
    using assms(1) by (simp add: freshness_rotate_def split: prod.splits)
  obtain kp c log1 where c: "commit_state C (fr_log st) ?s = (Inr c, log1)"
      "log = store_chain_hash log1 (st_authority_id (tc_state c)) (st_epoch (tc_state c)) (er_chain_hash rot)"
      "er_state rot = tc_state c"
      "er_epoch_cert rot = issue_epoch_cert C (freshness_root_kp data) (epoch_verifying_key_bytes C kp) ?e VALIDITY_WINDOW"
      "er_chain_hash rot = transparency_log_entry_hash C (fr_prev_hash st) (st_authority_root (tc_state c))
        (st_revocation_root (tc_state c)) (st_epoch (tc_state c)) (er_epoch_pk rot) (er_sigma_e rot)"
    using rotate_epoch_full_ok [OF r] by (auto simp: in_memory_ops_def)
  obtain i h where i: "find_index log1 (st_authority_id ?s) (st_epoch ?s) = Some i"
      "tc_state c = bind_transparency_root_to_state ?s h"
    using c(1) by (cases rule: commit_state_cases [of "fr_log st" ?s C]) auto
  show f: "st_epoch (er_state rot) = ?e" "st_authority_id (er_state rot) = st_authority_id (fr_current_state st)"
      "st_prev_epoch_hash (er_state rot) = fr_prev_hash st"
    by (simp_all add: c(3) i(2) rotated_authority_state_def)
  show "ec_epoch (er_epoch_cert rot) = ?e" by (simp add: c(4) issue_epoch_cert_def)
  show "er_chain_hash rot = transparency_log_entry_hash C (fr_prev_hash st) (st_authority_root (er_state rot))
       (st_revocation_root (er_state rot)) (st_epoch (er_state rot)) (er_epoch_pk rot) (er_sigma_e rot)"
    by (simp add: c(3,5))
  moreover have "?e \<noteq> 0" using freshness_next_later(2) [OF assms(2,3), of "snd x"] by auto
  ultimately show "er_chain_hash rot = sha256 C (rotation_message rot (fr_prev_hash st))"
    using f(1) by (simp add: transparency_log_entry_hash_def rotation_message_def)
  show "chain_hash_for log (st_authority_id (er_state rot)) (st_epoch (er_state rot)) = Some (er_chain_hash rot)"
    using i by (simp add: c(2,3) chain_hash_after_store)
  show "log_view log = (log_view (fr_log st))((st_authority_id (fr_current_state st), ?e) \<mapsto> transparency_leaf_hash C ?s)"
    using log_view_commit [OF c(1)] by (simp add: c(2) log_view_store rotated_authority_state_def)
qed

lemma freshness_checks_ok:
  assumes "crypto_correct C" "keys_match C (kp_public k) (kp_secret k)"
    and "rots \<noteq> [] \<Longrightarrow> st_epoch (er_state (last rots)) \<noteq> st_epoch (er_state rot)"
    and "binds_prev_hash C rot" "st_prev_epoch_hash (er_state rot) \<noteq> []" "st_epoch (er_state rot) \<noteq> 0"
    and "er_chain_hash rot = sha256 C (rotation_message rot (st_prev_epoch_hash (er_state rot)))"
  shows "no_panic (freshness_checks C rng os data cap ph rot rots pf k)"
proof -
  let ?h = "st_prev_epoch_hash (er_state rot)"
  have "rotation_message rot (flip_first ?h) \<noteq> rotation_message rot ?h"
    using flip_first_neq [OF assms(5)] by (simp add: rotation_message_def)
  then have "sha256 C (rotation_message rot (flip_first ?h)) \<noteq> er_chain_hash rot"
    using assms(4,7) by (auto simp: binds_prev_hash_def dest: inj_onD)
  then have "transparency_log_entry_hash C (flip_first ?h) (st_authority_root (er_state rot))
      (st_revocation_root (er_state rot)) (st_epoch (er_state rot)) (er_epoch_pk rot) (er_sigma_e rot) \<noteq> er_chain_hash rot"
    using assms(6) by (simp add: transparency_log_entry_hash_def rotation_message_def)
  moreover note crypto_verifier.sealed_current [OF assms(1,2)] stale_verifier_rejects [OF assms(3)]
  ultimately show ?thesis by (auto simp: freshness_checks_def fuzz_vc is_ok_iff Let_def)
qed

lemma freshness_step_ok:
  assumes "crypto_correct C" "sha_32 C" "freshness_inv C data i st" "i < 12"
    and "\<And>rot log. freshness_rotate C os data st x = (Inr rot, log) \<Longrightarrow> binds_prev_hash C rot"
  shows "no_panic (freshness_step C os data st x) \<and>
    (\<forall>st'. freshness_step C os data st x = Inr st' \<longrightarrow> freshness_inv C data (Suc i) st')"
proof -
  let ?cap = "freshness_capability C data"
  let ?t = "\<lparr>ct_leaf_hashes = [capability_leaf_hash C ?cap], ct_revoked_stamps = []\<rparr>"
  note later = freshness_next_later [OF assms(3,4), of "snd x"]
  have "is_ok (fst (freshness_rotate C os data st x))"
    using assms(3) later(1) unfolding freshness_rotate_def
    by (cases x) (auto simp: freshness_inv_def intro!: rotate_fresh)
  then obtain rot log where r: "freshness_rotate C os data st x = (Inr rot, log)"
    by (cases "freshness_rotate C os data st x") (auto simp: is_ok_iff)
  note f = freshness_rotation [OF r assms(3,4)]
  have tree: "fr_tree st = ?t" "snd (add_capability C ?t ?cap) = ?t"
    using assms(3) singleton_tree [of C ?cap] by (simp_all add: freshness_inv_def)
  have window: "cap_epoch_start ?cap = 1" "cap_epoch_end ?cap = 4096"
    by (simp_all add: freshness_capability_def fuzz_capability_def)
  have "freshness_next st (snd x) \<le> 4096" using later(3) assms(4) by (simp add: word_le_nat_alt)
  then have "\<exists>iss. fst (issue_capability C ?t ?cap (er_epoch_kp rot) (er_epoch_cert rot)) = Inr iss"
    using later(2) f(4) window by (simp add: issue_capability_def Let_def not_less [symmetric])
  then obtain pf where pf: "issue_and_build_proof C ?t ?cap (er_epoch_kp rot) (er_epoch_cert rot) (er_state rot) = Inr (pf, ?t)"
    using proof_built tree(2) by blast
  obtain k rng where k: "recipient_generate C (fr_rng st) = (k, rng)" by fastforce
  have len: "length (st_prev_epoch_hash (er_state rot)) = 32" using assms(3) f(3) by (simp add: freshness_inv_def)
  have checks: "no_panic (freshness_checks C (os (3 * fst x + 1)) (os (3 * fst x + 2)) data ?cap ph rot (fr_rotations st) pf k)" for ph
  proof (rule freshness_checks_ok [OF assms(1) _ _ assms(5) [OF r]])
    show "keys_match C (kp_public k) (kp_secret k)" using generated_keys_match [of C "fr_rng st"] k by simp
    show "fr_rotations st \<noteq> [] \<Longrightarrow> st_epoch (er_state (last (fr_rotations st))) \<noteq> st_epoch (er_state rot)"
      using assms(3) later(1) f(1) by (auto simp: freshness_inv_def)
    show "st_prev_epoch_hash (er_state rot) \<noteq> []" using len by auto
    show "st_epoch (er_state rot) \<noteq> 0" using later(2) f(1) by auto
    show "er_chain_hash rot = sha256 C (rotation_message rot (st_prev_epoch_hash (er_state rot)))" using f(3,5) by simp
  qed
  have keeps: "freshness_inv C data (Suc i) \<lparr>fr_tree = ?t, fr_log = log, fr_prev_hash = er_chain_hash rot,
      fr_current_state = er_state rot, fr_rotations = fr_rotations st @ [rot], fr_rng = rng\<rparr>"
    using assms(2,3) later f(1,2,5,8) by (auto simp: freshness_inv_def sha_32_def word_le_nat_alt intro: less_trans)
  show ?thesis
    using checks keeps pf f(6,7)
    by (auto simp: freshness_step_def r tree(1) k assert_rotation_transcript_def fuzz_vc Let_def bind_r_eq_Inr)
qed

lemma fold_r_append: "fold_r f s (xs @ ys) = bind_r (fold_r f s xs) (\<lambda>s'. fold_r f s' ys)"
proof (induction xs arbitrary: s)
  case (Cons x xs)
  then show ?case by (cases "f s x") simp_all
qed simp

subsection \<open>The target passes\<close>

text \<open>The rotations of a run: those made in the states that the runs of the loop's first steps reach.\<close>

definition freshness_rotations :: "crypto \<Rightarrow> (bytes \<Rightarrow> rng) \<Rightarrow> (nat \<Rightarrow> rng) \<Rightarrow> bytes \<Rightarrow> epoch_rotation set" where
  "freshness_rotations C std_rng os data = {rot. \<exists>n st log. n < length (freshness_steps data) \<and>
     fold_r (freshness_step C os data) (freshness_start C std_rng data) (take n (freshness_steps data)) = Inr st \<and>
     freshness_rotate C os data st (freshness_steps data ! n) = (Inr rot, log)}"

lemma freshness_target_passes:
  assumes "crypto_correct C" "sha_32 C" "\<forall>rot \<in> freshness_rotations C std_rng os (bounded data). binds_prev_hash C rot"
  shows "fuzz_epoch_rotation_freshness_semantic C std_rng os data = Passed"
proof -
  let ?d = "bounded data"
  let ?xs = "freshness_steps ?d" and ?f = "freshness_step C os ?d" and ?s = "freshness_start C std_rng ?d"
  have len: "length ?xs \<le> 12" by (simp add: freshness_steps_def MAX_STATEFUL_STRESS_STEPS_def)
  have "no_panic (fold_r ?f ?s ?xs) \<and> (\<forall>st. fold_r ?f ?s ?xs = Inr st \<longrightarrow>
      freshness_inv C ?d (length ?xs) st \<and> fold_r ?f ?s (take (length ?xs) ?xs) = Inr st)"
  proof (rule no_panic_fold)
    fix i st
    assume i: "i < length ?xs" and I: "freshness_inv C ?d i st \<and> fold_r ?f ?s (take i ?xs) = Inr st"
    have "binds_prev_hash C rot" if "freshness_rotate C os ?d st (?xs ! i) = (Inr rot, log)" for rot log
      using assms(3) that i I unfolding freshness_rotations_def by blast
    with I i len have "no_panic (?f st (?xs ! i)) \<and> (\<forall>st'. ?f st (?xs ! i) = Inr st' \<longrightarrow> freshness_inv C ?d (Suc i) st')"
      by (intro freshness_step_ok assms(1,2)) auto
    then show "no_panic (?f st (?xs ! i)) \<and> (\<forall>st'. ?f st (?xs ! i) = Inr st' \<longrightarrow>
        freshness_inv C ?d (Suc i) st' \<and> fold_r ?f ?s (take (Suc i) ?xs) = Inr st')"
      using I i by (simp add: take_Suc_conv_app_nth fold_r_append)
  qed (simp add: freshness_start_inv)
  then show ?thesis by (simp add: fuzz_epoch_rotation_freshness_semantic_def outcome_passed fuzz_vc Let_def)
qed

end
