(* ===== verification/Csk2_Fuzz_Compromise.thy ===== *)
theory Csk2_Fuzz_Compromise
  imports Csk2_Fuzz_Lifecycle
begin

text \<open>
  The target \<open>fuzz_compromise_boundary_semantic.rs\<close>, where notices about the issuing key filter opening and
  verifying. It never panics, as long as Ed25519 refuses a signature with one bit flipped.
\<close>

subsection \<open>The compromise boundary\<close>

definition COMPROMISE_VALIDITY_WINDOW :: u64 where "COMPROMISE_VALIDITY_WINDOW = 512"

definition compromise_capability :: "crypto \<Rightarrow> bytes \<Rightarrow> capability" where
  "compromise_capability C data = fuzz_capability ''compromise-subject'' ''compromise-object-'' 0x81
     (rights_union READ DECRYPT) 2048 data (fuzz_policy C ''compromise-policy-'' (drop 5 data))"

definition compromise_root_kp :: "bytes \<Rightarrow> authority_root_key_pair" where
  "compromise_root_kp data = root_from_seed (deterministic_seed32 (drop 1 data) 0x21)"

definition compromise_epoch_kp :: "bytes \<Rightarrow> epoch_signing_key_pair" where
  "compromise_epoch_kp data = epoch_from_seed (deterministic_seed32 (drop 3 data) 0x31)"

definition compromise_state :: "crypto \<Rightarrow> bytes \<Rightarrow> authority_state" where
  "compromise_state C data =
     build_state C (snd (add_capability C tree_new (compromise_capability C data)))
       (root_verifying_key_bytes C (compromise_root_kp data)) (fuzz_id ''compromise-fuzz-auth-'' data)
       (saturating_add (bytes_to_u64 (drop 13 data) mod 32) 2) (zeros 32)"

text \<open>\<open>signature[0] ^= 0x80\<close>.\<close>

definition flip_top :: "bytes \<Rightarrow> bytes" where
  "flip_top bs = bs[0 := bs ! 0 XOR 0x80]"

lemma flip_top_neq: "bs \<noteq> [] \<Longrightarrow> flip_top bs \<noteq> bs"
proof
  assume "bs \<noteq> []" "flip_top bs = bs"
  then have "bs ! 0 XOR 0x80 = bs ! 0" by (metis flip_top_def length_greater_0_conv nth_list_update_eq)
  then have "bs ! 0 XOR (bs ! 0 XOR 0x80) = bs ! 0 XOR bs ! 0" by (simp only:)
  then show False by (simp flip: xor.assoc)
qed

definition compromise_checks ::
    "crypto \<Rightarrow> bytes \<Rightarrow> capability \<Rightarrow> capability_proof \<Rightarrow> recipient_key_pair \<Rightarrow> csk2_object \<Rightarrow>
     transparency_state_commit \<Rightarrow> unit fuzz" where
  "compromise_checks C data cap proof recipient object commit =
     (let V = stub_verify_state C; root_kp = compromise_root_kp data; s = tc_state commit;
          opens = (\<lambda>notices. is_ok (open_with_compromise_check_and_verifier C V (kp_secret recipient) object cap
            proof s notices));
          verifies = (\<lambda>notices. is_ok (verify_with_compromise_check_and_verifier C V object cap proof s
            (tc_proof commit) notices));
          epoch_pk = ec_epoch_pk (is_epoch_cert (cp_issuance proof)) in
      bind_r (fuzz_assert ''empty notice set must not fail closed'' (verifies [])) (\<lambda>_.
      let matching_notice = issue_compromise_notice C root_kp epoch_pk
            (bytes_to_u64 (drop 21 data) mod (st_epoch s + 4)) (st_authority_root s);
          other_pk = flip_first epoch_pk;
          non_matching_notice = issue_compromise_notice C root_kp other_pk (st_epoch s) (replicate 32 0xAA);
          invalid_sig_notice = matching_notice\<lparr>cn_signature := flip_top (cn_signature matching_notice)\<rparr>;
          mixed_notices = [non_matching_notice, matching_notice];
          mixed_with_invalid = [matching_notice, invalid_sig_notice];
          enforce_reject = (st_epoch s \<ge> cn_compromised_epoch matching_notice) in
      bind_r (if enforce_reject
        then bind_r (fuzz_assert ''open rejects'' (\<not> opens mixed_notices)) (\<lambda>_.
             fuzz_assert ''verify rejects'' (\<not> verifies mixed_notices))
        else bind_r (fuzz_assert ''open accepts'' (opens mixed_notices)) (\<lambda>_.
             fuzz_assert ''verify accepts'' (verifies mixed_notices))) (\<lambda>_.
      bind_r (fuzz_assert ''invalid signature rejects open'' (\<not> opens mixed_with_invalid)) (\<lambda>_.
      fuzz_assert ''invalid signature rejects verify'' (\<not> verifies mixed_with_invalid)))))"

definition fuzz_compromise_boundary_semantic ::
    "crypto \<Rightarrow> (bytes \<Rightarrow> rng) \<Rightarrow> (nat \<Rightarrow> rng) \<Rightarrow> bytes \<Rightarrow> fuzz_run" where
  "fuzz_compromise_boundary_semantic C std_rng os data0 =
     (let data = bounded data0;
          rng = std_rng (deterministic_seed32 data 0x11);
          cap = compromise_capability C data;
          policy_hash = fuzz_policy C ''compromise-policy-'' (drop 5 data);
          tree = snd (add_capability C tree_new cap);
          epoch_kp = compromise_epoch_kp data;
          state_seed = compromise_state C data;
          epoch_cert = issue_epoch_cert C (compromise_root_kp data) (epoch_verifying_key_bytes C epoch_kp)
            (st_epoch state_seed) COMPROMISE_VALIDITY_WINDOW;
          (res, log, tree) = issue_capability_and_commit C (in_memory_ops C) log_new tree cap epoch_kp epoch_cert
            state_seed
      in outcome (bind_r (or_return res) (\<lambda>(issuance, commit).
         bind_r (or_return (ok_or (build_capability_proof C tree cap issuance (tc_state commit)) ())) (\<lambda>proof.
         let request = request_for cap policy_hash (st_epoch (tc_state commit));
             (recipient, rng') = recipient_generate C rng in
         bind_r (or_return (seal_with_verifier C (os 0) (os 1) (stub_verify_state C) (kp_public recipient) data cap
           proof (tc_proof commit) (tc_state commit) request Current)) (\<lambda>object.
         compromise_checks C data cap proof recipient object commit)))))"

text \<open>With notices, opening and verifying are the plain operations filtered by the notices.\<close>

context authority_verifier
begin

lemma compromise_filters:
  "is_ok (open_with_compromise_check_and_verifier C verify_state sk object cap pf s ns) \<longleftrightarrow>
     is_ok (open_with_verifier C verify_state sk object cap pf s) \<and>
     enforce_compromise_notices C s (ec_epoch_pk (is_epoch_cert (cp_issuance pf))) ns = Inr ()"
  "is_ok (verify_with_compromise_check_and_verifier C verify_state object cap pf s tp ns) \<longleftrightarrow>
     is_ok (verify_with_verifier C verify_state object cap pf s tp) \<and>
     enforce_compromise_notices C s (ec_epoch_pk (is_epoch_cert (cp_issuance pf))) ns = Inr ()"
  using verified_as_state
  by (auto simp: is_ok_iff open_with_compromise_check_ok open_with_verifier_ok verify_with_compromise_check_and_verifier_def
      verify_with_compromise_check_verified_def verify_with_verifier_def bind_r_eq_Inr simp del: enforce_compromise_notices_ok)

end

text \<open>
  What the target relies on of Ed25519, for the root key it derives: no signature stays valid when the top
  bit of its first byte is flipped.
\<close>

definition flipped_invalid :: "crypto \<Rightarrow> bytes \<Rightarrow> bool" where
  "flipped_invalid C sk \<longleftrightarrow> (\<forall>msg. \<not> ed_verify_strict C (ed_verifying_key C sk) msg (flip_top (ed_sign C sk msg)))"

lemma flipped_notice_invalid:
  fixes C kp pk e r
  assumes "flipped_invalid C (rk_signing_key kp)"
  defines "n \<equiv> issue_compromise_notice C kp pk e r"
  shows "verify_compromise_notice C (root_verifying_key_bytes C kp) (n\<lparr>cn_signature := flip_top (cn_signature n)\<rparr>) \<noteq> Inr ()"
  using assms(1)
  by (auto simp: n_def verify_compromise_notice_def issue_compromise_notice_def check_signature_ok flipped_invalid_def
      root_verifying_key_bytes_def Let_def)

lemma notice_fields [simp]:
  "cn_compromised_epoch_pk (issue_compromise_notice C kp pk e r) = pk"
  "cn_compromised_epoch (issue_compromise_notice C kp pk e r) = e"
  by (simp_all add: issue_compromise_notice_def)

lemma compromise_checks_ok:
  assumes "sig_correct C" "flipped_invalid C (rk_signing_key (compromise_root_kp data))"
    and "st_root_pk (tc_state c) = root_verifying_key_bytes C (compromise_root_kp data)"
    and "ec_epoch_pk (is_epoch_cert (cp_issuance pf)) \<noteq> []"
    and "verify_with_verifier C (stub_verify_state C) object cap pf (tc_state c) (tc_proof c) = Inr ()"
    and "open_with_verifier C (stub_verify_state C) (kp_secret k) object cap pf (tc_state c) = Inr data"
  shows "no_panic (compromise_checks C data cap pf k object c)"
  using assms flipped_notice_invalid [OF assms(2)] flip_first_neq [OF assms(4)] issued_notice_verifies [OF assms(1)]
  by (auto simp: compromise_checks_def fuzz_vc stub_verifier.compromise_filters enforce_compromise_notices_ok
      not_le Let_def simp del: enforce_compromise_notices.simps)

lemma issued_commit:
  assumes "issue_capability_and_commit C (in_memory_ops C) log tree cap kp cert s = (Inr (iss, c), log', tree')"
  shows "st_root_pk (tc_state c) = st_root_pk s \<and> is_epoch_cert iss = cert"
  using assms
proof (cases rule: issue_and_commit_cases)
  case (late p r)
  let ?s = "s\<lparr>st_authority_root := tree_authority_root C tree', st_transparency_root := zeros 32\<rparr>"
  have "r = Inr c" "p = iss" using late(5) by (cases r; simp)+
  then have "commit_state C log ?s = (Inr c, log')" using late(4) by (simp add: in_memory_ops_def)
  then have "st_root_pk (tc_state c) = st_root_pk s" by (cases rule: commit_state_cases [of log ?s C]) auto
  then show ?thesis using issue_capability_ok(2) [OF late(1)] \<open>p = iss\<close> by simp
qed simp

lemma built_proof_issuance: "build_capability_proof C tree cap iss s = Some pf \<Longrightarrow> cp_issuance pf = iss"
  by (auto simp: build_capability_proof_def split: option.splits sum.splits)

lemma compromise_target_passes:
  assumes "crypto_correct C" "sig_correct C" "\<And>sk. length (ed_verifying_key C sk) = 32"
    and "flipped_invalid C (rk_signing_key (compromise_root_kp (bounded data)))"
  shows "fuzz_compromise_boundary_semantic C std_rng os data = Passed"
proof -
  let ?d = "bounded data"
  have pk: "epoch_verifying_key_bytes C kp \<noteq> []" for kp
    using assms(3) by (auto simp: epoch_verifying_key_bytes_def simp flip: length_0_conv)
  have match: "keys_match C (kp_public k) (kp_secret k)" if "recipient_generate C rng = (k, rng')" for k rng rng'
    using generated_keys_match [of C rng] that by simp
  note sealed = stub_verifier.sealed_current [OF assms(1) match]
  have "no_panic (compromise_checks C ?d cap pf k object c)"
    if "issue_capability_and_commit C (in_memory_ops C) log_new tree cap kp (issue_epoch_cert C rkp (epoch_verifying_key_bytes C kp) e w)
        (compromise_state C ?d) = (Inr (iss, c), log, tree')"
      "build_capability_proof C tree' cap iss (tc_state c) = Some pf" "recipient_generate C rng = (k, rng')"
      "seal_with_verifier C r1 r2 (stub_verify_state C) (kp_public k) ?d cap pf (tc_proof c) (tc_state c) req Current = Inr object"
    for tree cap kp rkp e w iss c log tree' pf k rng rng' object r1 r2 req
  proof (rule compromise_checks_ok [OF assms(2,4)])
    show "st_root_pk (tc_state c) = root_verifying_key_bytes C (compromise_root_kp ?d)"
      using issued_commit [OF that(1)] by (simp add: compromise_state_def build_state_def)
    show "ec_epoch_pk (is_epoch_cert (cp_issuance pf)) \<noteq> []"
      using issued_commit [OF that(1)] built_proof_issuance [OF that(2)] pk by (simp add: issue_epoch_cert_def)
  qed (use sealed [OF that(3,4)] in auto)
  then show ?thesis
    by (auto simp: fuzz_compromise_boundary_semantic_def outcome_passed fuzz_vc ok_or_eq_Inr Let_def split: prod.splits)
qed

end
