(* ===== verification/Csk2_Fuzz_Rewrap.thy ===== *)
theory Csk2_Fuzz_Rewrap
  imports Csk2_Fuzz_Compromise
begin

text \<open>
  The target \<open>fuzz_add_epoch_wrapper_and_commit_semantic.rs\<close>: an object sealed for one recipient is re-wrapped
  for another at a later epoch, with the later state committed in the same call. All its assertions are
  shown to hold but one, that the first recipient's key no longer opens at the new epoch, which is about
  the strength of the primitives.
\<close>

subsection \<open>The target\<close>

definition wrapper_capability :: "crypto \<Rightarrow> bytes \<Rightarrow> capability" where
  "wrapper_capability C data = fuzz_capability ''epoch-wrapper-commit-subject'' ''epoch-wrapper-commit-object-'' 0x61
     (rights_union READ DECRYPT) 4096 data (fuzz_policy C ''wrapper-commit-policy-'' (drop 5 data))"

definition wrapper_root_kp :: "bytes \<Rightarrow> authority_root_key_pair" where
  "wrapper_root_kp data = root_from_seed (deterministic_seed32 (drop 1 data) 0x23)"

definition wrapper_state :: "crypto \<Rightarrow> bytes \<Rightarrow> u64 \<Rightarrow> bytes \<Rightarrow> authority_state" where
  "wrapper_state C data epoch prev_epoch_hash =
     build_state C (snd (add_capability C tree_new (wrapper_capability C data)))
       (root_verifying_key_bytes C (wrapper_root_kp data)) (fuzz_id ''wrapper-commit-fuzz-auth-'' data) epoch
       prev_epoch_hash"

definition wrapper_open_epoch :: "bytes \<Rightarrow> u64" where
  "wrapper_open_epoch data = saturating_add (bytes_to_u64 (drop 13 data) mod 32) 1"

definition wrapper_wrap_epoch :: "bytes \<Rightarrow> u64" where
  "wrapper_wrap_epoch data = saturating_add (wrapper_open_epoch data)
     (saturating_add (ucast (byte_at data 21) mod 6) 1)"

definition wrapper_open_state :: "crypto \<Rightarrow> bytes \<Rightarrow> authority_state" where
  "wrapper_open_state C data =
     wrapper_state C data (wrapper_open_epoch data) (deterministic_seed32 (drop 24 data) 0x43)"

definition wrapper_wrap_state :: "crypto \<Rightarrow> bytes \<Rightarrow> authority_state" where
  "wrapper_wrap_state C data =
     wrapper_state C data (wrapper_wrap_epoch data) (deterministic_seed32 (drop 56 data) 0x44)"

definition wrapper_checks ::
    "crypto \<Rightarrow> (nat \<Rightarrow> rng) \<Rightarrow> bytes \<Rightarrow> capability \<Rightarrow> capability_proof \<Rightarrow> capability_proof \<Rightarrow>
     recipient_key_pair \<Rightarrow> recipient_key_pair \<Rightarrow> csk2_object \<Rightarrow> csk2_object \<Rightarrow>
     transparency_state_commit \<Rightarrow> transparency_state_commit \<Rightarrow> in_memory_log \<Rightarrow> unit fuzz" where
  "wrapper_checks C os data cap open_proof to_proof original_recipient new_recipient original wrapped_object
      open_commit committed log =
     (let V = stub_verify_state C; s = tc_state committed in
      bind_r (fuzz_assert ''transparency root'' (st_transparency_root s \<noteq> zeros 32)) (\<lambda>_.
      bind_r (expect (ok_or (List.find (\<lambda>w. w_epoch w = st_epoch s) (o_wrappers wrapped_object)) ())
        ''wrapper must exist at committed epoch'') (\<lambda>wrapper.
      bind_r (fuzz_assert ''proof of the wrapper'' (w_transparency_proof wrapper = tc_proof committed)) (\<lambda>_.
      bind_r (fuzz_assert ''wrapped object must verify against the committed transparency proof''
        (is_ok (verify_with_verifier C V wrapped_object cap to_proof s (tc_proof committed)))) (\<lambda>_.
      bind_r (expect (csk2_open C True (kp_secret new_recipient) wrapped_object cap to_proof s)
        ''new recipient must open wrapped object'') (\<lambda>opened.
      bind_r (fuzz_assert ''opened'' (opened = data)) (\<lambda>_.
      bind_r (fuzz_assert ''old recipient secret must not decrypt the rewrapped object''
        (\<not> is_ok (csk2_open C True (kp_secret original_recipient) wrapped_object cap to_proof s))) (\<lambda>_.
      bind_r (fuzz_assert ''tampered from-state must be rejected''
        (\<not> is_ok (fst (add_epoch_wrapper_and_commit C (in_memory_ops C) (os 4) (os 5) log V
          (kp_secret original_recipient) (kp_public new_recipient) original cap open_proof
          ((tc_state open_commit)\<lparr>st_transparency_root := flip_first (st_transparency_root (tc_state open_commit))\<rparr>)
          (wrapper_wrap_state C data))))) (\<lambda>_.
      fuzz_assert ''tampered wrapper epoch must be rejected''
        (\<not> is_ok (fst (add_epoch_wrapper_and_commit C (in_memory_ops C) (os 6) (os 7) log V
          (kp_secret original_recipient) (kp_public new_recipient) original cap open_proof (tc_state open_commit)
          ((wrapper_wrap_state C data)\<lparr>st_epoch := st_epoch (tc_state open_commit)\<rparr>)))))))))))))"

definition fuzz_add_epoch_wrapper_and_commit_semantic ::
    "crypto \<Rightarrow> (bytes \<Rightarrow> rng) \<Rightarrow> (nat \<Rightarrow> rng) \<Rightarrow> bytes \<Rightarrow> fuzz_run" where
  "fuzz_add_epoch_wrapper_and_commit_semantic C std_rng os data0 =
     (let data = bounded data0;
          rng = std_rng (deterministic_seed32 data 0x13);
          epoch_kp = epoch_from_seed (deterministic_seed32 (drop 3 data) 0x33);
          cap = wrapper_capability C data;
          policy_hash = fuzz_policy C ''wrapper-commit-policy-'' (drop 5 data);
          tree = snd (add_capability C tree_new cap);
          open_epoch_cert = issue_epoch_cert C (wrapper_root_kp data) (epoch_verifying_key_bytes C epoch_kp)
            (wrapper_open_epoch data) COMPROMISE_VALIDITY_WINDOW;
          (res, log, tree) = issue_capability_and_commit C (in_memory_ops C) log_new tree cap epoch_kp
            open_epoch_cert (wrapper_open_state C data)
      in outcome (bind_r (or_return res) (\<lambda>(issuance, open_commit).
         bind_r (or_return (ok_or (build_capability_proof C tree cap issuance (tc_state open_commit)) ())) (\<lambda>open_proof.
         let (original_recipient, rng) = recipient_generate C rng;
             open_request = request_for cap policy_hash (st_epoch (tc_state open_commit)) in
         bind_r (or_return (seal_with_verifier C (os 0) (os 1) (stub_verify_state C) (kp_public original_recipient) data
           cap open_proof (tc_proof open_commit) (tc_state open_commit) open_request Current)) (\<lambda>original.
         let (new_recipient, rng) = recipient_generate C rng;
             (res, log, wrapped_object) = add_epoch_wrapper_and_commit C (in_memory_ops C) (os 2) (os 3) log
               (stub_verify_state C) (kp_secret original_recipient) (kp_public new_recipient) original cap open_proof
               (tc_state open_commit) (wrapper_wrap_state C data) in
         bind_r (or_return res) (\<lambda>committed.
         bind_r (or_return (ok_or (build_capability_proof C tree cap issuance (tc_state committed)) ())) (\<lambda>to_proof.
         wrapper_checks C os data cap open_proof to_proof original_recipient new_recipient original wrapped_object
           open_commit committed log)))))))"

subsection \<open>Re-wrapping and committing\<close>

lemma rewrap_and_commit_ok:
  assumes "add_epoch_wrapper_and_commit C (in_memory_ops C) rng os log (stub_verify_state C) sk pk object cap pf s t
    = (Inr c, log', object')"
  obtains vf vt where "commit_state C log t = (Inr c, log')" "as_state vf = s" "as_state vt = tc_state c"
    "add_epoch_wrapper_verified C rng os sk pk object cap pf vf vt (tc_proof c) = (Inr (), object')"
  using assms
  by (auto simp: add_epoch_wrapper_and_commit_def add_epoch_wrapper_with_verifier_def in_memory_ops_def bind_r_eq_Inr
      ok_or_eq_Inr split: prod.splits sum.splits dest!: stub_verifier.verified_as_state)

lemma rewrap_needs_verified_source:
  assumes "is_ok (fst (add_epoch_wrapper_and_commit C (in_memory_ops C) rng os log (stub_verify_state C) sk pk object cap pf s t))"
    and "find_wrapper object (st_epoch s) = Some w"
  shows "verify_transparency_proof C s (w_transparency_proof w) = Inr ()"
  using assms
  by (auto simp: is_ok_iff add_epoch_wrapper_and_commit_def add_epoch_wrapper_with_verifier_def bind_r_eq_Inr
      stub_verify_state_def ok_or_eq_Inr split: prod.splits sum.splits)

lemma rewrap_needs_later_target:
  assumes "add_epoch_wrapper_and_commit C (in_memory_ops C) rng os log (stub_verify_state C) sk pk object cap pf s t
    = (Inr c, log', object')"
  shows "st_epoch s < st_epoch t"
proof -
  obtain vf vt where r: "commit_state C log t = (Inr c, log')" "as_state vf = s" "as_state vt = tc_state c"
      "add_epoch_wrapper_verified C rng os sk pk object cap pf vf vt (tc_proof c) = (Inr (), object')"
    using assms by (rule rewrap_and_commit_ok)
  have "st_epoch (tc_state c) = st_epoch t"
    using r(1) by (cases rule: commit_state_cases [of log t C]) auto
  moreover have "st_epoch (as_state vf) < st_epoch (as_state vt)"
    using r(4) by (auto simp: add_epoch_wrapper_verified_ok rewrapped_def Let_def bind_r_eq_Inr not_le split: prod.splits if_splits)
  ultimately show ?thesis using r(2,3) by simp
qed

text \<open>The proof built from a tree with one capability validates under every state that publishes the tree.\<close>

lemma built_proof_validates:
  assumes "sig_correct C" "issue_capability C tree cap kp (issue_epoch_cert C rkp (epoch_verifying_key_bytes C kp) e w)
      = (Inr iss, \<lparr>ct_leaf_hashes = [capability_leaf_hash C cap], ct_revoked_stamps = []\<rparr>)"
    and "0 < w" "unat e < 2 ^ 64 - 1"
    and "publishes C s \<lparr>ct_leaf_hashes = [capability_leaf_hash C cap], ct_revoked_stamps = []\<rparr>"
      "st_root_pk s = root_verifying_key_bytes C rkp"
    and "build_capability_proof C \<lparr>ct_leaf_hashes = [capability_leaf_hash C cap], ct_revoked_stamps = []\<rparr> cap iss s = Some pf"
    and "grants cap req" "rq_epoch req = st_epoch s" "parent_stamp_ok cap"
  shows "validate_capability C cap pf s req = Inr ()"
  using honest_proof_validates [OF assms(1) _ _ assms(2-4) _ assms(5,6,8-10)] assms(7)
  by (auto simp: build_capability_proof_def tree_wf_def tree_small_def is_revoked_def)

lemma wrapper_epochs:
  "wrapper_open_epoch data < wrapper_wrap_epoch data" "1 \<le> wrapper_wrap_epoch data"
  "wrapper_wrap_epoch data \<le> 4096" "unat (wrapper_open_epoch data) < 2 ^ 64 - 1"
proof -
  have m: "unat (bytes_to_u64 (drop 13 data) mod 32) < 32" "unat (ucast (byte_at data 21) mod 6 :: u64) < 6"
    by (simp_all add: unat_mod)
  then have e: "unat (wrapper_wrap_epoch data) = unat (wrapper_open_epoch data) + unat (ucast (byte_at data 21) mod 6 :: u64) + 1"
      "unat (wrapper_open_epoch data) = unat (bytes_to_u64 (drop 13 data) mod 32) + 1"
    by (simp_all add: wrapper_wrap_epoch_def wrapper_open_epoch_def unat_saturating_add)
  with m show "wrapper_open_epoch data < wrapper_wrap_epoch data" "1 \<le> wrapper_wrap_epoch data"
    "wrapper_wrap_epoch data \<le> 4096" "unat (wrapper_open_epoch data) < 2 ^ 64 - 1"
    by (simp_all add: word_less_nat_alt word_le_nat_alt)
qed

lemma wrapper_state_fields:
  "st_authority_root (wrapper_state C data e h) = merkle_root C [capability_leaf_hash C (wrapper_capability C data)]"
  "st_revocation_root (wrapper_state C data e h) = zeros 32" "st_revocation_count (wrapper_state C data e h) = 0"
  "st_transparency_root (wrapper_state C data e h) = zeros 32" "st_epoch (wrapper_state C data e h) = e"
  "st_root_pk (wrapper_state C data e h) = root_verifying_key_bytes C (wrapper_root_kp data)"
  by (simp_all add: wrapper_state_def build_state_def singleton_tree tree_authority_root_def tree_revocation_root_def
      tree_revocation_count_def merkle_root_def)

lemma wrapper_publishes:
  "publishes C (bind_transparency_root_to_state (wrapper_state C data e h) r)
     \<lparr>ct_leaf_hashes = [capability_leaf_hash C (wrapper_capability C data)], ct_revoked_stamps = []\<rparr>"
  by (simp add: publishes_def wrapper_state_fields tree_authority_root_def tree_revocation_root_def
      tree_revocation_count_def merkle_root_def)

lemma wrapper_grants:
  assumes "1 \<le> e" "e \<le> 4096"
  shows "grants (wrapper_capability C data) (request_for (wrapper_capability C data)
    (fuzz_policy C ''wrapper-commit-policy-'' (drop 5 data)) e)" "parent_stamp_ok (wrapper_capability C data)"
  using assms
  by (auto simp: grants_def request_for_def wrapper_capability_def fuzz_capability_def parent_stamp_ok_def
      contains_all_subset right_set_union)

lemma rewrapped_object:
  assumes "crypto_correct C" "keys_match C pk sk" "keys_match C pk' sk'"
    and "seal_with_verifier C r1 r2 (stub_verify_state C) pk m cap pf tp s req Current = Inr object"
    and "add_epoch_wrapper_and_commit C (in_memory_ops C) r3 r4 log (stub_verify_state C) sk pk' object cap pf s t
      = (Inr c, log', object')"
  shows "\<exists>w. find_wrapper object' (st_epoch (tc_state c)) = Some w \<and> w_transparency_proof w = tc_proof c"
    "opens_to C sk' object' cap (tc_state c) m" "open_request_for_object object' e = req\<lparr>rq_epoch := e\<rparr>"
    "o_temporal_policy object' = Current" "o_seal_epoch object' = st_epoch s"
proof -
  obtain vf vt where r: "as_state vf = s" "as_state vt = tc_state c"
      "add_epoch_wrapper_verified C r3 r4 sk pk' object cap pf vf vt (tc_proof c) = (Inr (), object')"
    using assms(5) by (rule rewrap_and_commit_ok)
  then obtain w where w: "rewrapped C r3 r4 sk pk' object cap pf vf vt (tc_proof c) = Inr w" "object' = put_epoch_wrapper object w"
    by (auto simp: add_epoch_wrapper_verified_ok)
  show "\<exists>w. find_wrapper object' (st_epoch (tc_state c)) = Some w \<and> w_transparency_proof w = tc_proof c"
    using rewrapped_ok [OF assms(1,3) w(1)] w(2) r(2) by (auto simp: find_wrapper_put)
  have "open_with_verifier C (stub_verify_state C) sk object cap pf s = Inr m"
    by (rule stub_verifier.sealed_current(2) [OF assms(1,2,4)])
  then have "opens_to C sk object cap (as_state vf) m" using stub_verifier.open_iff r(1) by blast
  from rewrap_opens_to [OF assms(1,3) r(3) this] r(2) show "opens_to C sk' object' cap (tc_state c) m" by simp
  obtain v where v: "stub_verify_state C s tp = Inr v" "seal_verified C r1 r2 pk m cap pf tp v req Current = Inr object"
    using assms(4) by (auto simp: seal_with_verifier_def bind_r_eq_Inr)
  have "as_state v = s" by (rule stub_verifier.verified_as_state [OF v(1)])
  with seal_verified_ok [OF v(2)] w(2) show "open_request_for_object object' e = req\<lparr>rq_epoch := e\<rparr>"
    "o_temporal_policy object' = Current" "o_seal_epoch object' = st_epoch s"
    by (auto simp: open_request_for_object_def put_epoch_wrapper_def split: option.splits)
qed

lemma sealed_wrapper:
  assumes "seal_with_verifier C r1 r2 (stub_verify_state C) pk m cap pf tp s req pol = Inr object"
  shows "\<exists>w. find_wrapper object (st_epoch s) = Some w \<and> w_transparency_proof w = tp"
    "verify_transparency_proof C s tp = Inr ()"
proof -
  obtain v where v: "stub_verify_state C s tp = Inr v" "seal_verified C r1 r2 pk m cap pf tp v req pol = Inr object"
    using assms(1) by (auto simp: seal_with_verifier_def bind_r_eq_Inr)
  have "as_state v = s" by (rule stub_verifier.verified_as_state [OF v(1)])
  with seal_verified_ok [OF v(2)] show "\<exists>w. find_wrapper object (st_epoch s) = Some w \<and> w_transparency_proof w = tp"
    by (auto simp: find_wrapper_def)
  show "verify_transparency_proof C s tp = Inr ()" using v(1) by (auto simp: stub_verify_state_def bind_r_eq_Inr)
qed

lemma tampered_source_rejected:
  assumes "seal_with_verifier C r1 r2 (stub_verify_state C) pk m cap pf tp s req pol = Inr object"
    and "st_transparency_root s \<noteq> []"
  shows "\<not> is_ok (fst (add_epoch_wrapper_and_commit C (in_memory_ops C) r3 r4 log (stub_verify_state C) sk pk' object cap pf
    (s\<lparr>st_transparency_root := flip_first (st_transparency_root s)\<rparr>) t))"
proof
  let ?s = "s\<lparr>st_transparency_root := flip_first (st_transparency_root s)\<rparr>"
  assume ok: "is_ok (fst (add_epoch_wrapper_and_commit C (in_memory_ops C) r3 r4 log (stub_verify_state C) sk pk' object cap pf ?s t))"
  obtain w where "find_wrapper object (st_epoch ?s) = Some w" "w_transparency_proof w = tp"
    using sealed_wrapper(1) [OF assms(1)] by auto
  with rewrap_needs_verified_source [OF ok] have "verify_transparency_proof C ?s tp = Inr ()" by auto
  with sealed_wrapper(2) [OF assms(1)] have "flip_first (st_transparency_root s) = st_transparency_root s"
    by (simp add: verify_transparency_proof_ok)
  with flip_first_neq [OF assms(2)] show False by simp
qed

lemma same_epoch_target_rejected:
  "\<not> is_ok (fst (add_epoch_wrapper_and_commit C (in_memory_ops C) r3 r4 log (stub_verify_state C) sk pk object cap pf s
     (t\<lparr>st_epoch := st_epoch s\<rparr>)))"
proof -
  obtain res log' object' where r: "add_epoch_wrapper_and_commit C (in_memory_ops C) r3 r4 log (stub_verify_state C) sk pk
      object cap pf s (t\<lparr>st_epoch := st_epoch s\<rparr>) = (res, log', object')" by (metis prod_cases3)
  then show ?thesis using rewrap_needs_later_target [of C r3 r4 log sk pk object cap pf s] by (cases res) fastforce+
qed

subsection \<open>Which assertion may fail\<close>

lemma wrapper_checks_ok:
  fixes C data
  defines "cap \<equiv> wrapper_capability C data" and "s \<equiv> wrapper_open_state C data" and "t \<equiv> wrapper_wrap_state C data"
  defines "tree \<equiv> \<lparr>ct_leaf_hashes = [capability_leaf_hash C cap], ct_revoked_stamps = []\<rparr>"
  assumes base: "crypto_correct C" "sig_correct C" "sha_32 C"
      "hash_transparency_node C (transparency_leaf_hash C s) (transparency_leaf_hash C t) \<noteq> zeros 32"
    and issued: "issue_capability C tree0 cap kp (issue_epoch_cert C (wrapper_root_kp data) (epoch_verifying_key_bytes C kp)
        (wrapper_open_epoch data) COMPROMISE_VALIDITY_WINDOW) = (Inr iss, tree)"
      "tc_state c = bind_transparency_root_to_state s (transparency_leaf_hash C s)"
      "lg_entries log = [new_entry s (transparency_leaf_hash C s)]"
    and keys: "keys_match C (kp_public k) (kp_secret k)" "keys_match C (kp_public k') (kp_secret k')"
    and sealed: "seal_with_verifier C r1 r2 (stub_verify_state C) (kp_public k) data cap pf (tc_proof c) (tc_state c)
        (request_for cap (fuzz_policy C ''wrapper-commit-policy-'' (drop 5 data)) (st_epoch (tc_state c))) Current = Inr original"
    and wrapped: "add_epoch_wrapper_and_commit C (in_memory_ops C) r3 r4 log (stub_verify_state C) (kp_secret k) (kp_public k')
        original cap pf (tc_state c) t = (Inr c', log', wrapped)"
    and proof_to: "build_capability_proof C tree cap iss (tc_state c') = Some pf'"
  shows "panics_only {''old recipient secret must not decrypt the rewrapped object''}
    (wrapper_checks C os data cap pf pf' k k' original wrapped c c' log')"
proof -
  note w = rewrapped_object [OF base(1) keys sealed wrapped]
  have commit: "commit_state C log t = (Inr c', log')" using wrapped by (rule rewrap_and_commit_ok)
  have epochs: "st_epoch s \<noteq> st_epoch t"
    using wrapper_epochs(1) [of data] by (auto simp: s_def t_def wrapper_open_state_def wrapper_wrap_state_def wrapper_state_fields)
  note c' = commit_second [OF issued(3) epochs commit]
  have "length (lg_entries log') \<le> 2"
    using commit issued(3) by (cases rule: commit_state_cases [of log t C]) auto
  then have tp: "verify_transparency_proof C (tc_state c') (tc_proof c') = Inr ()"
    by (intro committed_proof_verifies [OF commit]) (simp add: log_small_def)
  have e': "st_epoch (tc_state c') = wrapper_wrap_epoch data" "st_root_pk (tc_state c') = root_verifying_key_bytes C (wrapper_root_kp data)"
    by (simp_all add: c' t_def wrapper_wrap_state_def wrapper_state_fields)
  have "validate_capability C cap pf' (tc_state c') (request_for cap (fuzz_policy C ''wrapper-commit-policy-'' (drop 5 data))
      (wrapper_wrap_epoch data)) = Inr ()"
  proof (rule built_proof_validates [OF base(2) issued(1) [unfolded tree_def] _ wrapper_epochs(4)])
    show "publishes C (tc_state c') \<lparr>ct_leaf_hashes = [capability_leaf_hash C cap], ct_revoked_stamps = []\<rparr>"
      by (simp only: c' t_def wrapper_wrap_state_def cap_def wrapper_publishes)
  qed (use proof_to e' wrapper_grants [of "wrapper_wrap_epoch data" C data] wrapper_epochs(2,3) [of data] in
      \<open>simp_all add: tree_def cap_def request_for_def COMPROMISE_VALIDITY_WINDOW_def\<close>)
  moreover have "open_request_for_object wrapped (wrapper_wrap_epoch data) =
      request_for cap (fuzz_policy C ''wrapper-commit-policy-'' (drop 5 data)) (wrapper_wrap_epoch data)"
    using w(3) [of "wrapper_wrap_epoch data"] by (simp add: request_for_def)
  moreover have "openable_epoch Current (st_epoch (tc_state c)) (wrapper_wrap_epoch data)"
    using wrapper_epochs(1) [of data]
    by (simp add: openable_epoch_simps issued(2) s_def wrapper_open_state_def wrapper_state_fields)
  ultimately have verified: "verify_with_verifier C (stub_verify_state C) wrapped cap pf' (tc_state c') (tc_proof c') = Inr ()"
    using tp w(4,5) e'(1) by (simp add: verify_with_verifier_def stub_verify_state_def verify_verified_ok verified_new_def as_state_def)
  obtain w' where w': "find_wrapper wrapped (st_epoch (tc_state c')) = Some w'" "w_transparency_proof w' = tc_proof c'"
    using w(1) by blast
  have opened: "open_with_verifier C (stub_verify_state C) (kp_secret k') wrapped cap pf' (tc_state c') = Inr data"
    using stub_verifier.open_iff w(2) w' verified by auto
  have "length (transparency_leaf_hash C s) = 32" using base(3) by (simp add: transparency_leaf_hash_def sha_32_def)
  then have "st_transparency_root (tc_state c) \<noteq> []" using issued(2) by auto
  note tampered = tampered_source_rejected [OF sealed this] same_epoch_target_rejected
  show ?thesis
    using w' verified opened tampered base(4) c'
    by (auto simp: wrapper_checks_def panic_vc find_wrapper_def csk2_open_def default_verifier_def t_def ok_or_def Let_def)
qed

lemma rewrap_target_outcome:
  fixes C data
  defines "d \<equiv> bounded data"
  assumes "crypto_correct C" "sig_correct C" "sha_32 C"
    and "hash_transparency_node C (transparency_leaf_hash C (wrapper_open_state C d))
      (transparency_leaf_hash C (wrapper_wrap_state C d)) \<noteq> zeros 32"
  shows "fuzz_add_epoch_wrapper_and_commit_semantic C std_rng os data \<in>
    {Passed, Panicked ''old recipient secret must not decrypt the rewrapped object''}"
proof -
  let ?cap = "wrapper_capability C d" and ?s = "wrapper_open_state C d"
  let ?kp = "epoch_from_seed (deterministic_seed32 (drop 3 d) 0x33)"
  let ?cert = "issue_epoch_cert C (wrapper_root_kp d) (epoch_verifying_key_bytes C ?kp) (wrapper_open_epoch d)
    COMPROMISE_VALIDITY_WINDOW"
  let ?S = "{''old recipient secret must not decrypt the rewrapped object''}"
  have match: "keys_match C (kp_public k) (kp_secret k)" if "recipient_generate C rng = (k, rng')" for k rng rng'
    using generated_keys_match [of C rng] that by simp
  have checks: "panics_only ?S (wrapper_checks C os d ?cap pf pf' k k' original wrapped c c' log')"
    if "issue_capability_and_commit C (in_memory_ops C) log_new (snd (add_capability C tree_new ?cap)) ?cap ?kp ?cert ?s
        = (Inr (iss, c), log, tree)" "recipient_generate C r = (k, rng1)" "recipient_generate C rng1 = (k', rng2)"
      "seal_with_verifier C r1 r2 (stub_verify_state C) (kp_public k) d ?cap pf (tc_proof c) (tc_state c)
        (request_for ?cap (fuzz_policy C ''wrapper-commit-policy-'' (drop 5 d)) (st_epoch (tc_state c))) Current = Inr original"
      "add_epoch_wrapper_and_commit C (in_memory_ops C) r3 r4 log (stub_verify_state C) (kp_secret k) (kp_public k')
        original ?cap pf (tc_state c) (wrapper_wrap_state C d) = (Inr c', log', wrapped)"
      "build_capability_proof C tree ?cap iss (tc_state c') = Some pf'"
    for iss c log tree r k rng1 k' rng2 r1 r2 r3 r4 pf pf' original wrapped c' log'
  proof -
    have "tree = \<lparr>ct_leaf_hashes = [capability_leaf_hash C ?cap], ct_revoked_stamps = []\<rparr> \<and>
        issue_capability C (snd (add_capability C tree_new ?cap)) ?cap ?kp ?cert = (Inr iss, tree) \<and>
        commit_state C log_new ?s = (Inr c, log)"
      by (rule repeated_issue [OF _ _ that(1)]) (simp_all add: wrapper_open_state_def wrapper_state_fields)
    with commit_first show ?thesis
      using wrapper_checks_ok [OF assms(2-5) _ _ _ match [OF that(2)] match [OF that(3)] that(4,5)] that(6) by blast
  qed
  show ?thesis
    unfolding fuzz_add_epoch_wrapper_and_commit_semantic_def d_def [symmetric] Let_def
    using checks outcome_panics_only [where S = ?S]
    by (auto simp: panic_vc ok_or_eq_Inr split: prod.splits)
qed

end
