(* ===== verification/Csk2_Fuzz_Reseal.thy ===== *)
theory Csk2_Fuzz_Reseal
  imports Csk2_Fuzz_Rewrap
begin

text \<open>
  The two resealing targets, \<open>fuzz_open_and_reseal_and_commit_semantic.rs\<close> and \<open>fuzz_open_and_reseal_semantic.rs\<close>.
  Both rest on one fact: resealing succeeds exactly when the object opens and the message can be sealed
  again, and its result is that sealed object. What is left open are the assertions that the old
  recipient cannot open the new object and that two ciphertexts differ.
\<close>

subsection \<open>Resealing is opening and sealing\<close>

context authority_verifier
begin

lemma reseal_iff:
  "open_and_reseal_with_verifier C rng os verify_state sk pk object cap open_proof s seal_proof tp t req pol = Inr object' \<longleftrightarrow>
     (\<exists>m. open_with_verifier C verify_state sk object cap open_proof s = Inr m \<and>
        seal_with_verifier C rng os verify_state pk m cap seal_proof tp t req pol = Inr object')" (is "?l \<longleftrightarrow> ?r")
proof
  assume ?l
  then obtain w v v' where w: "find_wrapper object (st_epoch s) = Some w" "verify_state s (w_transparency_proof w) = Inr v"
      "verify_state t tp = Inr v'"
      "open_and_reseal_verified C rng os sk pk object cap open_proof v seal_proof tp v' req pol = Inr object'"
    by (auto simp: open_and_reseal_with_verifier_def bind_r_eq_Inr ok_or_eq_Inr)
  with verified_as_state [OF w(2)] show ?r
    by (fastforce simp: open_and_reseal_verified_def open_with_verifier_ok seal_with_verifier_def bind_r_eq_Inr
        select_required_wrapper_ok Let_def)
next
  assume ?r
  then obtain m w v v' where w: "find_wrapper object (st_epoch s) = Some w" "verify_state s (w_transparency_proof w) = Inr v"
      "openable_epoch (o_temporal_policy object) (o_seal_epoch object) (st_epoch s)"
      "open_verified C sk object cap open_proof v w (st_epoch s) = Inr m" "verify_state t tp = Inr v'"
      "seal_verified C rng os pk m cap seal_proof tp v' req pol = Inr object'"
    by (auto simp: open_with_verifier_ok seal_with_verifier_def bind_r_eq_Inr select_required_wrapper_ok)
  then show ?l
    using verified_as_state [OF w(2)] select_required_wrapper_ok [of object s "st_epoch s" w]
    by (simp add: open_and_reseal_with_verifier_def open_and_reseal_verified_def ok_or_def Let_def)
qed

text \<open>No state with another log root passes the proof that its neighbour passes.\<close>

lemma tampered_root_rejected:
  assumes "verify_transparency_proof C s tp = Inr ()" "st_transparency_root s \<noteq> []"
  shows "\<not> is_ok (verify_state (s\<lparr>st_transparency_root := flip_first (st_transparency_root s)\<rparr>) tp)"
proof
  let ?s = "s\<lparr>st_transparency_root := flip_first (st_transparency_root s)\<rparr>"
  assume "is_ok (verify_state ?s tp)"
  then have "verify_transparency_proof C ?s tp = Inr ()" using verified_logged by (auto simp: is_ok_iff)
  with assms(1) have "flip_first (st_transparency_root s) = st_transparency_root s"
    by (simp add: verify_transparency_proof_ok)
  with flip_first_neq [OF assms(2)] show False by simp
qed

lemma tampered_root_not_sealed:
  assumes "seal_with_verifier C r1 r2 verify_state pk m cap pf tp s req pol = Inr object" "st_transparency_root s \<noteq> []"
  shows "\<not> is_ok (seal_with_verifier C r3 r4 verify_state pk' m' cap' pf' tp
      (s\<lparr>st_transparency_root := flip_first (st_transparency_root s)\<rparr>) req' pol')"
    "\<not> is_ok (open_with_verifier C verify_state sk object cap' pf'
      (s\<lparr>st_transparency_root := flip_first (st_transparency_root s)\<rparr>))"
proof -
  let ?s = "s\<lparr>st_transparency_root := flip_first (st_transparency_root s)\<rparr>"
  obtain v where v: "verify_state s tp = Inr v" "seal_verified C r1 r2 pk m cap pf tp v req pol = Inr object"
    using assms(1) by (auto simp: seal_with_verifier_def bind_r_eq_Inr)
  note bad = tampered_root_rejected [OF verified_logged [OF v(1)] assms(2)]
  then show "\<not> is_ok (seal_with_verifier C r3 r4 verify_state pk' m' cap' pf' tp ?s req' pol')"
    by (auto simp: is_ok_iff seal_with_verifier_def bind_r_eq_Inr)
  obtain w where "o_wrappers object = [w]" "w_transparency_proof w = tp"
    using seal_verified_ok [OF v(2)] by blast
  with bad show "\<not> is_ok (open_with_verifier C verify_state sk object cap' pf' ?s)"
    by (auto simp: is_ok_iff open_with_verifier_ok find_wrapper_def split: if_splits)
qed

lemma other_epoch_not_sealed:
  assumes "rq_epoch req \<noteq> st_epoch s"
  shows "\<not> is_ok (seal_with_verifier C r1 r2 verify_state pk m cap pf tp s req pol)"
  using assms
  by (auto simp: is_ok_iff seal_with_verifier_def bind_r_eq_Inr validate_capability_ok dest!: seal_verified_ok verified_as_state)

text \<open>What a resealed object offers, and which changes of the inputs make resealing fail.\<close>

lemma reseal_opens:
  assumes "crypto_correct C" "keys_match C pk sk"
    and "seal_with_verifier C r1 r2 verify_state pk m cap pf tp s req pol = Inr object"
    and "open_and_reseal_with_verifier C r3 r4 verify_state sk pk' object cap pf s pf' tp' t req' pol' = Inr object'"
  shows "open_with_verifier C verify_state sk object cap pf s = Inr m"
proof (rule seal_open_roundtrip [OF assms(1-3)])
  have "o_temporal_policy object = pol \<and> o_seal_epoch object = st_epoch s"
    using assms(3) by (auto simp: seal_with_verifier_def bind_r_eq_Inr dest!: seal_verified_ok verified_as_state)
  then show "openable_epoch pol (st_epoch s) (st_epoch s)"
    using assms(4) unfolding reseal_iff by (auto simp: open_with_verifier_ok)
qed

lemma resealed_object:
  assumes "crypto_correct C" "keys_match C pk sk" "keys_match C pk' sk'"
    and "seal_with_verifier C r1 r2 verify_state pk m cap pf tp s req pol = Inr object"
    and "open_and_reseal_with_verifier C r3 r4 verify_state sk pk' object cap pf s pf' tp' t req' Current = Inr object'"
  shows "verify_with_verifier C verify_state object' cap pf' t tp' = Inr ()"
    "open_with_verifier C verify_state sk' object' cap pf' t = Inr m"
    "o_wrappers object' \<noteq> []" "w_epoch (o_wrappers object' ! 0) = st_epoch t"
proof -
  have s': "seal_with_verifier C r3 r4 verify_state pk' m cap pf' tp' t req' Current = Inr object'"
    using assms(5) reseal_opens [OF assms(1,2,4,5)] unfolding reseal_iff by simp
  show "verify_with_verifier C verify_state object' cap pf' t tp' = Inr ()"
    "open_with_verifier C verify_state sk' object' cap pf' t = Inr m"
    using sealed_current [OF assms(1,3) s'] by auto
  show "o_wrappers object' \<noteq> []" "w_epoch (o_wrappers object' ! 0) = st_epoch t"
    using s' by (auto simp: seal_with_verifier_def bind_r_eq_Inr dest!: seal_verified_ok verified_as_state)
qed

lemma reseal_rejects:
  assumes "seal_with_verifier C r1 r2 verify_state pk m cap pf tp s req pol = Inr object"
  shows "st_transparency_root s \<noteq> [] \<Longrightarrow>
      \<not> is_ok (open_and_reseal_with_verifier C r3 r4 verify_state sk pk' object cap pf
        (s\<lparr>st_transparency_root := flip_first (st_transparency_root s)\<rparr>) pf' tp' t req' pol')"
    "rq_epoch req' \<noteq> st_epoch t \<Longrightarrow>
      \<not> is_ok (open_and_reseal_with_verifier C r3 r4 verify_state sk pk' object cap pf s pf' tp' t req' pol')"
  using tampered_root_not_sealed(2) [OF assms, of sk cap pf] other_epoch_not_sealed [of req' t]
  by (auto simp: is_ok_iff reseal_iff)

lemma reseal_rejects_tampered_target:
  assumes "open_and_reseal_with_verifier C r1 r2 verify_state sk pk object cap pf s pf' tp' t req pol = Inr object'"
    and "st_transparency_root t \<noteq> []"
  shows "\<not> is_ok (open_and_reseal_with_verifier C r3 r4 verify_state sk pk object cap pf s pf' tp'
    (t\<lparr>st_transparency_root := flip_first (st_transparency_root t)\<rparr>) req pol')"
  using assms(1) tampered_root_not_sealed(1) [OF _ assms(2)] unfolding reseal_iff by (fastforce simp: is_ok_iff reseal_iff)

lemma reseal_any_policy:
  assumes "open_and_reseal_with_verifier C r1 r2 verify_state sk pk object cap pf s pf' tp' t req pol = Inr object'"
    and "open_with_verifier C verify_state sk object cap pf s = Inr m" "aead_accepts C" "length m < 2 ^ 37"
  shows "is_ok (open_and_reseal_with_verifier C r3 r4 verify_state sk pk object cap pf s pf' tp' t req pol')"
proof -
  obtain v where v: "verify_state t tp' = Inr v" "seal_verified C r1 r2 pk m cap pf' tp' v req pol = Inr object'"
    using assms(1,2) unfolding reseal_iff by (auto simp: seal_with_verifier_def bind_r_eq_Inr)
  have "validate_capability C cap pf' (as_state v) req = Inr ()" using seal_verified_ok [OF v(2)] by blast
  from seal_succeeds [OF this assms(3,4)] v(1) assms(2) show ?thesis
    by (fastforce simp: is_ok_iff reseal_iff seal_with_verifier_def)
qed

end

subsection \<open>The resealing targets\<close>

definition issue_commit_and_proof ::
    "crypto \<Rightarrow> in_memory_log \<Rightarrow> authority_capability_tree \<Rightarrow> capability \<Rightarrow> epoch_signing_key_pair \<Rightarrow>
     epoch_key_cert \<Rightarrow> authority_state \<Rightarrow>
     (capability_proof \<times> transparency_state_commit) option \<times> in_memory_log \<times> authority_capability_tree" where
  "issue_commit_and_proof C log tree cap epoch_kp epoch_cert state =
     (case issue_capability_and_commit C (in_memory_ops C) log tree cap epoch_kp epoch_cert state of
        (Inl _, log, tree) \<Rightarrow> (None, log, tree)
      | (Inr (issuance, commit), log, tree) \<Rightarrow>
          (map_option (\<lambda>proof. (proof, commit)) (build_capability_proof C tree cap issuance (tc_state commit)), log, tree))"

text \<open>\<open>fuzz_open_and_reseal_and_commit_semantic.rs\<close>.\<close>

definition reseal_commit_capability :: "crypto \<Rightarrow> bytes \<Rightarrow> capability" where
  "reseal_commit_capability C data = fuzz_capability ''reseal-commit-subject'' ''reseal-commit-object-'' 0x51
     (rights_union READ DECRYPT) 4096 data (fuzz_policy C ''reseal-commit-policy-'' (drop 5 data))"

definition reseal_commit_root_kp :: "bytes \<Rightarrow> authority_root_key_pair" where
  "reseal_commit_root_kp data = root_from_seed (deterministic_seed32 (drop 1 data) 0x21)"

definition reseal_commit_state :: "crypto \<Rightarrow> bytes \<Rightarrow> u64 \<Rightarrow> bytes \<Rightarrow> authority_state" where
  "reseal_commit_state C data epoch prev_epoch_hash =
     build_state C (snd (add_capability C tree_new (reseal_commit_capability C data)))
       (root_verifying_key_bytes C (reseal_commit_root_kp data)) (fuzz_id ''reseal-commit-fuzz-auth-'' data) epoch
       prev_epoch_hash"

definition reseal_open_epoch :: "bytes \<Rightarrow> u64" where
  "reseal_open_epoch data = saturating_add (bytes_to_u64 (drop 13 data) mod 32) 1"

definition reseal_commit_open_state :: "crypto \<Rightarrow> bytes \<Rightarrow> authority_state" where
  "reseal_commit_open_state C data =
     reseal_commit_state C data (reseal_open_epoch data) (deterministic_seed32 (drop 24 data) 0x41)"

definition reseal_commit_seal_state :: "crypto \<Rightarrow> bytes \<Rightarrow> authority_state" where
  "reseal_commit_seal_state C data =
     reseal_commit_state C data (saturating_add (reseal_open_epoch data)
       (saturating_add (ucast (byte_at data 21) mod 4) 1)) (deterministic_seed32 (drop 56 data) 0x42)"

definition reseal_commit_checks ::
    "crypto \<Rightarrow> (nat \<Rightarrow> rng) \<Rightarrow> bytes \<Rightarrow> capability \<Rightarrow> capability_proof \<Rightarrow> capability_proof \<Rightarrow>
     recipient_key_pair \<Rightarrow> recipient_key_pair \<Rightarrow> csk2_object \<Rightarrow> transparency_state_commit \<Rightarrow>
     transparency_state_commit \<Rightarrow> open_request \<Rightarrow> in_memory_log \<Rightarrow> unit fuzz" where
  "reseal_commit_checks C os data cap open_proof reseal_proof original_recipient new_recipient original open_commit
      reseal_commit reseal_request log =
     (let V = stub_verify_state C;
          reseal = (\<lambda>i log open_state request. open_and_reseal_and_commit C (in_memory_ops C) (os i) (os (i + 1)) log V
            (kp_secret original_recipient) (kp_public new_recipient) original cap open_proof open_state reseal_proof
            (tc_state reseal_commit) request Current);
          (res, log) = reseal 2 log (tc_state open_commit) reseal_request in
      bind_r (or_return res) (\<lambda>(resealed, committed).
      bind_r (fuzz_assert ''recommit must stay idempotent for the same seal state'' (committed = reseal_commit)) (\<lambda>_.
      bind_r (fuzz_assert ''transparency root'' (st_transparency_root (tc_state committed) \<noteq> zeros 32)) (\<lambda>_.
      bind_r (fuzz_assert ''index out of bounds'' (o_wrappers resealed \<noteq> [])) (\<lambda>_.
      bind_r (fuzz_assert ''wrapper epoch'' (w_epoch (o_wrappers resealed ! 0) = st_epoch (tc_state committed))) (\<lambda>_.
      bind_r (fuzz_assert ''resealed object must verify against the returned commit state''
        (is_ok (verify_with_verifier C V resealed cap reseal_proof (tc_state committed) (tc_proof committed)))) (\<lambda>_.
      bind_r (expect (csk2_open C True (kp_secret new_recipient) resealed cap reseal_proof (tc_state committed))
        ''new recipient must open resealed object'') (\<lambda>opened.
      bind_r (fuzz_assert ''opened'' (opened = data)) (\<lambda>_.
      bind_r (fuzz_assert ''old recipient secret must not decrypt the resealed object''
        (\<not> is_ok (csk2_open C True (kp_secret original_recipient) resealed cap reseal_proof (tc_state committed)))) (\<lambda>_.
      let tampered_open_state = (tc_state open_commit)\<lparr>st_transparency_root :=
            flip_first (st_transparency_root (tc_state open_commit))\<rparr>;
          (res, log) = reseal 4 log tampered_open_state reseal_request in
      bind_r (fuzz_assert ''tampered open state must fail verification'' (\<not> is_ok res)) (\<lambda>_.
      let tampered_reseal_request = reseal_request\<lparr>rq_epoch := rq_epoch reseal_request + 1\<rparr> in
      fuzz_assert ''tampered reseal request epoch must be rejected''
        (\<not> is_ok (fst (reseal 6 log (tc_state open_commit) tampered_reseal_request))))))))))))))"

definition fuzz_open_and_reseal_and_commit_semantic ::
    "crypto \<Rightarrow> (bytes \<Rightarrow> rng) \<Rightarrow> (nat \<Rightarrow> rng) \<Rightarrow> bytes \<Rightarrow> fuzz_run" where
  "fuzz_open_and_reseal_and_commit_semantic C std_rng os data0 =
     (let data = bounded data0;
          rng = std_rng (deterministic_seed32 data 0x11);
          root_kp = reseal_commit_root_kp data;
          epoch_kp = epoch_from_seed (deterministic_seed32 (drop 3 data) 0x31);
          cap = reseal_commit_capability C data;
          policy_hash = fuzz_policy C ''reseal-commit-policy-'' (drop 5 data);
          tree = snd (add_capability C tree_new cap);
          open_state = reseal_commit_open_state C data;
          reseal_state = reseal_commit_seal_state C data;
          open_epoch_cert = issue_epoch_cert C root_kp (epoch_verifying_key_bytes C epoch_kp) (st_epoch open_state)
            COMPROMISE_VALIDITY_WINDOW;
          (issued, log, tree) = issue_commit_and_proof C log_new tree cap epoch_kp open_epoch_cert open_state
      in outcome (bind_r (or_return (ok_or issued ())) (\<lambda>(open_proof, open_commit).
         let (original_recipient, rng) = recipient_generate C rng;
             open_request = request_for cap policy_hash (st_epoch (tc_state open_commit)) in
         bind_r (or_return (seal_with_verifier C (os 0) (os 1) (stub_verify_state C) (kp_public original_recipient) data
           cap open_proof (tc_proof open_commit) (tc_state open_commit) open_request Current)) (\<lambda>original.
         let reseal_epoch_cert = issue_epoch_cert C root_kp (epoch_verifying_key_bytes C epoch_kp)
               (st_epoch reseal_state) COMPROMISE_VALIDITY_WINDOW;
             (issued, log, tree) = issue_commit_and_proof C log tree cap epoch_kp reseal_epoch_cert reseal_state in
         bind_r (or_return (ok_or issued ())) (\<lambda>(reseal_proof, reseal_commit).
         let reseal_request = request_for cap policy_hash (st_epoch (tc_state reseal_commit));
             (new_recipient, rng) = recipient_generate C rng in
         reseal_commit_checks C os data cap open_proof reseal_proof original_recipient new_recipient original
           open_commit reseal_commit reseal_request log)))))"

text \<open>\<open>fuzz_open_and_reseal_semantic.rs\<close>.\<close>

definition reseal_semantic_capability :: "crypto \<Rightarrow> bytes \<Rightarrow> capability" where
  "reseal_semantic_capability C data = fuzz_capability ''reseal-semantic-subject'' ''reseal-semantic-object-'' 0xA1
     (rights_union READ DECRYPT) 4096 data (fuzz_policy C ''reseal-semantic-policy-'' (drop 5 data))"

definition reseal_semantic_root_kp :: "bytes \<Rightarrow> authority_root_key_pair" where
  "reseal_semantic_root_kp data = root_from_seed (deterministic_seed32 (drop 1 data) 0x25)"

definition reseal_semantic_state :: "crypto \<Rightarrow> bytes \<Rightarrow> u64 \<Rightarrow> bytes \<Rightarrow> authority_state" where
  "reseal_semantic_state C data epoch prev_epoch_hash =
     build_state C (snd (add_capability C tree_new (reseal_semantic_capability C data)))
       (root_verifying_key_bytes C (reseal_semantic_root_kp data)) (fuzz_id ''reseal-semantic-auth-'' data) epoch
       prev_epoch_hash"

definition reseal_semantic_open_state :: "crypto \<Rightarrow> bytes \<Rightarrow> authority_state" where
  "reseal_semantic_open_state C data =
     reseal_semantic_state C data (reseal_open_epoch data) (deterministic_seed32 (drop 28 data) 0x45)"

definition reseal_semantic_seal_state :: "crypto \<Rightarrow> bytes \<Rightarrow> authority_state" where
  "reseal_semantic_seal_state C data =
     reseal_semantic_state C data (saturating_add (reseal_open_epoch data)
       (saturating_add (ucast (byte_at data 21) mod 6) 1)) (deterministic_seed32 (drop 60 data) 0x46)"

definition temporal_policy_for_open :: "bytes \<Rightarrow> u64 \<Rightarrow> temporal_policy" where
  "temporal_policy_for_open data open_epoch =
     (if bytes_to_bool (drop 24 data) then ResealRequired (saturating_add open_epoch 1) else Current)"

definition reseal_semantic_checks ::
    "crypto \<Rightarrow> (nat \<Rightarrow> rng) \<Rightarrow> bytes \<Rightarrow> capability \<Rightarrow> capability_proof \<Rightarrow> capability_proof \<Rightarrow>
     recipient_key_pair \<Rightarrow> recipient_key_pair \<Rightarrow> csk2_object \<Rightarrow> transparency_state_commit \<Rightarrow>
     transparency_state_commit \<Rightarrow> open_request \<Rightarrow> temporal_policy \<Rightarrow> authority_capability_tree \<Rightarrow> unit fuzz" where
  "reseal_semantic_checks C os data cap open_proof seal_proof original_recipient new_recipient original open_commit
      seal_commit seal_request original_policy tree =
     (let V = stub_verify_state C;
          reseal = (\<lambda>i open_state seal_state policy. open_and_reseal C True (os i) (os (i + 1))
            (kp_secret original_recipient) (kp_public new_recipient) original cap open_proof open_state seal_proof
            (tc_proof seal_commit) seal_state seal_request policy) in
      bind_r (or_return (reseal 2 (tc_state open_commit) (tc_state seal_commit) Current)) (\<lambda>resealed.
      bind_r (or_return (ok_or (build_capability_proof C tree cap (cp_issuance seal_proof) (tc_state seal_commit)) ()))
        (\<lambda>reseal_proof.
      bind_r (fuzz_assert ''payload ciphertexts differ''
        (o_payload_ciphertext original \<noteq> o_payload_ciphertext resealed)) (\<lambda>_.
      bind_r (fuzz_assert ''index out of bounds'' (o_wrappers resealed \<noteq> [])) (\<lambda>_.
      bind_r (fuzz_assert ''wrapper epoch'' (w_epoch (o_wrappers resealed ! 0) = st_epoch (tc_state seal_commit))) (\<lambda>_.
      bind_r (fuzz_assert ''resealed object must verify against the committed seal state''
        (is_ok (verify_with_verifier C V resealed cap reseal_proof (tc_state seal_commit) (tc_proof seal_commit)))) (\<lambda>_.
      bind_r (expect (csk2_open C True (kp_secret new_recipient) resealed cap reseal_proof (tc_state seal_commit))
        ''new recipient must open resealed object'') (\<lambda>opened.
      bind_r (fuzz_assert ''opened'' (opened = data)) (\<lambda>_.
      bind_r (fuzz_assert ''old recipient secret must not decrypt the resealed object''
        (\<not> is_ok (csk2_open C True (kp_secret original_recipient) resealed cap reseal_proof (tc_state seal_commit)))) (\<lambda>_.
      bind_r (fuzz_assert ''tampered open state must be rejected''
        (\<not> is_ok (reseal 4 ((tc_state open_commit)\<lparr>st_transparency_root :=
          flip_first (st_transparency_root (tc_state open_commit))\<rparr>) (tc_state seal_commit) Current))) (\<lambda>_.
      bind_r (fuzz_assert ''tampered seal state must be rejected''
        (\<not> is_ok (reseal 6 (tc_state open_commit) ((tc_state seal_commit)\<lparr>st_transparency_root :=
          flip_first (st_transparency_root (tc_state seal_commit))\<rparr>) Current))) (\<lambda>_.
      fuzz_assert ''original temporal policy must not block a valid reseal path''
        (is_ok (reseal 8 (tc_state open_commit) (tc_state seal_commit) original_policy))))))))))))))"

definition fuzz_open_and_reseal_semantic ::
    "crypto \<Rightarrow> (bytes \<Rightarrow> rng) \<Rightarrow> (nat \<Rightarrow> rng) \<Rightarrow> bytes \<Rightarrow> fuzz_run" where
  "fuzz_open_and_reseal_semantic C std_rng os data0 =
     (let data = bounded data0;
          rng = std_rng (deterministic_seed32 data 0x15);
          root_kp = reseal_semantic_root_kp data;
          epoch_kp = epoch_from_seed (deterministic_seed32 (drop 3 data) 0x35);
          cap = reseal_semantic_capability C data;
          policy_hash = fuzz_policy C ''reseal-semantic-policy-'' (drop 5 data);
          tree = snd (add_capability C tree_new cap);
          open_state = reseal_semantic_open_state C data;
          seal_state = reseal_semantic_seal_state C data;
          open_epoch_cert = issue_epoch_cert C root_kp (epoch_verifying_key_bytes C epoch_kp) (st_epoch open_state)
            VALIDITY_WINDOW;
          (issued, log, tree) = issue_commit_and_proof C log_new tree cap epoch_kp open_epoch_cert open_state
      in outcome (bind_r (or_return (ok_or issued ())) (\<lambda>(open_proof, open_commit).
         let (original_recipient, rng) = recipient_generate C rng;
             open_request = request_for cap policy_hash (st_epoch (tc_state open_commit));
             original_policy = temporal_policy_for_open data (st_epoch open_state) in
         bind_r (or_return (seal_with_verifier C (os 0) (os 1) (stub_verify_state C) (kp_public original_recipient) data
           cap open_proof (tc_proof open_commit) (tc_state open_commit) open_request original_policy)) (\<lambda>original.
         let seal_epoch_cert = issue_epoch_cert C root_kp (epoch_verifying_key_bytes C epoch_kp)
               (st_epoch seal_state) VALIDITY_WINDOW;
             (issued, log, tree) = issue_commit_and_proof C log tree cap epoch_kp seal_epoch_cert seal_state in
         bind_r (or_return (ok_or issued ())) (\<lambda>(seal_proof, seal_commit).
         let seal_request = request_for cap policy_hash (st_epoch (tc_state seal_commit));
             (new_recipient, rng) = recipient_generate C rng in
         reseal_semantic_checks C os data cap open_proof seal_proof original_recipient new_recipient original
           open_commit seal_commit seal_request original_policy tree)))))"

subsection \<open>Which assertions may fail\<close>

lemma issue_commit_and_proof_ok:
  assumes "issue_commit_and_proof C log0 (snd (add_capability C tree_new cap)) cap kp cert s = (Some (pf, c), log, tree)"
    and "st_authority_root s = merkle_root C [capability_leaf_hash C cap]" "st_transparency_root s = zeros 32"
  shows "tree = snd (add_capability C tree_new cap) \<and> commit_state C log0 s = (Inr c, log)"
proof -
  obtain iss where "issue_capability_and_commit C (in_memory_ops C) log0 (snd (add_capability C tree_new cap)) cap kp cert s
      = (Inr (iss, c), log, tree)"
    using assms(1) by (auto simp: issue_commit_and_proof_def split: prod.splits sum.splits)
  from repeated_issue [OF assms(2,3) this] show ?thesis by (simp add: singleton_tree)
qed

lemma recommit_bound_state:
  assumes "commit_state C log s = (Inr c, log')"
  shows "commit_state C log' (tc_state c) = (Inr c, log')"
proof -
  obtain r where "tc_state c = bind_transparency_root_to_state s r"
    using assms by (cases rule: commit_state_cases [of log s C]) auto
  moreover have "commit_state C log' (bind_transparency_root_to_state s r) = commit_state C log' s"
    by (simp add: commit_state_def transparency_leaf_hash_def transparency_transcript_def bind_transparency_root_to_state_def
        new_entry_def Let_def split: option.splits)
  ultimately show ?thesis using commit_idempotent [OF assms] by simp
qed

lemma reseal_and_commit_iff:
  assumes "commit_state C log (tc_state c) = (Inr c, log)"
  shows "open_and_reseal_and_commit C (in_memory_ops C) r1 r2 log V sk pk object cap pf s pf' (tc_state c) req pol =
    (map_sum id (\<lambda>o'. (o', c)) (open_and_reseal_with_verifier C r1 r2 V sk pk object cap pf s pf' (tc_proof c) (tc_state c) req pol), log)"
  using assms
  by (cases "open_and_reseal_with_verifier C r1 r2 V sk pk object cap pf s pf' (tc_proof c) (tc_state c) req pol")
     (simp_all add: open_and_reseal_and_commit_def in_memory_ops_def)

lemma map_sum_result [simp]:
  "is_ok (map_sum f g r) \<longleftrightarrow> is_ok r" "map_sum f g r = Inr y \<longleftrightarrow> (\<exists>x. r = Inr x \<and> y = g x)"
  by (cases r; auto)+

lemma reseal_commit_checks_ok:
  assumes "crypto_correct C" "keys_match C (kp_public k) (kp_secret k)" "keys_match C (kp_public k') (kp_secret k')"
    and "commit_state C log (tc_state c') = (Inr c', log)" "st_transparency_root (tc_state c') \<noteq> zeros 32"
    and "st_transparency_root (tc_state c) \<noteq> []" "rq_epoch req' = st_epoch (tc_state c')"
    and "seal_with_verifier C r1 r2 (stub_verify_state C) (kp_public k) data cap pf (tc_proof c) (tc_state c) req pol = Inr original"
  shows "panics_only {''old recipient secret must not decrypt the resealed object''}
    (reseal_commit_checks C os data cap pf pf' k k' original c c' req' log)"
proof -
  note r = stub_verifier.resealed_object [OF assms(1-3,8)] and bad = stub_verifier.reseal_rejects [OF assms(8)]
  have "rq_epoch (req'\<lparr>rq_epoch := rq_epoch req' + 1\<rparr>) \<noteq> st_epoch (tc_state c')" using assms(7) by simp
  note bad = bad(1) [OF assms(6)] bad(2) [OF this]
  show ?thesis
    using assms(5) r
    by (auto simp: reseal_commit_checks_def panic_vc reseal_and_commit_iff [OF assms(4)] bad csk2_open_def default_verifier_def
        Let_def split: prod.splits)
qed

text \<open>The states of the two targets: one tree, two epochs, both committed.\<close>

definition reseal_states :: "crypto \<Rightarrow> capability \<Rightarrow> authority_state \<Rightarrow> authority_state \<Rightarrow> bool" where
  "reseal_states C cap s t \<longleftrightarrow> st_epoch s \<noteq> st_epoch t \<and> (\<forall>u \<in> {s, t}.
     st_authority_root u = merkle_root C [capability_leaf_hash C cap] \<and> st_transparency_root u = zeros 32)"

lemma reseal_epochs:
  assumes "0 < n" "n < 100"
  shows "reseal_open_epoch data < saturating_add (reseal_open_epoch data) (saturating_add (ucast (byte_at data 21) mod n) 1)"
proof -
  have m: "unat (bytes_to_u64 (drop 13 data) mod 32) < 32" by (simp add: unat_mod)
  have "ucast (byte_at data 21) mod n < n" using assms(1) by (simp add: word_mod_less_divisor)
  with assms(2) have "unat (ucast (byte_at data 21) mod n) < 100" by (simp add: word_less_nat_alt)
  with m show ?thesis by (simp add: word_less_nat_alt reseal_open_epoch_def unat_saturating_add)
qed

lemma reseal_target_states:
  "reseal_states C (reseal_commit_capability C data) (reseal_commit_open_state C data) (reseal_commit_seal_state C data)"
  "reseal_states C (reseal_semantic_capability C data) (reseal_semantic_open_state C data) (reseal_semantic_seal_state C data)"
  using reseal_epochs [of 4 data] reseal_epochs [of 6 data]
  by (auto simp: reseal_states_def reseal_commit_open_state_def reseal_commit_seal_state_def reseal_commit_state_def
      reseal_semantic_open_state_def reseal_semantic_seal_state_def reseal_semantic_state_def build_state_def singleton_tree
      tree_authority_root_def)

lemma reseal_commits:
  assumes "reseal_states C cap s t" "sha_32 C"
      "hash_transparency_node C (transparency_leaf_hash C s) (transparency_leaf_hash C t) \<noteq> zeros 32"
    and "issue_commit_and_proof C log_new (snd (add_capability C tree_new cap)) cap kp cert s = (Some (pf, c), log, tree)"
      "issue_commit_and_proof C log tree cap kp cert' t = (Some (pf', c'), log', tree')"
  shows "commit_state C log' (tc_state c') = (Inr c', log')" "st_transparency_root (tc_state c') \<noteq> zeros 32"
    "st_transparency_root (tc_state c') \<noteq> []" "st_transparency_root (tc_state c) \<noteq> []"
    "tree' = snd (add_capability C tree_new cap)"
proof -
  have c: "tree = snd (add_capability C tree_new cap)" "commit_state C log_new s = (Inr c, log)"
    using issue_commit_and_proof_ok [OF assms(4)] assms(1) by (auto simp: reseal_states_def)
  have c': "tree' = snd (add_capability C tree_new cap)" "commit_state C log t = (Inr c', log')"
    using issue_commit_and_proof_ok [OF assms(5) [unfolded c(1)]] assms(1) by (auto simp: reseal_states_def)
  show "tree' = snd (add_capability C tree_new cap)" by (rule c'(1))
  show "commit_state C log' (tc_state c') = (Inr c', log')" by (rule recommit_bound_state [OF c'(2)])
  have root: "st_transparency_root (tc_state c') = hash_transparency_node C (transparency_leaf_hash C s) (transparency_leaf_hash C t)"
    using commit_second [OF commit_first(1) [OF c(2)] _ c'(2)] assms(1) by (simp add: reseal_states_def)
  have len: "length (transparency_leaf_hash C u) = 32" "length (hash_transparency_node C x y) = 32" for u x y
    using assms(2) by (simp_all add: transparency_leaf_hash_def hash_transparency_node_def sha_32_def)
  from root assms(3) show "st_transparency_root (tc_state c') \<noteq> zeros 32" by simp
  show "st_transparency_root (tc_state c') \<noteq> []" "st_transparency_root (tc_state c) \<noteq> []"
    using root len commit_first(2) [OF c(2)] by (metis list.size(3) zero_neq_numeral bind_root_simps)+
qed

lemma reseal_commit_target_outcome:
  fixes C data
  defines "d \<equiv> bounded data"
  assumes "crypto_correct C" "sha_32 C"
    and "hash_transparency_node C (transparency_leaf_hash C (reseal_commit_open_state C d))
      (transparency_leaf_hash C (reseal_commit_seal_state C d)) \<noteq> zeros 32"
  shows "fuzz_open_and_reseal_and_commit_semantic C std_rng os data \<in>
    {Passed, Panicked ''old recipient secret must not decrypt the resealed object''}"
proof -
  let ?S = "{''old recipient secret must not decrypt the resealed object''}"
  have match: "keys_match C (kp_public k) (kp_secret k)" if "recipient_generate C rng = (k, rng')" for k rng rng'
    using generated_keys_match [of C rng] that by simp
  note commits = reseal_commits [OF reseal_target_states(1) assms(3,4)]
  show ?thesis
    unfolding fuzz_open_and_reseal_and_commit_semantic_def d_def [symmetric] Let_def
    using outcome_panics_only [where S = ?S]
    by (auto simp: panic_vc ok_or_eq_Inr request_for_def split: prod.splits
        intro!: reseal_commit_checks_ok [OF assms(2) match match] dest: commits)
qed

lemma rebuilt_proof:
  assumes "issue_commit_and_proof C log0 tree0 cap kp cert s = (Some (pf, c), log, tree)"
  shows "build_capability_proof C tree cap (cp_issuance pf) (tc_state c) = Some pf"
  using assms by (auto simp: issue_commit_and_proof_def build_capability_proof_def split: prod.splits sum.splits option.splits)

lemma reseal_semantic_checks_ok:
  assumes "crypto_correct C" "keys_match C (kp_public k) (kp_secret k)" "keys_match C (kp_public k') (kp_secret k')"
    and "aead_accepts C" "length data < 2 ^ 37"
    and "st_transparency_root (tc_state c') \<noteq> []" "st_transparency_root (tc_state c) \<noteq> []"
    and "build_capability_proof C tree cap (cp_issuance pf') (tc_state c') = Some pf'"
    and "seal_with_verifier C r1 r2 (stub_verify_state C) (kp_public k) data cap pf (tc_proof c) (tc_state c) req pol = Inr original"
  shows "panics_only {''payload ciphertexts differ'', ''old recipient secret must not decrypt the resealed object''}
    (reseal_semantic_checks C os data cap pf pf' k k' original c c' req' pol tree)"
proof -
  let ?reseal = "open_and_reseal_with_verifier C (os 2) (os 3) (stub_verify_state C) (kp_secret k) (kp_public k') original cap pf
    (tc_state c) pf' (tc_proof c') (tc_state c') req' Current"
  note bad = stub_verifier.reseal_rejects(1) [OF assms(9,7)]
  have checks: "verify_with_verifier C (stub_verify_state C) object' cap pf' (tc_state c') (tc_proof c') = Inr ()"
      "open_with_verifier C (stub_verify_state C) (kp_secret k') object' cap pf' (tc_state c') = Inr data"
      "o_wrappers object' \<noteq> []" "w_epoch (o_wrappers object' ! 0) = st_epoch (tc_state c')"
      "\<not> is_ok (open_and_reseal_with_verifier C r3 r4 (stub_verify_state C) (kp_secret k) (kp_public k') original cap pf
        (tc_state c) pf' (tc_proof c') ((tc_state c')\<lparr>st_transparency_root := flip_first (st_transparency_root (tc_state c'))\<rparr>)
        req' Current)"
      "is_ok (open_and_reseal_with_verifier C r3 r4 (stub_verify_state C) (kp_secret k) (kp_public k') original cap pf
        (tc_state c) pf' (tc_proof c') (tc_state c') req' pol)"
    if "?reseal = Inr object'" for object' r3 r4
  proof -
    note r = stub_verifier.resealed_object [OF assms(1-3,9) that]
    from r show "verify_with_verifier C (stub_verify_state C) object' cap pf' (tc_state c') (tc_proof c') = Inr ()"
      "open_with_verifier C (stub_verify_state C) (kp_secret k') object' cap pf' (tc_state c') = Inr data"
      "o_wrappers object' \<noteq> []" "w_epoch (o_wrappers object' ! 0) = st_epoch (tc_state c')" by auto
    show "\<not> is_ok (open_and_reseal_with_verifier C r3 r4 (stub_verify_state C) (kp_secret k) (kp_public k') original cap pf
        (tc_state c) pf' (tc_proof c') ((tc_state c')\<lparr>st_transparency_root := flip_first (st_transparency_root (tc_state c'))\<rparr>)
        req' Current)"
      by (rule stub_verifier.reseal_rejects_tampered_target [OF that assms(6)])
    show "is_ok (open_and_reseal_with_verifier C r3 r4 (stub_verify_state C) (kp_secret k) (kp_public k') original cap pf
        (tc_state c) pf' (tc_proof c') (tc_state c') req' pol)"
      by (rule stub_verifier.reseal_any_policy [OF that stub_verifier.reseal_opens [OF assms(1,2,9) that] assms(4,5)])
  qed
  show ?thesis
    using checks
    by (auto simp: reseal_semantic_checks_def panic_vc open_and_reseal_def csk2_open_def default_verifier_def bad assms(8)
        ok_or_eq_Inr Let_def)
qed

lemma reseal_target_outcome:
  fixes C data
  defines "d \<equiv> bounded data"
  assumes "crypto_correct C" "aead_accepts C" "sha_32 C"
    and "hash_transparency_node C (transparency_leaf_hash C (reseal_semantic_open_state C d))
      (transparency_leaf_hash C (reseal_semantic_seal_state C d)) \<noteq> zeros 32"
  shows "fuzz_open_and_reseal_semantic C std_rng os data \<in>
    {Passed, Panicked ''payload ciphertexts differ'', Panicked ''old recipient secret must not decrypt the resealed object''}"
proof -
  let ?S = "{''payload ciphertexts differ'', ''old recipient secret must not decrypt the resealed object''}"
  have match: "keys_match C (kp_public k) (kp_secret k)" if "recipient_generate C rng = (k, rng')" for k rng rng'
    using generated_keys_match [of C rng] that by simp
  have small: "length d < 2 ^ 37" by (simp add: d_def bounded_def MAX_SLICE_LEN_def)
  note commits = reseal_commits [OF reseal_target_states(2) assms(4,5)]
  show ?thesis
    unfolding fuzz_open_and_reseal_semantic_def d_def [symmetric] Let_def
    using outcome_panics_only [where S = ?S]
    by (auto simp: panic_vc ok_or_eq_Inr split: prod.splits
        intro!: reseal_semantic_checks_ok [OF assms(2) match match assms(3) small] dest: commits rebuilt_proof)
qed

end
