(* ===== verification/Csk2_Fuzz_Tsig.thy ===== *)
theory Csk2_Fuzz_Tsig
  imports Csk2_Fuzz_Rewrap
begin

text \<open>
  The target of the threshold-signed certificate chain, \<open>fuzz_tsig_cert_chain_semantic.rs\<close>: an object sealed
  under a two-of-three verifier is checked against up to twelve verifiers with one piece of evidence
  changed each. The outcome is computed: the target panics exactly when one of the bytes that select a
  change is 8 modulo 9, where only the caller's transparency proof is changed, which opening never reads.
\<close>

subsection \<open>The target\<close>

definition TSIG_EPOCH :: u64 where "TSIG_EPOCH = 7"
definition TSIG_VALIDITY_WINDOW :: u64 where "TSIG_VALIDITY_WINDOW = 128"

definition tsig_capability :: "crypto \<Rightarrow> bytes \<Rightarrow> capability" where
  "tsig_capability C data =
     (fuzz_capability ''tsig-fuzz-subject'' ''tsig-fuzz-object-'' 0xC1 (rights_union READ DECRYPT) 128 data
        (fuzz_policy C ''tsig-cert-chain-policy-'' (drop 13 data)))
       \<lparr>cap_nonce := take 16 (deterministic_seed32 (drop 9 data) 0xC1)\<rparr>"

definition tsig_root_kp :: "bytes \<Rightarrow> authority_root_key_pair" where
  "tsig_root_kp data = root_from_seed (deterministic_seed32 (drop 1 data) 0x21)"

definition tsig_issuance_kp :: "bytes \<Rightarrow> epoch_signing_key_pair" where
  "tsig_issuance_kp data = epoch_from_seed (deterministic_seed32 (drop 3 data) 0x33)"

definition tsig_kps :: "bytes \<Rightarrow> epoch_signing_key_pair list" where
  "tsig_kps data = [epoch_from_seed (deterministic_seed32 (drop 5 data) 0x41),
     epoch_from_seed (deterministic_seed32 (drop 7 data) 0x42),
     epoch_from_seed (deterministic_seed32 (drop 11 data) 0x43)]"

definition tsig_state :: "crypto \<Rightarrow> bytes \<Rightarrow> authority_state" where
  "tsig_state C data = build_state C (snd (add_capability C tree_new (tsig_capability C data)))
     (root_verifying_key_bytes C (tsig_root_kp data)) (fuzz_id ''tsig-fuzz-authority-'' data) TSIG_EPOCH (zeros 32)"

definition tsig_keys :: "crypto \<Rightarrow> bytes \<Rightarrow> bytes list" where
  "tsig_keys C data = map (epoch_verifying_key_bytes C) (tsig_kps data)"

definition tsig_sign_as :: "crypto \<Rightarrow> bytes \<Rightarrow> authority_state \<Rightarrow> nat \<Rightarrow> threshold_partial_sig" where
  "tsig_sign_as C data s i = tsig_sign C (st_authority_root s) (st_revocation_root s) (st_transparency_root s)
     (st_epoch s) (st_prev_epoch_hash s) (tsig_kps data ! i) (word_of_nat i)"

definition tsig_base_set :: "crypto \<Rightarrow> bytes \<Rightarrow> authority_state \<Rightarrow> threshold_signature_set" where
  "tsig_base_set C data s = tsig_add (tsig_add (tsig_new 2) (tsig_sign_as C data s 0)) (tsig_sign_as C data s 1)"

definition tsig_cert :: "crypto \<Rightarrow> bytes \<Rightarrow> authority_state \<Rightarrow> epoch_key_cert" where
  "tsig_cert C data s = issue_epoch_cert C (tsig_root_kp data) (tsig_keys C data ! 0) (st_epoch s) TSIG_VALIDITY_WINDOW"

definition tsig_verifier ::
    "crypto \<Rightarrow> bytes \<Rightarrow> authority_state \<Rightarrow> epoch_key_cert \<Rightarrow> bytes list \<Rightarrow> threshold_signature_set \<Rightarrow>
     crypto_authority_verifier" where
  "tsig_verifier C data s cert keys sset =
     add_evidence_tsig (with_root_pk (root_verifying_key_bytes C (tsig_root_kp data))) (st_authority_id s) (st_epoch s)
       (tsig_keys C data ! 0) cert keys sset"

definition build_base_verifier :: "crypto \<Rightarrow> bytes \<Rightarrow> authority_state \<Rightarrow> crypto_authority_verifier" where
  "build_base_verifier C data s = tsig_verifier C data s (tsig_cert C data s) (tsig_keys C data) (tsig_base_set C data s)"

text \<open>The five variables of one round, and the change that the selector makes to one of them.\<close>

record tsig_round_vars =
  tv_state :: authority_state
  tv_keys :: "bytes list"
  tv_set :: threshold_signature_set
  tv_cert :: epoch_key_cert
  tv_proof :: transparency_proof

definition tsig_partial1 ::
    "(threshold_partial_sig \<Rightarrow> threshold_partial_sig) \<Rightarrow> threshold_signature_set \<Rightarrow> threshold_signature_set" where
  "tsig_partial1 f sset = sset\<lparr>ts_partials := (ts_partials sset)[1 := f (ts_partials sset ! 1)]\<rparr>"

definition tsig_mutate :: "crypto \<Rightarrow> byte \<Rightarrow> tsig_round_vars \<Rightarrow> tsig_round_vars" where
  "tsig_mutate C selector m =
     (let k = selector mod 9 in
      if k = 0 then m\<lparr>tv_set := (tv_set m)\<lparr>ts_threshold := 0\<rparr>\<rparr>
      else if k = 1 then m\<lparr>tv_set := (tv_set m)\<lparr>ts_threshold := 4\<rparr>\<rparr>
      else if k = 2 then m\<lparr>tv_set := tsig_partial1 (ps_signer_index_update (\<lambda>_. 0)) (tv_set m)\<rparr>
      else if k = 3 then m\<lparr>tv_set := tsig_partial1 (ps_sig_update flip_top) (tv_set m)\<rparr>
      else if k = 4 then m\<lparr>tv_keys := (tv_keys m)[1 := flip_first (tv_keys m ! 1)]\<rparr>
      else if k = 5 then m\<lparr>tv_cert := (tv_cert m)\<lparr>ec_epoch := saturating_add (ec_epoch (tv_cert m)) 1\<rparr>\<rparr>
      else if k = 6 then m\<lparr>tv_cert := (tv_cert m)\<lparr>ec_validity_window := 0\<rparr>\<rparr>
      else if k = 7 then
        let state = (tv_state m)\<lparr>st_prev_epoch_hash := flip_first (st_prev_epoch_hash (tv_state m))\<rparr>
        in m\<lparr>tv_state := state, tv_proof := (tv_proof m)\<lparr>tp_leaf_hash := transparency_leaf_hash C state\<rparr>\<rparr>
      else m\<lparr>tv_proof := (tv_proof m)\<lparr>tp_leaf_hash := flip_first (tp_leaf_hash (tv_proof m))\<rparr>\<rparr>)"

definition tsig_base_vars :: "crypto \<Rightarrow> bytes \<Rightarrow> transparency_state_commit \<Rightarrow> tsig_round_vars" where
  "tsig_base_vars C data commit = \<lparr>tv_state = tc_state commit, tv_keys = tsig_keys C data,
     tv_set = tsig_base_set C data (tc_state commit), tv_cert = tsig_cert C data (tc_state commit),
     tv_proof = tc_proof commit\<rparr>"

definition tsig_round ::
    "crypto \<Rightarrow> bytes \<Rightarrow> recipient_key_pair \<Rightarrow> csk2_object \<Rightarrow> capability \<Rightarrow> capability_proof \<Rightarrow>
     transparency_state_commit \<Rightarrow> unit \<Rightarrow> byte \<Rightarrow> unit fuzz" where
  "tsig_round C data recipient object cap proof commit _ selector =
     (let m = tsig_mutate C selector (tsig_base_vars C data commit);
          V = crypto_verify_state C (tsig_verifier C data (tv_state m) (tv_cert m) (tv_keys m) (tv_set m)) in
      bind_r (fuzz_assert ''verify_with_verifier(..).is_err()''
        (\<not> is_ok (verify_with_verifier C V object cap proof (tv_state m) (tv_proof m)))) (\<lambda>_.
      fuzz_assert ''open_with_verifier(..).is_err()''
        (\<not> is_ok (open_with_verifier C V (kp_secret recipient) object cap proof (tv_state m)))))"

definition classical_only :: "recipient_key_pair \<Rightarrow> recipient_key_pair" where
  "classical_only k = \<lparr>kp_public = (kp_public k)\<lparr>pk_pq := None\<rparr>, kp_secret = (kp_secret k)\<lparr>sk_pq := None\<rparr>\<rparr>"

definition fuzz_tsig_cert_chain_semantic ::
    "crypto \<Rightarrow> (bytes \<Rightarrow> rng) \<Rightarrow> (nat \<Rightarrow> rng) \<Rightarrow> bytes \<Rightarrow> fuzz_run" where
  "fuzz_tsig_cert_chain_semantic C std_rng os data0 =
     (let data = bounded data0;
          rng = std_rng (deterministic_seed32 data 0x4D);
          cap = tsig_capability C data;
          policy_hash = fuzz_policy C ''tsig-cert-chain-policy-'' (drop 13 data);
          tree = snd (add_capability C tree_new cap);
          base_state = tsig_state C data;
          issuance_cert = issue_epoch_cert C (tsig_root_kp data) (epoch_verifying_key_bytes C (tsig_issuance_kp data))
            (st_epoch base_state) TSIG_VALIDITY_WINDOW;
          (res, log, tree) = issue_capability_and_commit C (in_memory_ops C) log_new tree cap (tsig_issuance_kp data)
            issuance_cert base_state
      in outcome (bind_r (or_return res) (\<lambda>(issuance, commit).
         bind_r (or_return (ok_or (build_capability_proof C tree cap issuance (tc_state commit)) ())) (\<lambda>proof.
         let (generated, rng) = recipient_generate C rng;
             recipient = (if bytes_to_bool (drop 17 data) then classical_only generated else generated);
             request = request_for cap policy_hash (st_epoch (tc_state commit));
             V = crypto_verify_state C (build_base_verifier C data (tc_state commit)) in
         bind_r (or_return (seal_with_verifier C (os 0) (os 1) V (kp_public recipient) data cap proof (tc_proof commit)
           (tc_state commit) request Current)) (\<lambda>object.
         bind_r (fuzz_assert ''verify_with_verifier(..).is_ok()''
           (is_ok (verify_with_verifier C V object cap proof (tc_state commit) (tc_proof commit)))) (\<lambda>_.
         bind_r (expect (open_with_verifier C V (kp_secret recipient) object cap proof (tc_state commit))
           ''valid TSIG-backed scenario must open'') (\<lambda>opened.
         bind_r (fuzz_assert ''opened'' (opened = data)) (\<lambda>_.
         fold_r (tsig_round C data recipient object cap proof commit) () (take MAX_STATEFUL_STRESS_STEPS data)))))))))"

subsection \<open>Which changes the verifier detects\<close>

text \<open>
  What the target relies on of Ed25519 for its own keys: the second signer's signature is not valid with the
  top bit of its first byte flipped, nor under the key with its first bit flipped, nor for another
  previous hash; and the certificate's signature is not valid for the next epoch.
\<close>

definition tsig_state_message :: "authority_state \<Rightarrow> bytes" where
  "tsig_state_message s = tsig_epoch_signing_message (st_authority_root s) (st_revocation_root s) (st_transparency_root s)
     (st_epoch s) (st_prev_epoch_hash s)"

definition tsig_tampering_detected :: "crypto \<Rightarrow> bytes \<Rightarrow> authority_state \<Rightarrow> bool" where
  "tsig_tampering_detected C data s \<longleftrightarrow>
     (let key = tsig_keys C data ! 1; sig = ps_sig (tsig_sign_as C data s 1) in
      \<not> partial_valid C key (tsig_state_message s) (flip_top sig) \<and>
      \<not> partial_valid C (flip_first key) (tsig_state_message s) sig \<and>
      \<not> partial_valid C key (tsig_state_message (s\<lparr>st_prev_epoch_hash := flip_first (st_prev_epoch_hash s)\<rparr>)) sig \<and>
      verify_epoch_cert C (root_verifying_key_bytes C (tsig_root_kp data))
        ((tsig_cert C data s)\<lparr>ec_epoch := saturating_add (st_epoch s) 1\<rparr>) \<noteq> Inr ())"

lemma tsig_verifier_ok:
  assumes "length keys < 2 ^ 32"
  shows "crypto_verify_state C (tsig_verifier C data s cert keys sset) s tp = Inr v \<longleftrightarrow>
    v = verified_new s \<lparr>av_path = CertChain\<rparr> \<and> verify_transparency_proof C s tp = Inr () \<and>
    verify_epoch_cert C (root_verifying_key_bytes C (tsig_root_kp data)) cert = Inr () \<and>
    unat (st_epoch s) < min (unat (ec_epoch cert) + unat (ec_validity_window cert)) (2 ^ 64 - 1) \<and>
    0 < unat (ts_threshold sset) \<and>
    unat (ts_threshold sset) \<le> card (tsig_valid_signers C (tsig_state_message s) keys (ts_partials sset))"
  using assms
  by (auto simp: crypto_verify_state_ok tsig_verifier_def add_evidence_tsig_def with_root_pk_def registry_find_add
      verify_cert_chain_ok tsig_verify_iff tsig_state_message_def Let_def)

text \<open>The three signer sets that a round can meet have at most one valid signer, or at most three.\<close>

lemma signers_within:
  assumes "\<And>i p. i < length keys \<Longrightarrow> first_partial ps i = Some p \<Longrightarrow> partial_valid C (keys ! i) msg (ps_sig p) \<Longrightarrow> i = 0"
  shows "card (tsig_valid_signers C msg keys ps) \<le> 1"
proof -
  have "tsig_valid_signers C msg keys ps \<subseteq> {0}"
    using assms by (fastforce simp: tsig_valid_signers_def split: option.splits)
  then show ?thesis using card_mono [of "{0 :: nat}"] by fastforce
qed

lemma tsig_base_partials:
  "ts_partials (tsig_base_set C data s) = [tsig_sign_as C data s 0, tsig_sign_as C data s 1]"
  "ts_threshold (tsig_base_set C data s) = 2" "length (tsig_keys C data) = 3"
  "ps_signer_index (tsig_sign_as C data s i) = word_of_nat i"
  by (simp_all add: tsig_base_set_def tsig_add_def tsig_new_def tsig_keys_def tsig_kps_def tsig_sign_as_def tsig_sign_def)

lemma mod9_cases:
  fixes x :: byte
  obtains "x mod 9 = 0" | "x mod 9 = 1" | "x mod 9 = 2" | "x mod 9 = 3" | "x mod 9 = 4" | "x mod 9 = 5" | "x mod 9 = 6"
    | "x mod 9 = 7" | "x mod 9 = 8"
proof -
  have "unat (x mod 9) < 9" by (simp add: unat_mod)
  then have "x mod 9 \<in> {0, 1, 2, 3, 4, 5, 6, 7, 8}" by (simp add: word_unat_eq_iff) linarith
  then show thesis by (elim insertE emptyE) (erule that)+
qed

lemma tsig_change_rejected:
  assumes "tsig_tampering_detected C data (tc_state c)" "selector mod 9 \<noteq> 8"
  defines "m \<equiv> tsig_mutate C selector (tsig_base_vars C data c)"
  shows "\<not> is_ok (crypto_verify_state C (tsig_verifier C data (tv_state m) (tv_cert m) (tv_keys m) (tv_set m)) (tv_state m) tp)"
proof -
  have len: "length (tv_keys m) < 2 ^ 32"
    by (simp add: m_def tsig_mutate_def tsig_base_vars_def tsig_base_partials Let_def)
  note simps = m_def tsig_mutate_def tsig_base_vars_def tsig_base_partials tsig_partial1_def Let_def
  note detected = assms(1) [unfolded tsig_tampering_detected_def Let_def]
  let ?V = "tsig_valid_signers C (tsig_state_message (tv_state m)) (tv_keys m) (ts_partials (tv_set m))"
  have "\<not> (verify_epoch_cert C (root_verifying_key_bytes C (tsig_root_kp data)) (tv_cert m) = Inr () \<and>
    unat (st_epoch (tv_state m)) < min (unat (ec_epoch (tv_cert m)) + unat (ec_validity_window (tv_cert m))) (2 ^ 64 - 1) \<and>
    0 < unat (ts_threshold (tv_set m)) \<and> unat (ts_threshold (tv_set m)) \<le> card ?V)" (is "\<not> ?ok")
  proof (cases selector rule: mod9_cases)
    case 1
    then show ?thesis by (simp add: simps)
  next
    case 2
    have "card ?V \<le> 3" using card_valid_signers_le [of C _ "tv_keys m"] 2 by (simp add: simps)
    with 2 show ?thesis by (simp add: simps)
  next
    case 3
    then have "card ?V \<le> 1" by (intro signers_within) (auto simp: simps first_partial_def split: if_splits)
    with 3 show ?thesis by (simp add: simps)
  next
    case 4
    then have "card ?V \<le> 1"
      using detected by (intro signers_within) (auto simp: simps first_partial_def split: if_splits)
    with 4 show ?thesis by (simp add: simps)
  next
    case 5
    then have "card ?V \<le> 1"
      using detected by (intro signers_within) (auto simp: simps first_partial_def split: if_splits)
    with 5 show ?thesis by (simp add: simps)
  next
    case 6
    then show ?thesis using detected by (simp add: simps tsig_cert_def issue_epoch_cert_def)
  next
    case 7
    then show ?thesis by (simp add: simps tsig_cert_def issue_epoch_cert_def)
  next
    case 8
    then have "card ?V \<le> 1"
      using detected by (intro signers_within) (auto simp: simps first_partial_def split: if_splits)
    with 8 show ?thesis by (simp add: simps)
  next
    case 9
    with assms(2) show ?thesis by simp
  qed
  then show ?thesis using len by (auto simp: is_ok_iff tsig_verifier_ok)
qed

subsection \<open>The outcome\<close>

lemma tsig_state_fields:
  "st_authority_root (tsig_state C data) = merkle_root C [capability_leaf_hash C (tsig_capability C data)]"
  "st_revocation_root (tsig_state C data) = zeros 32" "st_revocation_count (tsig_state C data) = 0"
  "st_transparency_root (tsig_state C data) = zeros 32" "st_epoch (tsig_state C data) = 7"
  "st_root_pk (tsig_state C data) = root_verifying_key_bytes C (tsig_root_kp data)"
  by (simp_all add: tsig_state_def build_state_def singleton_tree tree_authority_root_def tree_revocation_root_def
      tree_revocation_count_def merkle_root_def TSIG_EPOCH_def)

lemma classical_only_match:
  "keys_match C (kp_public k) (kp_secret k) \<Longrightarrow> keys_match C (kp_public (classical_only k)) (kp_secret (classical_only k))"
  by (simp add: keys_match_def classical_only_def)

lemma fold_r_checks:
  assumes "\<And>x. f () x = (if P x then Inl e else Inr ())"
  shows "fold_r f () xs = (if \<exists>x \<in> set xs. P x then Inl e else Inr ())"
  using assms by (induction xs) auto

lemma tsig_base_accepts:
  assumes "sig_correct C" "verify_transparency_proof C s tp = Inr ()" "st_epoch s = 7"
  shows "crypto_verify_state C (build_base_verifier C data s) s tp = Inr (verified_new s \<lparr>av_path = CertChain\<rparr>)"
proof -
  have "tsig_verify C (st_authority_root s) (st_revocation_root s) (st_transparency_root s) (st_epoch s) (st_prev_epoch_hash s)
      (tsig_base_set C data s) (tsig_keys C data) = Inr ()"
    using honest_threshold_accepted [OF assms(1), of "tsig_kps data" "[0, 1]" 2]
    by (simp add: tsig_base_set_def tsig_sign_as_def tsig_keys_def tsig_kps_def)
  then have "2 \<le> card (tsig_valid_signers C (tsig_state_message s) (tsig_keys C data) (ts_partials (tsig_base_set C data s)))"
    by (simp add: tsig_verify_iff tsig_base_partials tsig_state_message_def)
  with assms show ?thesis
    by (simp add: build_base_verifier_def tsig_verifier_ok tsig_base_partials issued_cert_verifies tsig_cert_def
        TSIG_VALIDITY_WINDOW_def) (simp add: issue_epoch_cert_def)
qed

lemma tsig_round_outcome:
  assumes "tsig_tampering_detected C data (tc_state c)" "verify_transparency_proof C (tc_state c) (tc_proof c) = Inr ()"
    and "transparency_leaf_hash C (tc_state c) \<noteq> []"
    and "open_with_verifier C (crypto_verify_state C (build_base_verifier C data (tc_state c))) (kp_secret k) object cap pf
      (tc_state c) = Inr data"
  shows "tsig_round C data k object cap pf c () selector =
    (if selector mod 9 = 8 then Inl (Panicked ''open_with_verifier(..).is_err()'') else Inr ())"
proof (cases "selector mod 9 = 8")
  case True
  have "verify_transparency_proof C (tc_state c) ((tc_proof c)\<lparr>tp_leaf_hash := flip_first (tp_leaf_hash (tc_proof c))\<rparr>) \<noteq> Inr ()"
    using assms(2) flip_first_neq [OF assms(3)] by (simp add: verify_transparency_proof_ok)
  then have "\<not> is_ok (verify_with_verifier C (crypto_verify_state C v) object cap pf (tc_state c)
      ((tc_proof c)\<lparr>tp_leaf_hash := flip_first (tp_leaf_hash (tc_proof c))\<rparr>))" for v
    by (auto simp: is_ok_iff verify_with_verifier_def bind_r_eq_Inr crypto_verify_state_ok)
  with True assms(4) show ?thesis
    by (simp add: tsig_round_def tsig_mutate_def tsig_base_vars_def Let_def fuzz_assert_def build_base_verifier_def)
next
  case False
  note bad = tsig_change_rejected [OF assms(1) False]
  have "\<not> is_ok (verify_with_verifier C V object cap pf s tp)" "\<not> is_ok (open_with_verifier C V sk object cap pf s)"
    if "\<And>tp. \<not> is_ok (V s tp)" for V s tp sk
    using that by (auto simp: is_ok_iff verify_with_verifier_def open_with_verifier_ok bind_r_eq_Inr)
  with bad False show ?thesis by (simp add: tsig_round_def Let_def fuzz_assert_def)
qed

text \<open>The set-up never returns early: the capability is issued and logged, and its proof validates.\<close>

definition tsig_committed :: "crypto \<Rightarrow> bytes \<Rightarrow> authority_state" where
  "tsig_committed C data = bind_transparency_root_to_state (tsig_state C data) (transparency_leaf_hash C (tsig_state C data))"

lemma tsig_setup:
  fixes C data
  defines "cap \<equiv> tsig_capability C data" and "s \<equiv> tsig_committed C data"
  assumes "sig_correct C"
  obtains iss c log tree pf where
    "issue_capability_and_commit C (in_memory_ops C) log_new (snd (add_capability C tree_new cap)) cap (tsig_issuance_kp data)
      (issue_epoch_cert C (tsig_root_kp data) (epoch_verifying_key_bytes C (tsig_issuance_kp data)) 7 TSIG_VALIDITY_WINDOW)
      (tsig_state C data) = (Inr (iss, c), log, tree)"
    "tc_state c = s" "verify_transparency_proof C s (tc_proof c) = Inr ()"
    "build_capability_proof C tree cap iss s = Some pf"
    "validate_capability C cap pf s (request_for cap (fuzz_policy C ''tsig-cert-chain-policy-'' (drop 13 data)) 7) = Inr ()"
proof -
  let ?kp = "tsig_issuance_kp data" and ?t = "\<lparr>ct_leaf_hashes = [capability_leaf_hash C cap], ct_revoked_stamps = []\<rparr>"
  let ?cert = "issue_epoch_cert C (tsig_root_kp data) (epoch_verifying_key_bytes C ?kp) 7 TSIG_VALIDITY_WINDOW"
  let ?req = "request_for cap (fuzz_policy C ''tsig-cert-chain-policy-'' (drop 13 data)) 7"
  have window: "cap_epoch_start cap = 1" "cap_epoch_end cap = 128" "ec_epoch ?cert = 7"
    by (simp_all add: cap_def tsig_capability_def fuzz_capability_def issue_epoch_cert_def)
  have "\<exists>iss. fst (issue_capability C (snd (add_capability C tree_new cap)) cap ?kp ?cert) = Inr iss"
    by (simp add: issue_capability_def window Let_def)
  then obtain iss where i: "issue_capability C (snd (add_capability C tree_new cap)) cap ?kp ?cert = (Inr iss, ?t)"
    using issue_capability_ok(1) singleton_tree by (metis prod.collapse)
  have "log_view log_new k = None" for k by (simp add: log_view_def log_new_def)
  then obtain c log where c: "commit_state C log_new (tsig_state C data) = (Inr c, log)"
    using commit_fresh by metis
  have same: "(tsig_state C data)\<lparr>st_authority_root := tree_authority_root C ?t, st_transparency_root := zeros 32\<rparr> = tsig_state C data"
    by (simp add: tsig_state_fields tree_authority_root_def cap_def)
  have issued: "issue_capability_and_commit C (in_memory_ops C) log_new (snd (add_capability C tree_new cap)) cap ?kp ?cert
      (tsig_state C data) = (Inr (iss, c), log, ?t)"
    using c i same by (simp add: issue_capability_and_commit_def tsig_state_def build_state_def in_memory_ops_def cap_def Let_def)
  have state: "tc_state c = s" using commit_first(2) [OF c] by (simp add: s_def tsig_committed_def)
  have "length (lg_entries log) = 1" using commit_first(1) [OF c] by simp
  then have logged: "verify_transparency_proof C s (tc_proof c) = Inr ()"
    using committed_proof_verifies [OF c] state by (simp add: log_small_def)
  have "publishes C s ?t"
    by (simp add: publishes_def s_def tsig_committed_def tsig_state_fields cap_def tree_authority_root_def
        tree_revocation_root_def tree_revocation_count_def merkle_root_def)
  moreover have "grants cap ?req" "rq_epoch ?req = st_epoch s" "parent_stamp_ok cap" "st_root_pk s = root_verifying_key_bytes C (tsig_root_kp data)"
    by (simp_all add: grants_def request_for_def window parent_stamp_ok_def s_def tsig_committed_def tsig_state_fields)
       (simp_all add: cap_def tsig_capability_def fuzz_capability_def contains_all_subset right_set_union)
  ultimately have "\<exists>incl nr. inclusion_proof C ?t cap = Some incl \<and> tree_non_revocation_witness C ?t (capability_stamp C cap s) = Inr nr \<and>
      validate_capability C cap \<lparr>cp_inclusion = incl, cp_non_revocation = nr, cp_issuance = iss\<rparr> s ?req = Inr ()"
    by (intro honest_proof_validates [OF assms(3) _ _ i])
       (simp_all add: tree_wf_def tree_small_def is_revoked_def TSIG_VALIDITY_WINDOW_def)
  then obtain pf where "build_capability_proof C ?t cap iss s = Some pf" "validate_capability C cap pf s ?req = Inr ()"
    by (auto simp: build_capability_proof_def)
  with that issued state logged show thesis by blast
qed

lemma tsig_target_outcome:
  fixes C data
  defines "d \<equiv> bounded data"
  assumes "crypto_correct C" "sig_correct C" "aead_accepts C" "sha_32 C" "tsig_tampering_detected C d (tsig_committed C d)"
  shows "fuzz_tsig_cert_chain_semantic C std_rng os data =
    (if \<exists>b \<in> set (take 12 d). b mod 9 = 8 then Panicked ''open_with_verifier(..).is_err()'' else Passed)"
proof -
  let ?cap = "tsig_capability C d" and ?s = "tsig_committed C d"
  let ?V = "crypto_verify_state C (build_base_verifier C d ?s)"
  let ?req = "request_for ?cap (fuzz_policy C ''tsig-cert-chain-policy-'' (drop 13 d)) 7"
  obtain iss c log tree pf where i:
    "issue_capability_and_commit C (in_memory_ops C) log_new (snd (add_capability C tree_new ?cap)) ?cap (tsig_issuance_kp d)
      (issue_epoch_cert C (tsig_root_kp d) (epoch_verifying_key_bytes C (tsig_issuance_kp d)) 7 TSIG_VALIDITY_WINDOW)
      (tsig_state C d) = (Inr (iss, c), log, tree)"
    "tc_state c = ?s" "verify_transparency_proof C ?s (tc_proof c) = Inr ()"
    "build_capability_proof C tree ?cap iss ?s = Some pf" "validate_capability C ?cap pf ?s ?req = Inr ()"
    using tsig_setup [OF assms(3)] by blast
  obtain k0 rng where k0: "recipient_generate C (std_rng (deterministic_seed32 d 0x4D)) = (k0, rng)" by fastforce
  let ?k = "if bytes_to_bool (drop 17 d) then classical_only k0 else k0"
  have match: "keys_match C (kp_public ?k) (kp_secret ?k)"
    using generated_keys_match [of C "std_rng (deterministic_seed32 d 0x4D)"] k0 classical_only_match by simp
  have e: "st_epoch ?s = 7" by (simp add: tsig_committed_def tsig_state_fields)
  note v = tsig_base_accepts [OF assms(3) i(3) e, of d]
  have small: "length d < 2 ^ 37" using length_bounded [of data] by (simp add: d_def)
  have "\<exists>object. seal_with_verifier C (os 0) (os 1) ?V (kp_public ?k) d ?cap pf (tc_proof c) ?s ?req Current = Inr object"
    using seal_succeeds [OF _ assms(4) small, of ?cap pf "verified_new ?s \<lparr>av_path = CertChain\<rparr>" ?req] v i(5)
    by (simp add: seal_with_verifier_def verified_new_def as_state_def)
  then obtain object where o: "seal_with_verifier C (os 0) (os 1) ?V (kp_public ?k) d ?cap pf (tc_proof c) ?s ?req Current = Inr object" ..
  note ok = crypto_verifier.sealed_current [OF assms(2) match o]
  have "length (transparency_leaf_hash C ?s) = 32" using assms(5) by (simp add: transparency_leaf_hash_def sha_32_def)
  then have "transparency_leaf_hash C ?s \<noteq> []" by auto
  then have "tsig_round C d ?k object ?cap pf c () b =
      (if b mod 9 = 8 then Inl (Panicked ''open_with_verifier(..).is_err()'') else Inr ())" for b
    using tsig_round_outcome [of C d c] assms(6) i(2,3) ok(2) by simp
  note loop = fold_r_checks [where f = "tsig_round C d ?k object ?cap pf c", OF this]
  show ?thesis
    unfolding fuzz_tsig_cert_chain_semantic_def d_def [symmetric] Let_def MAX_STATEFUL_STRESS_STEPS_def
    using i(1,2,4) k0 e o ok loop
    by (simp add: tsig_state_fields or_return_def ok_or_def expect_def fuzz_assert_def outcome_def)
qed

end
