(* ===== verification/Csk2_Fuzz_Open.thy ===== *)
theory Csk2_Fuzz_Open
  imports Csk2_Fuzz_Rewrap Csk2_Transport
begin

text \<open>
  The sealing and opening target, \<open>fuzz_verify_and_open.rs\<close>: a scenario built from the input is sealed,
  opened, verified, encoded and decoded; then one field of the object is changed and opening must fail,
  before and after another trip over the wire. The first part never panics. The last part is shown for
  the changes that the code itself compares; the others rest on the strength of the cipher.
\<close>

subsection \<open>The target\<close>

definition MAX_MESSAGE_LEN :: nat where "MAX_MESSAGE_LEN = 512"

record semantic_scenario =
  sc_keypair :: recipient_key_pair
  sc_state :: authority_state
  sc_cap :: capability
  sc_proof :: capability_proof
  sc_request :: open_request
  sc_transparency_proof :: transparency_proof
  sc_temporal_policy :: temporal_policy
  sc_message :: bytes

definition scenario_seed32 :: "bytes \<Rightarrow> bytes" where
  "scenario_seed32 data =
     take 32 data @ map (\<lambda>index. word_of_nat index * 37 + 11) [min (length data) 32..<32]"

definition scenario_epoch :: "bytes \<Rightarrow> u64" where
  "scenario_epoch data = saturating_add (bytes_to_u64 data mod 32) 1"

definition scenario_capability :: "crypto \<Rightarrow> bytes \<Rightarrow> capability" where
  "scenario_capability C data =
     \<lparr>cap_version = 1, cap_subject = ascii ''fuzz-recipient'',
      cap_object_id = ascii ''fuzz-object-'' @ hex16 (bytes_to_u64 (drop 8 data)),
      cap_rights = rights_union READ DECRYPT, cap_policy_hash = fuzz_policy C ''fuzz-policy-'' (drop 16 data),
      cap_epoch_start = 1, cap_epoch_end = 64, cap_delegation_depth = 0, cap_parent_stamp = zeros 32,
      cap_nonce = take 16 (scenario_seed32 data)\<rparr>"

definition scenario_policy :: "bytes \<Rightarrow> temporal_policy" where
  "scenario_policy data =
     (let epoch = scenario_epoch data; k = scenario_seed32 data ! 30 mod 4 in
      if k = 0 then Historical epoch
      else if k = 1 then Current
      else if k = 2 then Window (saturating_sub epoch 1) (saturating_add epoch 1)
      else ResealRequired (saturating_add epoch 1))"

definition scenario_message :: "bytes \<Rightarrow> bytes" where
  "scenario_message data =
     (let message_start = min (length data) 24;
          message_end = min (length data) (message_start + MAX_MESSAGE_LEN)
      in take (message_end - message_start) (drop message_start data))"

definition scenario_state :: "crypto \<Rightarrow> bytes \<Rightarrow> authority_root_key_pair \<Rightarrow> authority_state" where
  "scenario_state C data root_keypair =
     build_state C (snd (add_capability C tree_new (scenario_capability C data))) (root_verifying_key_bytes C root_keypair)
       (ascii ''fuzz-authority-'' @ decimal (unat (scenario_seed32 data ! 31))) (scenario_epoch data) (zeros 32)"

definition scenario :: "crypto \<Rightarrow> (bytes \<Rightarrow> rng) \<Rightarrow> bytes \<Rightarrow> semantic_scenario option" where
  "scenario C std_rng data =
     (let rng = std_rng (scenario_seed32 data);
          cap = scenario_capability C data;
          epoch = scenario_epoch data;
          (root_keypair, rng) = root_generate rng;
          (epoch_keypair, rng) = epoch_generate rng;
          epoch_cert = issue_epoch_cert C root_keypair (epoch_verifying_key_bytes C epoch_keypair) epoch 10;
          tree = snd (add_capability C tree_new cap) in
      case fst (commit_state C log_new (scenario_state C data root_keypair)) of Inl _ \<Rightarrow> None
      | Inr commit \<Rightarrow>
          let issuance = \<lparr>is_sig = sign_capability_issuance C epoch_keypair (capability_leaf_hash C cap)
                (st_authority_root (tc_state commit)) (ec_epoch epoch_cert), is_epoch_cert = epoch_cert\<rparr> in
          map_option (\<lambda>proof.
            \<lparr>sc_keypair = fst (recipient_generate C rng), sc_state = tc_state commit, sc_cap = cap, sc_proof = proof,
             sc_request = request_for cap (cap_policy_hash cap) epoch, sc_transparency_proof = tc_proof commit,
             sc_temporal_policy = scenario_policy data, sc_message = scenario_message data\<rparr>)
            (build_capability_proof C tree cap issuance (tc_state commit)))"

definition scenario_open :: "crypto \<Rightarrow> semantic_scenario \<Rightarrow> csk2_object \<Rightarrow> bytes result" where
  "scenario_open C sc object = csk2_open C True (kp_secret (sc_keypair sc)) object (sc_cap sc) (sc_proof sc) (sc_state sc)"

definition assert_rejects :: "crypto \<Rightarrow> semantic_scenario \<Rightarrow> csk2_object \<Rightarrow> unit fuzz" where
  "assert_rejects C sc object = fuzz_assert ''open(..).is_err()'' (\<not> is_ok (scenario_open C sc object))"

text \<open>\<open>v[0] ^= 1\<close> on a vector and a change of \<open>wrappers[0]\<close>, which panic when there is no first element.\<close>

definition flip_vec :: "bytes \<Rightarrow> bytes option" where
  "flip_vec bs = (if bs = [] then None else Some (flip_first bs))"

definition tamper_wrapper :: "(authority_wrapper \<Rightarrow> authority_wrapper option) \<Rightarrow> csk2_object \<Rightarrow> csk2_object option" where
  "tamper_wrapper f object = (case o_wrappers object of [] \<Rightarrow> None
     | w # ws \<Rightarrow> map_option (\<lambda>w'. object\<lparr>o_wrappers := w' # ws\<rparr>) (f w))"

definition tampered_policy :: "temporal_policy \<Rightarrow> u64 \<Rightarrow> temporal_policy" where
  "tampered_policy p seal_epoch = (case p of Current \<Rightarrow> Historical seal_epoch | _ \<Rightarrow> Current)"

definition tamper_object :: "byte \<Rightarrow> csk2_object \<Rightarrow> csk2_object option" where
  "tamper_object k object =
     (if k = 0 then Some (object\<lparr>o_object_id := o_object_id object @ ascii ''x''\<rparr>)
      else if k = 1 then Some (object\<lparr>o_required_rights := rights_union (o_required_rights object) WRITE\<rparr>)
      else if k = 2 then Some (object\<lparr>o_policy_hash := flip_first (o_policy_hash object)\<rparr>)
      else if k = 3 then Some (object\<lparr>o_seal_epoch := o_seal_epoch object + 1\<rparr>)
      else if k = 4 then Some (object\<lparr>o_temporal_policy := tampered_policy (o_temporal_policy object) (o_seal_epoch object)\<rparr>)
      else if k = 5 then Some (object\<lparr>o_payload_nonce := flip_first (o_payload_nonce object)\<rparr>)
      else if k = 6 then map_option (\<lambda>c. object\<lparr>o_payload_ciphertext := c\<rparr>) (flip_vec (o_payload_ciphertext object))
      else if k = 7 then tamper_wrapper (\<lambda>w. Some (w\<lparr>w_epoch := w_epoch w + 1\<rparr>)) object
      else if k = 8 then tamper_wrapper (\<lambda>w. Some (w\<lparr>w_kem_ct_classical := flip_first (w_kem_ct_classical w)\<rparr>)) object
      else if k = 9 then tamper_wrapper (\<lambda>w. map_option (\<lambda>c. w\<lparr>w_kem_ct_pq := c\<rparr>) (flip_vec (w_kem_ct_pq w))) object
      else if k = 10 then tamper_wrapper (\<lambda>w. Some (w\<lparr>w_wrap_nonce := flip_first (w_wrap_nonce w)\<rparr>)) object
      else if k = 11 then tamper_wrapper (\<lambda>w. map_option (\<lambda>c. w\<lparr>w_wrapped_dek := c\<rparr>) (flip_vec (w_wrapped_dek w))) object
      else if k = 12 then tamper_wrapper (\<lambda>w. Some (w\<lparr>w_context_hash := flip_first (w_context_hash w)\<rparr>)) object
      else tamper_wrapper (\<lambda>w. Some (w\<lparr>w_capability_stamp := flip_first (w_capability_stamp w)\<rparr>)) object)"

definition verify_and_open_checks :: "crypto \<Rightarrow> bytes \<Rightarrow> semantic_scenario \<Rightarrow> csk2_object \<Rightarrow> unit fuzz" where
  "verify_and_open_checks C data sc object =
      bind_r (expect (scenario_open C sc object) ''valid fuzz scenario must open'') (\<lambda>opened.
      bind_r (fuzz_assert ''opened'' (opened = sc_message sc)) (\<lambda>_.
      bind_r (fuzz_assert ''verify(..).is_ok()'' (is_ok (csk2_verify C True object (sc_cap sc) (sc_proof sc) (sc_state sc)
        (sc_transparency_proof sc)))) (\<lambda>_.
      bind_r (expect (ok_or (encode_kyriotes_csk2_object object) ()) ''encode'') (\<lambda>encoded.
      bind_r (expect (decode_kyriotes_csk2_object encoded) ''encoded valid object must decode'') (\<lambda>decoded.
      bind_r (fuzz_assert ''decoded'' (decoded = object)) (\<lambda>_.
      bind_r (expect (scenario_open C sc decoded) ''decoded valid object must open'') (\<lambda>reopened.
      bind_r (fuzz_assert ''reopened'' (reopened = sc_message sc)) (\<lambda>_.
      bind_r (expect (ok_or (tamper_object (first_or_zero data mod 14) object) ()) ''index out of bounds'') (\<lambda>tampered.
      bind_r (assert_rejects C sc tampered) (\<lambda>_.
      bind_r (expect (ok_or (encode_kyriotes_csk2_object tampered) ()) ''encode tampered'') (\<lambda>tampered_wire.
      bind_r (expect (decode_kyriotes_csk2_object tampered_wire) ''semantic tamper should remain structurally decodable'')
        (\<lambda>decoded_tamper.
      assert_rejects C sc decoded_tamper))))))))))))"

definition fuzz_semantic_verify_and_open ::
    "crypto \<Rightarrow> (bytes \<Rightarrow> rng) \<Rightarrow> (nat \<Rightarrow> rng) \<Rightarrow> bytes \<Rightarrow> fuzz_run" where
  "fuzz_semantic_verify_and_open C std_rng os data0 =
     (let data = bounded data0 in
      outcome (
        bind_r (or_return (ok_or (scenario C std_rng data) ())) (\<lambda>sc.
        bind_r (or_return (seal C True (os 0) (os 1) (kp_public (sc_keypair sc)) (sc_message sc) (sc_cap sc)
          (sc_proof sc) (sc_transparency_proof sc) (sc_state sc) (sc_request sc) (sc_temporal_policy sc))) (\<lambda>object.
        verify_and_open_checks C data sc object))))"

subsection \<open>The scenario\<close>

lemma length_scenario_seed32 [simp]: "length (scenario_seed32 data) = 32"
  by (simp add: scenario_seed32_def min_def)

lemma scenario_epoch_bounds: "1 \<le> unat (scenario_epoch data)" "unat (scenario_epoch data) \<le> 32"
proof -
  have "unat (bytes_to_u64 data mod 32) < 32" by (simp add: unat_mod)
  then show "1 \<le> unat (scenario_epoch data)" "unat (scenario_epoch data) \<le> 32"
    by (simp_all add: scenario_epoch_def unat_saturating_add)
qed

lemma scenario_policy_openable: "openable_epoch (scenario_policy data) (scenario_epoch data) (scenario_epoch data)"
  using scenario_epoch_bounds [of data]
  by (simp add: scenario_policy_def openable_epoch_simps saturating_sub_def word_le_nat_alt unat_saturating_add
      unat_sub Let_def)

lemma hex16_ascii: "\<forall>b \<in> set (hex16 x). b < 0x80"
proof -
  have "hex_digit n < 0x80" if "n < 16" for n
  proof -
    have "n \<in> {0, 1, 2, 3, 4, 5, 6, 7, 8, 9, 10, 11, 12, 13, 14, 15}" using that by simp presburger
    then show ?thesis by (auto simp: hex_digit_def)
  qed
  then show ?thesis by (auto simp: hex16_def)
qed

lemma scenario_object_id:
  "utf8_valid (cap_object_id (scenario_capability C data))" "utf8_valid (cap_object_id (scenario_capability C data) @ ascii ''x'')"
  "length (cap_object_id (scenario_capability C data)) = 28"
  using hex16_ascii by (auto simp: scenario_capability_def ascii_def intro!: utf8_valid_ascii)

text \<open>What the set-up hands to the assertions.\<close>

definition scenario_wf :: "crypto \<Rightarrow> bytes \<Rightarrow> semantic_scenario \<Rightarrow> bool" where
  "scenario_wf C data sc \<longleftrightarrow>
     keys_match C (kp_public (sc_keypair sc)) (kp_secret (sc_keypair sc)) \<and> hybrid_key C (kp_public (sc_keypair sc)) \<and>
     sc_cap sc = scenario_capability C data \<and>
     sc_request sc = request_for (sc_cap sc) (cap_policy_hash (sc_cap sc)) (st_epoch (sc_state sc)) \<and>
     st_epoch (sc_state sc) = scenario_epoch data \<and> wf_state (sc_state sc) \<and> wf_proof (sc_transparency_proof sc) \<and>
     length (tp_sibling_hashes (sc_transparency_proof sc)) \<le> 64 \<and>
     sc_temporal_policy sc = scenario_policy data \<and> length (sc_message sc) \<le> 512"

lemma scenario_state_wf:
  assumes "sha_32 C" "\<And>sk. length (ed_verifying_key C sk) = 32"
  shows "wf_state (scenario_state C data kp)"
proof -
  have n: "unat (scenario_seed32 data ! 31) < 256" using unsigned_less [of "scenario_seed32 data ! 31"] by simp
  have "length (decimal (unat (scenario_seed32 data ! 31))) \<le> 256"
    using decimal_bytes [of "unat (scenario_seed32 data ! 31)"] n by linarith
  moreover have "utf8_valid (ascii ''fuzz-authority-'' @ decimal (unat (scenario_seed32 data ! 31)))"
    using decimal_bytes by (intro utf8_valid_ascii) (auto simp: ascii_def)
  moreover have "tree_typed (snd (add_capability C tree_new (scenario_capability C data)))"
    using assms(1) by (intro tree_typed_add) (simp_all add: tree_typed_def tree_new_def)
  ultimately show ?thesis
    using tree_roots_32 [OF _ assms(1)] assms(2)
    by (simp add: wf_state_def wf_str_def scenario_state_def build_state_def root_verifying_key_bytes_def ascii_def)
qed

lemma scenario_wf:
  assumes "scenario C std_rng data = Some sc" "crypto_correct C" "crypto_sizes C" "\<And>sk. length (ed_verifying_key C sk) = 32"
  shows "scenario_wf C data sc"
proof -
  have sha: "sha_32 C" by (rule crypto_sizesD(1) [OF assms(3)])
  obtain kp c rng log where c: "commit_state C log_new (scenario_state C data kp) = (Inr c, log)"
      "sc_keypair sc = fst (recipient_generate C rng)" "sc_state sc = tc_state c" "sc_cap sc = scenario_capability C data"
      "sc_request sc = request_for (sc_cap sc) (cap_policy_hash (sc_cap sc)) (scenario_epoch data)"
      "sc_transparency_proof sc = tc_proof c" "sc_temporal_policy sc = scenario_policy data" "sc_message sc = scenario_message data"
    using assms(1) by (auto simp: scenario_def Let_def split: prod.splits sum.splits) (metis prod.collapse)+
  have new: "log_typed log_new" by (simp add: log_typed_def log_new_def leaf_hashes_def)
  have small: "log_small log" using commit_first(1) [OF c(1)] by (simp add: log_small_def)
  note t = commit_typed [OF c(1) new sha small]
  have wf: "wf_state (tc_state c)"
    using commit_wf [OF c(1) new sha small] scenario_state_wf [OF sha assms(4), of data kp] by (simp add: wf_state_def)
  have e: "st_epoch (tc_state c) = scenario_epoch data"
    using commit_first(2) [OF c(1)] by (simp add: scenario_state_def build_state_def)
  have "hybrid_key C (kp_public (fst (recipient_generate C rng)))"
    using assms(2) by (simp add: recipient_generate_def hybrid_key_def crypto_correct_def mlkem_correct_def
        ML_KEM_768_EK_BYTES_def Let_def split: prod.splits)
  moreover have "length (scenario_message data) \<le> 512"
    by (auto simp: scenario_message_def MAX_MESSAGE_LEN_def Let_def min_def)
  ultimately show ?thesis using c t wf e generated_keys_match [of C rng] by (simp add: scenario_wf_def)
qed

subsection \<open>The honest object\<close>

lemma scenario_sealed:
  assumes "crypto_correct C" "crypto_sizes C" "scenario_wf C data sc"
    and "seal C True r1 r2 (kp_public (sc_keypair sc)) (sc_message sc) (sc_cap sc) (sc_proof sc) (sc_transparency_proof sc)
      (sc_state sc) (sc_request sc) (sc_temporal_policy sc) = Inr object"
  shows "scenario_open C sc object = Inr (sc_message sc)"
    "csk2_verify C True object (sc_cap sc) (sc_proof sc) (sc_state sc) (sc_transparency_proof sc) = Inr ()"
    "object_fits strict_default object"
    "\<exists>w. o_wrappers object = [w] \<and> w_kem_ct_pq w \<noteq> [] \<and> w_wrapped_dek w \<noteq> [] \<and> w_context_hash w \<noteq> [] \<and>
       w_capability_stamp w \<noteq> [] \<and> w_epoch w = st_epoch (sc_state sc)"
    "o_payload_ciphertext object \<noteq> []" "o_object_id object = cap_object_id (sc_cap sc)"
    "o_required_rights object = READ" "o_policy_hash object = cap_policy_hash (sc_cap sc)"
proof -
  note wf = assms(3) [unfolded scenario_wf_def]
  note sealed = assms(4) [unfolded seal_def default_verifier_def, simplified]
  obtain v where v: "stub_verify_state C (sc_state sc) (sc_transparency_proof sc) = Inr v"
      "seal_verified C r1 r2 (kp_public (sc_keypair sc)) (sc_message sc) (sc_cap sc) (sc_proof sc) (sc_transparency_proof sc) v
        (sc_request sc) (sc_temporal_policy sc) = Inr object"
    using sealed by (auto simp: seal_with_verifier_def bind_r_eq_Inr)
  have s: "as_state v = sc_state sc" by (rule stub_verifier.verified_as_state [OF v(1)])
  have openable: "openable_epoch (sc_temporal_policy sc) (st_epoch (sc_state sc)) (st_epoch (sc_state sc))"
    using wf scenario_policy_openable [of data] by simp
  show "scenario_open C sc object = Inr (sc_message sc)"
    using stub_verifier.seal_open_roundtrip [OF assms(1) _ sealed openable] wf
    by (simp add: scenario_open_def csk2_open_def default_verifier_def)
  show "csk2_verify C True object (sc_cap sc) (sc_proof sc) (sc_state sc) (sc_transparency_proof sc) = Inr ()"
    using sealed_verifies [OF v(2)] openable s v(1) by (simp add: csk2_verify_def default_verifier_def verify_with_verifier_def)
  have policy: "length (rq_policy_hash (sc_request sc)) = 32"
    using crypto_sizesD(1) [OF assms(2)] wf
    by (simp add: request_for_def scenario_capability_def fuzz_policy_def hash_policy_def sha_32_def)
  have "limits_admit strict_default True (rq_object_id (sc_request sc)) (sc_message sc) (sc_transparency_proof sc)"
    using wf scenario_object_id(3) [of C data] by (intro strict_admits) (simp_all add: request_for_def)
  moreover have "wf_str (rq_object_id (sc_request sc))"
    using wf scenario_object_id(1,3) [of C data] by (simp add: wf_str_def request_for_def)
  ultimately show "object_fits strict_default object"
    using sealed_fits_iff [OF assms(2) v(2) _ _ policy] s wf by (simp add: wf_str_def)
  note o = seal_verified_object [OF assms(2) v(2)] and o' = seal_verified_ok [OF v(2)]
  have nonempty: "length xs = n \<Longrightarrow> 0 < n \<Longrightarrow> xs \<noteq> []" for xs :: bytes and n by auto
  show "o_payload_ciphertext object \<noteq> []" by (rule nonempty [OF o(7)]) simp
  obtain w where w: "o_wrappers object = [w]" "length (w_kem_ct_pq w) = 1088" "length (w_wrapped_dek w) = 48"
      "length (w_context_hash w) = 32" "length (w_capability_stamp w) = 32"
    using o(8) wf by (metis (full_types))
  have "w_epoch w = st_epoch (sc_state sc)" using o' w(1) s by auto
  with w show "\<exists>w. o_wrappers object = [w] \<and> w_kem_ct_pq w \<noteq> [] \<and> w_wrapped_dek w \<noteq> [] \<and> w_context_hash w \<noteq> [] \<and>
       w_capability_stamp w \<noteq> [] \<and> w_epoch w = st_epoch (sc_state sc)"
    by (intro exI [of _ w]) auto
  show "o_object_id object = cap_object_id (sc_cap sc)" "o_required_rights object = READ"
    "o_policy_hash object = cap_policy_hash (sc_cap sc)"
    using o' wf by (simp_all add: request_for_def)
qed

subsection \<open>The tampered object\<close>

lemma tampered_fits:
  assumes "object_fits strict_default object" "o_payload_ciphertext object \<noteq> []"
    and "o_wrappers object = [w]" "w_kem_ct_pq w \<noteq> []" "w_wrapped_dek w \<noteq> []"
    and "utf8_valid (o_object_id object @ ascii ''x'')" "length (o_object_id object) < 1024"
  shows "\<exists>o'. tamper_object k object = Some o' \<and> object_fits strict_default o'"
  using assms
  by (simp add: tamper_object_def tamper_wrapper_def flip_vec_def object_fits_def wire_bytes_def wrapper_fits_def
      strict_default_def ascii_def)

lemma write_not_granted: "\<not> contains_all (rights_union READ DECRYPT) (rights_union READ WRITE)"
  by (simp add: contains_all_def rights_union_def READ_def DECRYPT_def WRITE_def)

text \<open>The changes that the code compares with something else, and rejects whatever the cipher does.\<close>

lemma tampered_rejected:
  assumes "tamper_object k object = Some o'" "k \<notin> {3, 4, 5, 6, 8, 9, 10, 11}" "scenario_open C sc object = Inr m"
    and "o_wrappers object = [w]" "w_epoch w = st_epoch (sc_state sc)" "w_context_hash w \<noteq> []" "w_capability_stamp w \<noteq> []"
    and "o_object_id object = cap_object_id (sc_cap sc)" "o_required_rights object = READ"
      "o_policy_hash object = cap_policy_hash (sc_cap sc)" "o_policy_hash object \<noteq> []"
    and "cap_rights (sc_cap sc) = rights_union READ DECRYPT"
  shows "\<not> is_ok (scenario_open C sc o')"
proof
  assume "is_ok (scenario_open C sc o')"
  then obtain m' where "scenario_open C sc o' = Inr m'" by (auto simp: is_ok_iff)
  then obtain w' v where w': "find_wrapper o' (st_epoch (sc_state sc)) = Some w'" "as_state v = sc_state sc"
      "open_verified C (kp_secret (sc_keypair sc)) o' (sc_cap sc) (sc_proof sc) v w' (st_epoch (sc_state sc)) = Inr m'"
    by (auto simp: scenario_open_def csk2_open_def default_verifier_def open_with_verifier_ok dest: stub_verifier.verified_as_state)
  obtain w0 v0 where w0: "find_wrapper object (st_epoch (sc_state sc)) = Some w0" "as_state v0 = sc_state sc"
      "open_verified C (kp_secret (sc_keypair sc)) object (sc_cap sc) (sc_proof sc) v0 w0 (st_epoch (sc_state sc)) = Inr m"
    using assms(3)
    by (auto simp: scenario_open_def csk2_open_def default_verifier_def open_with_verifier_ok dest: stub_verifier.verified_as_state)
  have w: "w0 = w" using w0(1) assms(4,5) by (simp add: find_wrapper_def)
  have g: "grants (sc_cap sc) (open_request_for_object o' (st_epoch (sc_state sc)))"
      "w_context_hash w' = object_context C o' (sc_cap sc) (sc_state sc)" "w_capability_stamp w' = capability_stamp C (sc_cap sc) (sc_state sc)"
      "w_context_hash w = object_context C object (sc_cap sc) (sc_state sc)" "w_capability_stamp w = capability_stamp C (sc_cap sc) (sc_state sc)"
    using w'(2,3) w0(2,3) w by (auto simp: open_verified_ok validate_capability_ok unwrap_dek_for_epoch_ok)
  have grants: "o_object_id o' = cap_object_id (sc_cap sc)" "contains_all (cap_rights (sc_cap sc)) (o_required_rights o')"
      "o_policy_hash o' = cap_policy_hash (sc_cap sc)"
    using g(1) by (auto simp: grants_def open_request_for_object_def)
  show False
    using assms(1) unfolding tamper_object_def
    using assms(2,4-12) grants g(2-5) w'(1) flip_first_neq write_not_granted
    by (auto simp: tamper_wrapper_def find_wrapper_def object_context_def ascii_def split: if_splits)
qed

lemma tampered_trip:
  assumes "crypto_correct C" "crypto_sizes C" "scenario_wf C data sc"
    and "seal C True r1 r2 (kp_public (sc_keypair sc)) (sc_message sc) (sc_cap sc) (sc_proof sc) (sc_transparency_proof sc)
      (sc_state sc) (sc_request sc) (sc_temporal_policy sc) = Inr object"
  obtains o' bs where "tamper_object k object = Some o'" "encode_kyriotes_csk2_object o' = Some bs"
    "decode_kyriotes_csk2_object bs = Inr o'" "k \<notin> {3, 4, 5, 6, 8, 9, 10, 11} \<Longrightarrow> \<not> is_ok (scenario_open C sc o')"
proof -
  note s = scenario_sealed [OF assms]
  obtain w where w: "o_wrappers object = [w]" "w_kem_ct_pq w \<noteq> []" "w_wrapped_dek w \<noteq> []" "w_context_hash w \<noteq> []"
      "w_capability_stamp w \<noteq> []" "w_epoch w = st_epoch (sc_state sc)"
    using s(4) by blast
  have cap: "sc_cap sc = scenario_capability C data" using assms(3) by (simp add: scenario_wf_def)
  have "\<exists>o'. tamper_object k object = Some o' \<and> object_fits strict_default o'"
    by (rule tampered_fits [OF s(3,5) w(1-3)]) (use s(6) cap scenario_object_id [of C data] in simp_all)
  then obtain o' where o': "tamper_object k object = Some o'" "object_fits strict_default o'" by blast
  obtain bs where bs: "encode_kyriotes_csk2_object o' = Some bs" using encode_object_fits [OF o'(2)] by blast
  have d: "decode_kyriotes_csk2_object bs = Inr o'"
    using o'(2) bs by (simp add: decode_kyriotes_csk2_object_def default_limits_def decode_object_iff)
  have "length (o_policy_hash object) = 32" using s(3) by (simp add: object_fits_def)
  then have "o_policy_hash object \<noteq> []" by auto
  moreover have "cap_rights (sc_cap sc) = rights_union READ DECRYPT" by (simp add: cap scenario_capability_def)
  ultimately have "k \<notin> {3, 4, 5, 6, 8, 9, 10, 11} \<Longrightarrow> \<not> is_ok (scenario_open C sc o')"
    using tampered_rejected [OF o'(1) _ s(1) w(1,6,4,5) s(6-8)] by blast
  with that o'(1) bs d show thesis by blast
qed

lemma verify_and_open_checks_ok:
  assumes "crypto_correct C" "crypto_sizes C" "scenario_wf C data sc"
    and "seal C True r1 r2 (kp_public (sc_keypair sc)) (sc_message sc) (sc_cap sc) (sc_proof sc) (sc_transparency_proof sc)
      (sc_state sc) (sc_request sc) (sc_temporal_policy sc) = Inr object"
    and "first_or_zero data mod 14 \<in> {3, 4, 5, 6, 8, 9, 10, 11} \<Longrightarrow> ''open(..).is_err()'' \<in> S"
  shows "panics_only S (verify_and_open_checks C data sc object)"
proof -
  note s = scenario_sealed [OF assms(1-4)]
  obtain bs where bs: "encode_kyriotes_csk2_object object = Some bs" using encode_object_fits [OF s(3)] by blast
  then have d: "decode_kyriotes_csk2_object bs = Inr object"
    using s(3) by (simp add: decode_kyriotes_csk2_object_def default_limits_def decode_object_iff)
  obtain o' bs' where o': "tamper_object (first_or_zero data mod 14) object = Some o'" "encode_kyriotes_csk2_object o' = Some bs'"
      "decode_kyriotes_csk2_object bs' = Inr o'"
      "first_or_zero data mod 14 \<notin> {3, 4, 5, 6, 8, 9, 10, 11} \<Longrightarrow> \<not> is_ok (scenario_open C sc o')"
    using tampered_trip [OF assms(1-4)] by blast
  then have "\<not> is_ok (scenario_open C sc o') \<or> ''open(..).is_err()'' \<in> S" using assms(5) by blast
  then show ?thesis
    by (auto simp: verify_and_open_checks_def panic_vc s(1,2) bs d o'(1-3) assert_rejects_def ok_or_eq_Inr ok_or_def)
qed

lemma verify_and_open_outcome:
  assumes "crypto_correct C" "crypto_sizes C" "\<And>sk. length (ed_verifying_key C sk) = 32"
  shows "fuzz_semantic_verify_and_open C std_rng os data \<in> {Passed, Panicked ''open(..).is_err()''} \<and>
    (first_or_zero (bounded data) mod 14 \<notin> {3, 4, 5, 6, 8, 9, 10, 11} \<longrightarrow>
      fuzz_semantic_verify_and_open C std_rng os data = Passed)"
proof -
  let ?k = "first_or_zero (bounded data) mod 14"
  let ?S = "if ?k \<in> {3, 4, 5, 6, 8, 9, 10, 11} then {''open(..).is_err()''} else {}"
  have "fuzz_semantic_verify_and_open C std_rng os data \<in> insert Passed (Panicked ` ?S)"
    unfolding fuzz_semantic_verify_and_open_def Let_def outcome_panics_only
    using verify_and_open_checks_ok [OF assms(1,2) scenario_wf [OF _ assms], where S = ?S]
    by (auto simp: panic_vc ok_or_eq_Inr simp del: if_image_distrib)
  then show ?thesis by (auto split: if_splits)
qed

end
