(* ===== verification/Csk2_Fuzz_Stress.thy ===== *)
theory Csk2_Fuzz_Stress
  imports Csk2_Fuzz_Reseal Csk2_Fuzz_Tsig Csk2_Fuzz_Open
begin

text \<open>
  The target \<open>fuzz_cross_system_lifecycle_stress.rs\<close>: an authority and a holder, with one capability and one
  object, take up to twelve steps chosen by the input among rotating, re-wrapping, resealing, checking a
  compromise notice, revoking and a round trip through the wire format. The theory has the target, the
  invariant its steps keep, and the exact outcome: the target panics if and only if some re-wrapping comes
  after a revocation, because re-wrapping validates the capability only at the state it wraps from.
\<close>

subsection \<open>The target\<close>

definition STRESS_VALIDITY_WINDOW :: u64 where "STRESS_VALIDITY_WINDOW = 4096"

definition stress_capability :: "crypto \<Rightarrow> bytes \<Rightarrow> capability" where
  "stress_capability C data =
     \<lparr>cap_version = 1, cap_subject = ascii ''fuzz-subject'',
      cap_object_id = ascii ''cross-system-object-'' @ hex16 (bytes_to_u64 data),
      cap_rights = rights_union (rights_union READ DECRYPT) DELEGATE,
      cap_policy_hash = fuzz_policy C ''cross-system-policy-'' (drop 8 data), cap_epoch_start = 1, cap_epoch_end = 1024,
      cap_delegation_depth = 0, cap_parent_stamp = zeros 32,
      cap_nonce = take 16 (deterministic_seed32 (drop 12 data) 0xA5)\<rparr>"

definition stress_root_kp :: "bytes \<Rightarrow> authority_root_key_pair" where
  "stress_root_kp data = root_from_seed (deterministic_seed32 (drop 1 data) 0x52)"

definition stress_epoch1_kp :: "bytes \<Rightarrow> epoch_signing_key_pair" where
  "stress_epoch1_kp data = epoch_from_seed (deterministic_seed32 (drop 5 data) 0x73)"

definition stress_initial_state :: "crypto \<Rightarrow> bytes \<Rightarrow> authority_state" where
  "stress_initial_state C data =
     build_state C (snd (add_capability C tree_new (stress_capability C data)))
       (root_verifying_key_bytes C (stress_root_kp data)) (fuzz_id ''cross-system-auth-'' data) 1 (zeros 32)"

definition state_for_epoch ::
    "(authority_state \<times> transparency_proof) list \<Rightarrow> u64 \<Rightarrow> (authority_state \<times> transparency_proof) option" where
  "state_for_epoch history epoch = List.find (\<lambda>(state, _). st_epoch state = epoch) history"

definition first_wrapper_epoch :: "csk2_object \<Rightarrow> u64 option" where
  "first_wrapper_epoch object = (case o_wrappers object of [] \<Rightarrow> None | wrapper # _ \<Rightarrow> Some (w_epoch wrapper))"

definition fuzz_encode :: "csk2_object \<Rightarrow> bytes fuzz" where
  "fuzz_encode object = expect (ok_or (encode_kyriotes_csk2_object object) ()) ''count exceeds u32::MAX''"

definition wire_round_trip :: "csk2_object \<Rightarrow> csk2_object option fuzz" where
  "wire_round_trip object = bind_r (fuzz_encode object) (\<lambda>encoded.
     Inr (case decode_kyriotes_csk2_object encoded of Inl _ \<Rightarrow> None | Inr decoded \<Rightarrow> Some decoded))"

text \<open>What the loop changes; what it only reads are the arguments of the steps.\<close>

record stress_state =
  sx_tree :: authority_capability_tree
  sx_log :: in_memory_log
  sx_chain_hash :: bytes
  sx_verifier :: crypto_authority_verifier
  sx_object :: csk2_object
  sx_owner_is_a :: bool
  sx_history :: "(authority_state \<times> transparency_proof) list"
  sx_current_state :: authority_state
  sx_transparency_proof :: transparency_proof
  sx_rng :: rng

record stress_setup =
  ss_data :: bytes
  ss_cap :: capability
  ss_proof :: capability_proof
  ss_recipient_a :: recipient_key_pair
  ss_recipient_b :: recipient_key_pair

definition stress_owner :: "stress_setup \<Rightarrow> bool \<Rightarrow> recipient_key_pair" where
  "stress_owner S owner_is_a = (if owner_is_a then ss_recipient_a S else ss_recipient_b S)"

definition stress_rotate :: "crypto \<Rightarrow> (nat \<Rightarrow> rng) \<Rightarrow> stress_setup \<Rightarrow> stress_state \<Rightarrow> nat \<times> byte \<Rightarrow> stress_state fuzz" where
  "stress_rotate C os S st x =
     (let next_epoch = saturating_add (st_epoch (sx_current_state st)) (ucast (snd x) mod 3 + 1) in
      case rotate_epoch_full C (in_memory_ops C) (os (2 * fst x + 2)) (sx_log st) (stress_root_kp (ss_data S))
          (sx_current_state st) next_epoch STRESS_VALIDITY_WINDOW (sx_chain_hash st) of
        (Inl _, log) \<Rightarrow> Inr (st\<lparr>sx_log := log\<rparr>)
      | (Inr rotation, log) \<Rightarrow>
          let verifier = add_evidence (sx_verifier st) (st_authority_id (er_state rotation))
                (st_epoch (er_state rotation)) (er_epoch_pk rotation) (er_sigma_e rotation) (er_epoch_cert rotation)
          in Inr (st\<lparr>sx_log := log, sx_verifier := verifier, sx_chain_hash := er_chain_hash rotation,
               sx_current_state := er_state rotation, sx_transparency_proof := er_transparency_proof rotation,
               sx_history := sx_history st @ [(er_state rotation, er_transparency_proof rotation)]\<rparr>))"

definition stress_rewrap :: "crypto \<Rightarrow> (nat \<Rightarrow> rng) \<Rightarrow> stress_setup \<Rightarrow> stress_state \<Rightarrow> nat \<times> byte \<Rightarrow> stress_state fuzz" where
  "stress_rewrap C os S st x =
     (case first_wrapper_epoch (sx_object st) of None \<Rightarrow> Inr st
      | Some from_epoch \<Rightarrow>
        if from_epoch = st_epoch (sx_current_state st) then Inr st
        else (case state_for_epoch (sx_history st) from_epoch of None \<Rightarrow> Inr st
         | Some (from_state, _) \<Rightarrow>
           let V = crypto_verify_state C (sx_verifier st); owner = stress_owner S (sx_owner_is_a st);
               (res, object) = add_epoch_wrapper_with_verifier C (os (2 * fst x + 2)) (os (2 * fst x + 3)) V
                 (kp_secret owner) (kp_public owner) (sx_object st) (ss_cap S) (ss_proof S) from_state
                 (sx_current_state st) (sx_transparency_proof st)
           in bind_r (if is_ok res
                then fuzz_assert ''verify_with_verifier(..).is_ok()''
                  (is_ok (verify_with_verifier C V object (ss_cap S) (ss_proof S) (sx_current_state st)
                    (sx_transparency_proof st)))
                else Inr ()) (\<lambda>_.
              Inr (st\<lparr>sx_object := object\<rparr>))))"

definition stress_reseal :: "crypto \<Rightarrow> (nat \<Rightarrow> rng) \<Rightarrow> stress_setup \<Rightarrow> stress_state \<Rightarrow> nat \<times> byte \<Rightarrow> stress_state fuzz" where
  "stress_reseal C os S st x =
     (case first_wrapper_epoch (sx_object st) of None \<Rightarrow> Inr st
      | Some open_epoch \<Rightarrow>
        (case state_for_epoch (sx_history st) open_epoch of None \<Rightarrow> Inr st
         | Some (open_state, _) \<Rightarrow>
           let reseal_req = request_for (ss_cap S) (cap_policy_hash (ss_cap S)) (st_epoch (sx_current_state st)) in
           case open_and_reseal_with_verifier C (os (2 * fst x + 2)) (os (2 * fst x + 3))
               (crypto_verify_state C (sx_verifier st)) (kp_secret (stress_owner S (sx_owner_is_a st)))
               (kp_public (stress_owner S (\<not> sx_owner_is_a st))) (sx_object st) (ss_cap S) (ss_proof S) open_state
               (ss_proof S) (sx_transparency_proof st) (sx_current_state st) reseal_req Current of
             Inl _ \<Rightarrow> Inr st
           | Inr next_object \<Rightarrow> Inr (st\<lparr>sx_object := next_object, sx_owner_is_a := \<not> sx_owner_is_a st\<rparr>)))"

definition stress_compromise :: "crypto \<Rightarrow> stress_setup \<Rightarrow> stress_state \<Rightarrow> nat \<times> byte \<Rightarrow> stress_state fuzz" where
  "stress_compromise C S st x =
     (let V = crypto_verify_state C (sx_verifier st); s = sx_current_state st;
          compromise_epoch = saturating_sub (st_epoch s) (ucast (snd x) mod 2);
          notices = [issue_compromise_notice C (stress_root_kp (ss_data S))
            (ec_epoch_pk (is_epoch_cert (cp_issuance (ss_proof S)))) compromise_epoch (st_authority_root s)]
      in if st_epoch s \<ge> compromise_epoch
         then bind_r (fuzz_assert ''verify_with_compromise_check(..).is_err()''
                (\<not> is_ok (verify_with_compromise_check_and_verifier C V (sx_object st) (ss_cap S) (ss_proof S) s
                  (sx_transparency_proof st) notices))) (\<lambda>_.
              bind_r (fuzz_assert ''open_with_compromise_check(..).is_err()''
                (\<not> is_ok (open_with_compromise_check_and_verifier C V (kp_secret (stress_owner S (sx_owner_is_a st)))
                  (sx_object st) (ss_cap S) (ss_proof S) s notices))) (\<lambda>_.
              Inr st))
         else Inr st)"

definition stress_revoke :: "crypto \<Rightarrow> stress_setup \<Rightarrow> stress_state \<Rightarrow> nat \<times> byte \<Rightarrow> stress_state fuzz" where
  "stress_revoke C S st x =
     (let revoke_epoch = saturating_add (st_epoch (sx_current_state st)) 1 in
      case revoke_capability_and_commit C (in_memory_ops C) (sx_log st) (sx_tree st) (ss_cap S) (sx_current_state st)
          revoke_epoch of
        (Inl _, log, tree) \<Rightarrow> Inr (st\<lparr>sx_log := log, sx_tree := tree\<rparr>)
      | (Inr commit, log, tree) \<Rightarrow>
          let (rev_epoch_kp, rng) = epoch_generate (sx_rng st);
              s = tc_state commit;
              rev_epoch_pk = epoch_verifying_key_bytes C rev_epoch_kp;
              rev_epoch_cert = issue_epoch_cert C (stress_root_kp (ss_data S)) rev_epoch_pk (st_epoch s)
                STRESS_VALIDITY_WINDOW;
              rev_sigma = sign_epoch_root C rev_epoch_kp (st_authority_root s) (st_revocation_root s)
                (st_transparency_root s) (st_epoch s) (st_prev_epoch_hash s);
              verifier = add_evidence (sx_verifier st) (st_authority_id s) (st_epoch s) rev_epoch_pk rev_sigma
                rev_epoch_cert;
              chain_hash = transparency_log_entry_hash C (sx_chain_hash st) (st_authority_root s)
                (st_revocation_root s) (st_epoch s) rev_epoch_pk rev_sigma
          in Inr (st\<lparr>sx_log := log, sx_tree := tree, sx_rng := rng, sx_verifier := verifier,
               sx_chain_hash := chain_hash, sx_current_state := s, sx_transparency_proof := tc_proof commit,
               sx_history := sx_history st @ [(s, tc_proof commit)]\<rparr>))"

text \<open>The round trip through the wire format; the result of decoding the changed bytes is dropped, as in the target.\<close>

definition stress_transport :: "stress_state \<Rightarrow> nat \<times> byte \<Rightarrow> stress_state fuzz" where
  "stress_transport st x =
     bind_r (wire_round_trip (sx_object st)) (\<lambda>decoded.
     let object = (case decoded of Some d \<Rightarrow> d | None \<Rightarrow> sx_object st) in
     bind_r (fuzz_encode object) (\<lambda>encoded.
     bind_r (if encoded = [] then Inr ()
       else let index = unat (snd x) mod length encoded in
         bind_r (fuzz_assert ''index out of bounds'' (index < length encoded)) (\<lambda>_.
         let discarded = decode_kyriotes_csk2_object (encoded[index := encoded ! index XOR 1]) in Inr ())) (\<lambda>_.
     Inr (st\<lparr>sx_object := object\<rparr>))))"

definition stress_step :: "crypto \<Rightarrow> (nat \<Rightarrow> rng) \<Rightarrow> stress_setup \<Rightarrow> stress_state \<Rightarrow> nat \<times> byte \<Rightarrow> stress_state fuzz" where
  "stress_step C os S st x =
     (let k = snd x mod 6 in
      if k = 0 then stress_rotate C os S st x
      else if k = 1 then stress_rewrap C os S st x
      else if k = 2 then stress_reseal C os S st x
      else if k = 3 then stress_compromise C S st x
      else if k = 4 then stress_revoke C S st x
      else stress_transport st x)"

definition stress_message :: "bytes \<Rightarrow> bytes" where
  "stress_message data = (if data = [] then [] else map (\<lambda>i. data ! (i mod length data)) [0..<128])"

definition stress_recipient :: "byte \<Rightarrow> recipient_key_pair \<Rightarrow> recipient_key_pair" where
  "stress_recipient b k = (if b AND 1 = 1 then classical_only k else k)"

definition stress_steps :: "bytes \<Rightarrow> byte list" where
  "stress_steps data = take MAX_STATEFUL_STRESS_STEPS (drop 24 data)"

definition fuzz_cross_system_lifecycle_stress ::
    "crypto \<Rightarrow> (bytes \<Rightarrow> rng) \<Rightarrow> (nat \<Rightarrow> rng) \<Rightarrow> bytes \<Rightarrow> fuzz_run" where
  "fuzz_cross_system_lifecycle_stress C std_rng os data0 =
     (let data = bounded data0;
          rng = std_rng (deterministic_seed32 data 0x31);
          root_kp = stress_root_kp data; epoch1_kp = stress_epoch1_kp data; epoch1_pk = epoch_verifying_key_bytes C epoch1_kp;
          cap = stress_capability C data;
          tree = snd (add_capability C tree_new cap);
          epoch1_cert = issue_epoch_cert C root_kp epoch1_pk 1 STRESS_VALIDITY_WINDOW;
          (res, log, tree) = issue_capability_and_commit C (in_memory_ops C) log_new tree cap epoch1_kp epoch1_cert
            (stress_initial_state C data)
      in outcome (bind_r (or_return res) (\<lambda>(issuance, initial_commit).
         let s = tc_state initial_commit; tp = tc_proof initial_commit;
             sigma_1 = sign_epoch_root C epoch1_kp (st_authority_root s) (st_revocation_root s) (st_transparency_root s)
               (st_epoch s) (st_prev_epoch_hash s);
             chain_hash = transparency_log_entry_hash C (st_prev_epoch_hash s) (st_authority_root s)
               (st_revocation_root s) (st_epoch s) epoch1_pk sigma_1;
             log = store_chain_hash log (st_authority_id s) (st_epoch s) chain_hash;
             verifier = add_evidence (with_root_pk (root_verifying_key_bytes C root_kp)) (st_authority_id s) (st_epoch s)
               epoch1_pk sigma_1 epoch1_cert;
             V = crypto_verify_state C verifier in
         bind_r (or_return (ok_or (build_capability_proof C tree cap issuance s) ())) (\<lambda>proof.
         let (recipient_a, rng) = recipient_generate C rng;
             (recipient_b, rng) = recipient_generate C rng;
             recipient_a = stress_recipient (byte_at data 2) recipient_a;
             recipient_b = stress_recipient (byte_at data 3) recipient_b;
             message = stress_message data;
             request = request_for cap (cap_policy_hash cap) (st_epoch s) in
         bind_r (or_return (seal_with_verifier C (os 0) (os 1) V (kp_public recipient_a) message cap proof tp s request
           Current)) (\<lambda>object.
         bind_r (fuzz_assert ''verify_with_verifier(..).is_ok()'' (is_ok (verify_with_verifier C V object cap proof s tp))) (\<lambda>_.
         bind_r (expect (open_with_verifier C V (kp_secret recipient_a) object cap proof s)
           ''freshly sealed object must open'') (\<lambda>opened.
         bind_r (fuzz_assert ''opened'' (opened = message)) (\<lambda>_.
         let S = \<lparr>ss_data = data, ss_cap = cap, ss_proof = proof, ss_recipient_a = recipient_a, ss_recipient_b = recipient_b\<rparr>;
             st = \<lparr>sx_tree = tree, sx_log = log, sx_chain_hash = chain_hash, sx_verifier = verifier, sx_object = object,
               sx_owner_is_a = True, sx_history = [(s, tp)], sx_current_state = s, sx_transparency_proof = tp,
               sx_rng = rng\<rparr> in
         bind_r (fold_r (stress_step C os S) st (enumerate 0 (stress_steps data))) (\<lambda>_. Inr ())))))))))"


subsection \<open>The authority\<close>

text \<open>The two trees of a run, before and after the capability is revoked, and the states that publish them.\<close>

definition stress_tree :: "crypto \<Rightarrow> bytes \<Rightarrow> bool \<Rightarrow> authority_capability_tree" where
  "stress_tree C data revoked = \<lparr>ct_leaf_hashes = [capability_leaf_hash C (stress_capability C data)],
     ct_revoked_stamps = (if revoked then [capability_stamp C (stress_capability C data) (stress_initial_state C data)] else [])\<rparr>"

definition stress_published :: "crypto \<Rightarrow> bytes \<Rightarrow> bool \<Rightarrow> authority_state \<Rightarrow> bool" where
  "stress_published C data revoked s \<longleftrightarrow> publishes C s (stress_tree C data revoked) \<and>
     st_root_pk s = root_verifying_key_bytes C (stress_root_kp data) \<and>
     st_authority_id s = st_authority_id (stress_initial_state C data)"

definition stress_authority :: "crypto \<Rightarrow> bytes \<Rightarrow> nat \<Rightarrow> bool \<Rightarrow> stress_state \<Rightarrow> bool" where
  "stress_authority C data i revoked st \<longleftrightarrow>
     sx_tree st = stress_tree C data revoked \<and> stress_published C data revoked (sx_current_state st) \<and>
     wf_state (sx_current_state st) \<and> length (sx_chain_hash st) = 32 \<and>
     1 \<le> unat (st_epoch (sx_current_state st)) \<and> unat (st_epoch (sx_current_state st)) \<le> 1 + 3 * i \<and>
     (\<forall>e > st_epoch (sx_current_state st). log_view (sx_log st) (st_authority_id (sx_current_state st), e) = None) \<and>
     length (lg_entries (sx_log st)) \<le> Suc i \<and> log_typed (sx_log st) \<and>
     cv_root_pk (sx_verifier st) = Some (root_verifying_key_bytes C (stress_root_kp data)) \<and>
     state_for_epoch (sx_history st) (st_epoch (sx_current_state st)) = Some (sx_current_state st, sx_transparency_proof st) \<and>
     wf_proof (sx_transparency_proof st) \<and> length (tp_sibling_hashes (sx_transparency_proof st)) \<le> 64 \<and>
     (\<forall>(s, tp) \<in> set (sx_history st). st_epoch s \<le> st_epoch (sx_current_state st) \<and>
        is_ok (crypto_verify_state C (sx_verifier st) s tp))"

lemma state_for_epoch_append:
  "state_for_epoch h e = Some x \<Longrightarrow> state_for_epoch (h @ h') e = Some x"
  by (induction h) (auto simp: state_for_epoch_def split: if_splits)

lemma state_for_epoch_Some: "state_for_epoch h e = Some (s, tp) \<Longrightarrow> (s, tp) \<in> set h \<and> st_epoch s = e"
  by (auto simp: state_for_epoch_def find_Some_iff) (metis nth_mem)

lemma state_for_epoch_new:
  assumes "\<forall>(s', tp') \<in> set h. st_epoch s' < st_epoch s"
  shows "state_for_epoch (h @ [(s, tp)]) (st_epoch s) = Some (s, tp)"
  using assms by (induction h) (auto simp: state_for_epoch_def)

text \<open>Both kinds of step that move the authority: a state of a later epoch is committed and gets its evidence.\<close>

lemma stress_advance:
  fixes C data st kp c
  defines "s \<equiv> tc_state c"
  assumes base: "sig_correct C" "sha_32 C" "stress_authority C data i r st" "i < 12"
    and commit: "commit_state C (sx_log st) t = (Inr c, log1)" "wf_state (t\<lparr>st_transparency_root := zeros 32\<rparr>)"
    and later: "st_epoch (sx_current_state st) < st_epoch t" "unat (st_epoch t) \<le> unat (st_epoch (sx_current_state st)) + 3"
    and pub: "stress_published C data r' t"
    and log: "log_view log = log_view log1" "leaf_hashes log = leaf_hashes log1" and hash: "length h = 32"
  shows "stress_authority C data (Suc i) r'
    (st\<lparr>sx_log := log, sx_tree := stress_tree C data r', sx_rng := rng, sx_verifier := add_evidence (sx_verifier st) (st_authority_id s) (st_epoch s)
          (epoch_verifying_key_bytes C kp) (sign_epoch_root C kp (st_authority_root s) (st_revocation_root s)
            (st_transparency_root s) (st_epoch s) (st_prev_epoch_hash s))
          (issue_epoch_cert C (stress_root_kp data) (epoch_verifying_key_bytes C kp) (st_epoch s) STRESS_VALIDITY_WINDOW),
        sx_chain_hash := h, sx_current_state := s, sx_transparency_proof := tc_proof c,
        sx_history := sx_history st @ [(s, tc_proof c)]\<rparr>)"
proof -
  note inv = base(3) [unfolded stress_authority_def]
  have s: "s = bind_transparency_root_to_state t (current_root C log1)"
    using commit(1) by (cases rule: commit_state_cases [of "sx_log st" t C]) (auto simp: s_def)
  have len: "length (lg_entries log1) \<le> Suc (Suc i)"
    using commit(1) inv by (cases rule: commit_state_cases [of "sx_log st" t C]) auto
  then have small: "log_small log1" using base(4) by (simp add: log_small_def)
  have "log_typed (sx_log st)" using inv by blast
  note typed = commit_typed [OF commit(1) this base(2) small]
  have wf: "wf_state s" using commit_wf [OF commit(1) _ base(2) small commit(2)] inv by (simp add: s_def)
  have tp: "verify_transparency_proof C s (tc_proof c) = Inr ()"
    using committed_proof_verifies [OF commit(1) small] by (simp add: s_def)
  have e: "st_epoch s = st_epoch t" "unat (st_epoch s) \<le> 1 + 3 * Suc i" using later(2) inv by (auto simp: s)
  have "unat (st_epoch s) + unat STRESS_VALIDITY_WINDOW < 2 ^ 64 - 1" "0 < STRESS_VALIDITY_WINDOW"
    using e(2) base(4) by (simp_all add: STRESS_VALIDITY_WINDOW_def)
  note ev = evidence_accepted [OF base(1) _ tp this(2) this(1), of "sx_verifier st" "stress_root_kp data" kp]
  have root: "cv_root_pk (add_evidence v a e pk sig cert) = cv_root_pk v" for v a e pk sig cert by (simp add: add_evidence_def)
  have kept: "st_epoch s' \<le> st_epoch s \<and> is_ok (crypto_verify_state C (add_evidence (sx_verifier st) a (st_epoch s) pk sig cert) s' tp')"
    if "(s', tp') \<in> set (sx_history st)" for s' tp' a pk sig cert
  proof -
    have "st_epoch s' \<le> st_epoch (sx_current_state st)" "is_ok (crypto_verify_state C (sx_verifier st) s' tp')" using that inv by auto
    with later(1) e(1) evidence_kept show ?thesis by (metis leD less_imp_le order_trans)
  qed
  have "\<forall>(s', tp') \<in> set (sx_history st). st_epoch s' < st_epoch s" using inv later(1) e(1) by fastforce
  note newest = state_for_epoch_new [OF this, of "tc_proof c"]
  have view: "log_view log (st_authority_id s, e') = None" if "st_epoch s < e'" for e'
    using that inv later(1) log_view_commit [OF commit(1)] pub less_trans
    by (auto simp: s log(1) stress_published_def)
  have leafs: "length (lg_entries log) = length (lg_entries log1)" using arg_cong [OF log(2), of length] by (simp add: leaf_hashes_def)
  have p: "stress_published C data r' s" using pub by (simp add: s stress_published_def publishes_def)
  show ?thesis
    unfolding stress_authority_def
    using inv wf e later(1) view len leafs typed hash p ev log(2) kept newest
    by (auto simp: log_typed_def root word_less_nat_alt [of _ "st_epoch t"])
qed

subsection \<open>The holder\<close>

text \<open>What the set-up of a run guarantees of the parts that the loop only reads.\<close>

definition stress_wf :: "crypto \<Rightarrow> stress_setup \<Rightarrow> bool" where
  "stress_wf C S \<longleftrightarrow> ss_cap S = stress_capability C (ss_data S) \<and> nw_total_revoked (cp_non_revocation (ss_proof S)) = 0 \<and>
     (\<forall>b. keys_match C (kp_public (stress_owner S b)) (kp_secret (stress_owner S b))) \<and>
     (\<forall>s. stress_published C (ss_data S) False s \<longrightarrow> 1 \<le> st_epoch s \<longrightarrow> st_epoch s \<le> 1024 \<longrightarrow>
        validate_capability C (ss_cap S) (ss_proof S) s
          (request_for (ss_cap S) (cap_policy_hash (ss_cap S)) (st_epoch s)) = Inr ())"

text \<open>
  The object opens to the message for its present owner, at the state of its first wrapper; that state
  publishes the tree without the revocation.
\<close>

definition stress_sealed :: "crypto \<Rightarrow> stress_setup \<Rightarrow> bytes \<Rightarrow> stress_state \<Rightarrow> authority_state \<Rightarrow> bool" where
  "stress_sealed C S m st s \<longleftrightarrow>
     (\<exists>w ws. o_wrappers (sx_object st) = w # ws \<and> w_epoch w = st_epoch s \<and>
        state_for_epoch (sx_history st) (st_epoch s) = Some (s, w_transparency_proof w)) \<and>
     stress_published C (ss_data S) False s \<and> 1 \<le> st_epoch s \<and>
     opens_to C (kp_secret (stress_owner S (sx_owner_is_a st))) (sx_object st) (ss_cap S) s m \<and>
     o_temporal_policy (sx_object st) = Current \<and> o_seal_epoch (sx_object st) = st_epoch s \<and>
     (\<forall>e. open_request_for_object (sx_object st) e = request_for (ss_cap S) (cap_policy_hash (ss_cap S)) e) \<and>
     object_fits default_limits (sx_object st)"

definition stress_inv :: "crypto \<Rightarrow> stress_setup \<Rightarrow> bytes \<Rightarrow> nat \<Rightarrow> bool \<Rightarrow> stress_state \<Rightarrow> bool" where
  "stress_inv C S m i revoked st \<longleftrightarrow> stress_authority C (ss_data S) i revoked st \<and> length (o_wrappers (sx_object st)) \<le> Suc i \<and>
     (\<exists>s. stress_sealed C S m st s \<and> (revoked \<longrightarrow> st_epoch s < st_epoch (sx_current_state st)))"

lemma stress_inv_mono:
  assumes "stress_inv C S m i r st"
  shows "stress_inv C S m (Suc i) r st"
  using assms by (auto simp: stress_inv_def stress_authority_def)

lemma stress_inv_advance:
  assumes "stress_inv C S m i r st" "stress_authority C (ss_data S) (Suc i) r' st'"
    and "sx_object st' = sx_object st" "sx_owner_is_a st' = sx_owner_is_a st" "sx_history st' = sx_history st @ h"
    and "st_epoch (sx_current_state st) < st_epoch (sx_current_state st')"
  shows "stress_inv C S m (Suc i) r' st'"
proof -
  obtain s where s: "stress_sealed C S m st s" using assms(1) by (auto simp: stress_inv_def)
  then obtain w ws where w: "o_wrappers (sx_object st) = w # ws" "w_epoch w = st_epoch s"
      "state_for_epoch (sx_history st) (st_epoch s) = Some (s, w_transparency_proof w)"
    unfolding stress_sealed_def by blast
  have "\<forall>(s, tp) \<in> set (sx_history st). st_epoch s \<le> st_epoch (sx_current_state st)"
    using assms(1) by (auto simp: stress_inv_def stress_authority_def)
  with state_for_epoch_Some [OF w(3)] have "st_epoch s \<le> st_epoch (sx_current_state st)" by blast
  then have "st_epoch s < st_epoch (sx_current_state st')" using assms(6) by simp
  moreover have "stress_sealed C S m st' s"
    using s w(1,2) state_for_epoch_append [OF w(3), of h] unfolding stress_sealed_def assms(3-5) by blast
  moreover have "length (o_wrappers (sx_object st')) \<le> Suc (Suc i)" using assms(1,3) by (simp add: stress_inv_def)
  ultimately show ?thesis using assms(2) unfolding stress_inv_def by blast
qed

subsection \<open>Rotating and revoking\<close>

lemma stress_rotate_ok:
  assumes "sig_correct C" "sha_32 C" "stress_inv C S m i r st" "i < 12"
  shows "\<exists>st'. stress_rotate C os S st (i, x) = Inr st' \<and> stress_inv C S m (Suc i) r st'"
proof -
  let ?s = "sx_current_state st" and ?data = "ss_data S"
  let ?e = "saturating_add (st_epoch ?s) (ucast x mod 3 + 1)"
  let ?t = "rotated_authority_state ?s ?e (sx_chain_hash st)"
  have a: "stress_authority C ?data i r st" using assms(3) by (simp add: stress_inv_def)
  note inv = a [unfolded stress_authority_def]
  have "unat (ucast x mod 3 :: u64) < 3" by (simp add: unat_mod)
  then have "unat (ucast x mod 3 + 1 :: u64) = unat (ucast x mod 3 :: u64) + 1" by (simp add: unat_word_ariths)
  then have e: "unat ?e = unat (st_epoch ?s) + unat (ucast x mod 3 :: u64) + 1"
    using inv assms(4) \<open>unat (ucast x mod 3 :: u64) < 3\<close> by (simp add: unat_saturating_add)
  then have later: "st_epoch ?s < ?e" "unat ?e \<le> unat (st_epoch ?s) + 3"
    using \<open>unat (ucast x mod 3 :: u64) < 3\<close> by (simp_all add: word_less_nat_alt)
  have "is_ok (fst (rotate_epoch_full C (in_memory_ops C) (os (2 * i + 2)) (sx_log st) (stress_root_kp ?data) ?s ?e
      STRESS_VALIDITY_WINDOW (sx_chain_hash st)))"
    using inv later(1) by (intro rotate_fresh) auto
  then obtain rot log where r: "rotate_epoch_full C (in_memory_ops C) (os (2 * i + 2)) (sx_log st) (stress_root_kp ?data) ?s ?e
      STRESS_VALIDITY_WINDOW (sx_chain_hash st) = (Inr rot, log)"
    by (cases "rotate_epoch_full C (in_memory_ops C) (os (2 * i + 2)) (sx_log st) (stress_root_kp ?data) ?s ?e
      STRESS_VALIDITY_WINDOW (sx_chain_hash st)") (auto simp: is_ok_iff)
  obtain kp c log1 where c: "commit_state C (sx_log st) ?t = (Inr c, log1)"
      "log = store_chain_hash log1 (st_authority_id (tc_state c)) (st_epoch (tc_state c)) (er_chain_hash rot)"
      "er_state rot = tc_state c" "er_transparency_proof rot = tc_proof c" "er_epoch_pk rot = epoch_verifying_key_bytes C kp"
      "er_epoch_cert rot = issue_epoch_cert C (stress_root_kp ?data) (epoch_verifying_key_bytes C kp) ?e STRESS_VALIDITY_WINDOW"
      "er_sigma_e rot = sign_epoch_root C kp (st_authority_root (tc_state c)) (st_revocation_root (tc_state c))
         (st_transparency_root (tc_state c)) ?e (sx_chain_hash st)"
      "er_chain_hash rot = transparency_log_entry_hash C (sx_chain_hash st) (st_authority_root (tc_state c))
         (st_revocation_root (tc_state c)) (st_epoch (tc_state c)) (er_epoch_pk rot) (er_sigma_e rot)"
    using rotate_epoch_full_ok [OF r] by (auto simp: in_memory_ops_def)
  obtain h where h: "tc_state c = bind_transparency_root_to_state ?t h"
    using c(1) by (cases rule: commit_state_cases [of "sx_log st" ?t C]) auto
  have f: "st_epoch (tc_state c) = ?e" "st_prev_epoch_hash (tc_state c) = sx_chain_hash st"
    by (simp_all add: h rotated_authority_state_def)
  have w: "wf_state ?s" "stress_published C ?data r ?s" "length (sx_chain_hash st) = 32" using inv by blast+
  have wf: "wf_state (?t\<lparr>st_transparency_root := zeros 32\<rparr>)" using w(1,3) by (simp add: wf_state_def rotated_authority_state_def)
  have pub: "stress_published C ?data r ?t" using w(2) by (simp add: rotated_authority_state_def stress_published_def publishes_def)
  have hash: "length (er_chain_hash rot) = 32" using assms(2) by (simp add: c(8) transparency_log_entry_hash_def sha_32_def)
  have e_t: "st_epoch ?t = ?e" by (simp add: rotated_authority_state_def)
  have later': "st_epoch ?s < st_epoch ?t" "unat (st_epoch ?t) \<le> unat (st_epoch ?s) + 3" using later unfolding e_t .
  note adv = stress_advance [OF assms(1,2) a assms(4) c(1) wf later' pub _ _ hash, where kp = kp and log = log and rng = "sx_rng st"]
  let ?st = "st\<lparr>sx_log := log, sx_verifier := add_evidence (sx_verifier st) (st_authority_id (er_state rot))
      (st_epoch (er_state rot)) (er_epoch_pk rot) (er_sigma_e rot) (er_epoch_cert rot), sx_chain_hash := er_chain_hash rot,
      sx_current_state := er_state rot, sx_transparency_proof := er_transparency_proof rot,
      sx_history := sx_history st @ [(er_state rot, er_transparency_proof rot)]\<rparr>"
  have tree: "sx_tree st = stress_tree C ?data r" using inv by blast
  have "stress_authority C ?data (Suc i) r ?st"
    using adv by (simp add: c f e_t log_view_store store_chain_hash_keeps tree [symmetric])
  then have "stress_inv C S m (Suc i) r ?st"
    by (rule stress_inv_advance [OF assms(3)]) (use later(1) c(3) f(1) in simp_all)
  then show ?thesis using r by (simp add: stress_rotate_def Let_def)
qed

text \<open>Revoking a capability a second time finds its stamp in the set and only moves the epoch.\<close>

lemma stress_revoke_tree:
  assumes "capability_stamp C (stress_capability C data) s = capability_stamp C (stress_capability C data) (stress_initial_state C data)"
  shows "revoke_stamp (stress_tree C data r) (capability_stamp C (stress_capability C data) s) = stress_tree C data True"
  using assms by (auto simp: stress_tree_def revoke_stamp_def partition_point_def insert_at_def Let_def)

lemma stress_revoke_ok:
  assumes "sig_correct C" "sha_32 C" "stress_wf C S" "stress_inv C S m i r st" "i < 12"
  shows "\<exists>st'. stress_revoke C S st (i, x) = Inr st' \<and> stress_inv C S m (Suc i) True st'"
proof -
  let ?s = "sx_current_state st" and ?data = "ss_data S"
  let ?e = "saturating_add (st_epoch ?s) 1" and ?cap = "stress_capability C (ss_data S)"
  have cap: "ss_cap S = ?cap" using assms(3) by (simp add: stress_wf_def)
  have a: "stress_authority C ?data i r st" using assms(4) by (simp add: stress_inv_def)
  note inv = a [unfolded stress_authority_def]
  have w: "wf_state ?s" "stress_published C ?data r ?s" "length (sx_chain_hash st) = 32" "sx_tree st = stress_tree C ?data r"
    using inv by blast+
  have stamp: "capability_stamp C ?cap ?s = capability_stamp C ?cap (stress_initial_state C ?data)"
    using w(2) by (intro capability_stamp_cong) (simp add: stress_published_def)
  have "unat ?e = unat (st_epoch ?s) + 1" using inv assms(5) by (simp add: unat_saturating_add)
  then have later: "st_epoch ?s < ?e" "unat ?e \<le> unat (st_epoch ?s) + 3" by (simp_all add: word_less_nat_alt)
  obtain t tree where t: "revoke_capability C (sx_tree st) ?cap ?s ?e = (Inr t, tree)"
    using w(2,4) later(1) inclusion_absent [of C "sx_tree st" ?cap]
    by (simp add: revoke_capability_def stress_published_def publishes_def stress_tree_def Let_def not_le)
  note f = revoke_capability_ok [OF t]
  have tree: "tree = stress_tree C ?data True" using f(10) w(4) stress_revoke_tree [OF stamp] by simp
  have "log_view (sx_log st) (st_authority_id t, st_epoch t) = None" using inv later(1) f(5,6) by simp
  then obtain c log where c: "commit_state C (sx_log st) t = (Inr c, log)" using commit_fresh by metis
  have pub: "stress_published C ?data True t"
    using w(2) f tree by (simp add: stress_published_def publishes_def)
  have "tree_typed (stress_tree C ?data True)" using assms(2) by (simp add: tree_typed_def stress_tree_def hash_lengths)
  then have wf: "wf_state (t\<lparr>st_transparency_root := zeros 32\<rparr>)"
    using w(1) f tree tree_roots_32 [OF _ assms(2)] by (simp add: wf_state_def)
  have later': "st_epoch ?s < st_epoch t" "unat (st_epoch t) \<le> unat (st_epoch ?s) + 3" using later f(5) by simp_all
  obtain kp rng where kp: "epoch_generate (sx_rng st) = (kp, rng)" by fastforce
  let ?pk = "epoch_verifying_key_bytes C kp" and ?t = "tc_state c"
  let ?sig = "sign_epoch_root C kp (st_authority_root ?t) (st_revocation_root ?t) (st_transparency_root ?t) (st_epoch ?t)
    (st_prev_epoch_hash ?t)"
  let ?h = "transparency_log_entry_hash C (sx_chain_hash st) (st_authority_root ?t) (st_revocation_root ?t) (st_epoch ?t) ?pk ?sig"
  have hash: "length ?h = 32" using assms(2) by (simp add: transparency_log_entry_hash_def sha_32_def)
  note adv = stress_advance [OF assms(1,2) a assms(5) c wf later' pub refl refl hash, where kp = kp and rng = rng]
  have e: "st_epoch ?s < st_epoch ?t"
    using c later'(1) by (cases rule: commit_state_cases [of "sx_log st" t C]) auto
  have step: "revoke_capability_and_commit C (in_memory_ops C) (sx_log st) (sx_tree st) (ss_cap S) ?s ?e =
      (Inr c, log, stress_tree C ?data True)"
    using t c tree by (simp add: revoke_capability_and_commit_def cap in_memory_ops_def)
  show ?thesis
    unfolding stress_revoke_def Let_def step kp
    using stress_inv_advance [OF assms(4) adv] e by simp
qed

subsection \<open>Opening, resealing and re-wrapping\<close>

text \<open>Before the revocation the capability verifies at every state of the run, afterwards at none.\<close>

lemma stress_validates:
  assumes "stress_wf C S" "stress_published C (ss_data S) r s" "1 \<le> st_epoch s" "st_epoch s \<le> 1024"
  shows "is_ok (validate_capability C (ss_cap S) (ss_proof S) s
    (request_for (ss_cap S) (cap_policy_hash (ss_cap S)) (st_epoch s))) \<longleftrightarrow> \<not> r"
proof (cases r)
  case True
  then have "st_revocation_count s = 1" using assms(2) by (simp add: stress_published_def publishes_def stress_tree_def tree_revocation_count_def)
  moreover have "nw_total_revoked (cp_non_revocation (ss_proof S)) = 0" using assms(1) by (simp add: stress_wf_def)
  ultimately show ?thesis using True
    by (auto simp: is_ok_iff validate_capability_def verify_non_revocation_def bind_r_eq_Inr map_err_eq_Inr Let_def split: if_splits)
next
  case False
  then have "stress_published C (ss_data S) False s" using assms(2) by simp
  then have "validate_capability C (ss_cap S) (ss_proof S) s
      (request_for (ss_cap S) (cap_policy_hash (ss_cap S)) (st_epoch s)) = Inr ()"
    using assms(1,3,4) unfolding stress_wf_def by blast
  with False show ?thesis by simp
qed

lemma stress_verifies:
  assumes "stress_wf C S" "stress_inv C S m i r st" "i < 12"
    and "\<forall>e. open_request_for_object object e = request_for (ss_cap S) (cap_policy_hash (ss_cap S)) e"
    and "o_temporal_policy object = Current" "o_seal_epoch object \<le> st_epoch s" "(s, tp) \<in> set (sx_history st)"
    and "stress_published C (ss_data S) r' s" "1 \<le> st_epoch s"
  shows "is_ok (verify_with_verifier C (crypto_verify_state C (sx_verifier st)) object (ss_cap S) (ss_proof S) s tp) \<longleftrightarrow> \<not> r'"
proof -
  have "is_ok (crypto_verify_state C (sx_verifier st) s tp)" "st_epoch s \<le> st_epoch (sx_current_state st)"
      "unat (st_epoch (sx_current_state st)) \<le> 1 + 3 * i"
    using assms(2,7) by (auto simp: stress_inv_def stress_authority_def)
  then obtain v where v: "crypto_verify_state C (sx_verifier st) s tp = Inr v" "as_state v = s" "st_epoch s \<le> 1024"
    using crypto_verifier.verified_as_state assms(3) by (force simp: is_ok_iff word_le_nat_alt)
  show ?thesis
    using stress_validates [OF assms(1,8,9) v(3)] assms(4-6) v(1,2)
    by (simp add: is_ok_iff verify_with_verifier_def verify_verified_ok openable_epoch_simps)
qed

lemma opening_rewraps:
  assumes "validate_capability C cap pf (as_state vf) (open_request_for_object object (st_epoch (as_state vf))) = Inr ()"
    and "opens_to C sk object cap (as_state vf) m" "aead_accepts C"
    and "st_epoch (as_state vf) < st_epoch (as_state vt)" "cap_epoch_start cap \<le> st_epoch (as_state vt)"
      "st_epoch (as_state vt) \<le> cap_epoch_end cap"
  shows "\<exists>w. rewrapped C rng os sk pk object cap pf vf vt tp = Inr w"
  using assms(2) rewrap_succeeds [OF _ _ assms(1,4-6,3)] by (auto simp: opens_to_def)

text \<open>After a re-wrap the first wrapper, and what opens through it, are as before.\<close>

lemma put_epoch_wrapper_head:
  assumes "o_wrappers object = w # ws" "w_epoch w \<noteq> w_epoch w'"
  shows "\<exists>ws'. o_wrappers (put_epoch_wrapper object w') = w # ws' \<and> length ws' \<le> Suc (length ws)"
proof (cases "replace_first (\<lambda>x. w_epoch x = w_epoch w') w' (o_wrappers object)")
  case (Some xs)
  then obtain ws' where "replace_first (\<lambda>x. w_epoch x = w_epoch w') w' ws = Some ws'" "xs = w # ws'"
    using assms by (auto split: option.splits)
  moreover have "length ys = length xs" if "replace_first P v xs = Some ys" for P v and xs ys :: "authority_wrapper list"
    using that by (induction xs arbitrary: ys) (auto split: if_splits option.splits)
  ultimately show ?thesis using Some by (auto simp: put_epoch_wrapper_def)
qed (use assms in \<open>simp add: put_epoch_wrapper_def\<close>)

lemma put_epoch_wrapper_fits:
  assumes "object_fits l object" "wrapper_fits l w" "length (o_wrappers (put_epoch_wrapper object w)) \<le> dl_max_wrappers l"
    "length (o_wrappers (put_epoch_wrapper object w)) < 2 ^ 32"
  shows "object_fits l (put_epoch_wrapper object w)"
  using assms set_replace_first [of "\<lambda>x. w_epoch x = w_epoch w" w "o_wrappers object"]
  by (auto simp: put_epoch_wrapper_def object_fits_def split: option.splits)

lemma wf_wrapper_fits:
  assumes "wf_wrapper w" "length (tp_sibling_hashes (w_transparency_proof w)) \<le> 64"
  shows "wrapper_fits default_limits w"
  using assms by (auto simp: wf_wrapper_def wf_proof_def wrapper_fits_def proof_fits_def wire_bytes_def default_limits_def strict_default_def)

text \<open>The parts of the invariant that the holder's steps use.\<close>

lemma stress_invD:
  assumes "stress_inv C S m i r st" "i < 12"
  obtains s w ws where "stress_sealed C S m st s" "o_wrappers (sx_object st) = w # ws" "w_epoch w = st_epoch s"
    "first_wrapper_epoch (sx_object st) = Some (st_epoch s)"
    "state_for_epoch (sx_history st) (st_epoch s) = Some (s, w_transparency_proof w)"
    "(s, w_transparency_proof w) \<in> set (sx_history st)" "stress_published C (ss_data S) False s" "1 \<le> st_epoch s"
    "st_epoch s \<le> st_epoch (sx_current_state st)" "st_epoch (sx_current_state st) \<le> 1024" "1 \<le> st_epoch (sx_current_state st)"
    "r \<longrightarrow> st_epoch s < st_epoch (sx_current_state st)"
proof -
  obtain s where s: "stress_sealed C S m st s" "r \<longrightarrow> st_epoch s < st_epoch (sx_current_state st)"
    using assms(1) by (auto simp: stress_inv_def)
  then obtain w ws where w: "o_wrappers (sx_object st) = w # ws" "w_epoch w = st_epoch s"
      "state_for_epoch (sx_history st) (st_epoch s) = Some (s, w_transparency_proof w)"
      "stress_published C (ss_data S) False s" "1 \<le> st_epoch s"
    unfolding stress_sealed_def by blast
  note h = state_for_epoch_Some [OF w(3), THEN conjunct1]
  have a: "stress_authority C (ss_data S) i r st" using assms(1) by (simp add: stress_inv_def)
  then have "st_epoch s \<le> st_epoch (sx_current_state st)" using h by (auto simp: stress_authority_def)
  moreover have "1 \<le> unat (st_epoch (sx_current_state st))" "unat (st_epoch (sx_current_state st)) \<le> 1 + 3 * i"
    using a unfolding stress_authority_def by blast+
  ultimately show thesis
    using that [OF s(1) w(1,2) _ w(3) h w(4,5)] s(2) w(1,2) assms(2)
    by (simp add: first_wrapper_epoch_def word_le_nat_alt)
qed

lemma stress_current:
  assumes "stress_inv C S m i r st"
  shows "state_for_epoch (sx_history st) (st_epoch (sx_current_state st)) = Some (sx_current_state st, sx_transparency_proof st)"
    "(sx_current_state st, sx_transparency_proof st) \<in> set (sx_history st)" "wf_state (sx_current_state st)"
    "stress_published C (ss_data S) r (sx_current_state st)" "wf_proof (sx_transparency_proof st)"
    "length (tp_sibling_hashes (sx_transparency_proof st)) \<le> 64"
    "\<And>s tp. (s, tp) \<in> set (sx_history st) \<Longrightarrow> \<exists>v. crypto_verify_state C (sx_verifier st) s tp = Inr v \<and> as_state v = s"
proof -
  have a: "stress_authority C (ss_data S) i r st" using assms(1) by (simp add: stress_inv_def)
  show f: "state_for_epoch (sx_history st) (st_epoch (sx_current_state st)) = Some (sx_current_state st, sx_transparency_proof st)"
    and "wf_state (sx_current_state st)"
    "stress_published C (ss_data S) r (sx_current_state st)" "wf_proof (sx_transparency_proof st)"
    "length (tp_sibling_hashes (sx_transparency_proof st)) \<le> 64"
    using a unfolding stress_authority_def by blast+
  show "(sx_current_state st, sx_transparency_proof st) \<in> set (sx_history st)" using state_for_epoch_Some [OF f] by blast
  have "\<forall>(s, tp) \<in> set (sx_history st). is_ok (crypto_verify_state C (sx_verifier st) s tp)"
    using a by (auto simp: stress_authority_def)
  then show "\<exists>v. crypto_verify_state C (sx_verifier st) s tp = Inr v \<and> as_state v = s" if "(s, tp) \<in> set (sx_history st)" for s tp
    using that crypto_verifier.verified_as_state by (fastforce simp: is_ok_iff)
qed

lemma stress_rewraps:
  fixes C S st i os
  defines "k \<equiv> stress_owner S (sx_owner_is_a st)" and "t \<equiv> sx_current_state st" and "tp \<equiv> sx_transparency_proof st"
  assumes "crypto_correct C" "crypto_sizes C" "aead_accepts C" "stress_wf C S" "stress_inv C S m i r st" "i < 12"
    and "stress_sealed C S m st s" "o_wrappers (sx_object st) = w # ws" "w_epoch w = st_epoch s"
      "(s, w_transparency_proof w) \<in> set (sx_history st)" "st_epoch s < st_epoch t" "st_epoch t \<le> 1024" "1 \<le> st_epoch t"
  obtains w' where "add_epoch_wrapper_with_verifier C r1 r2 (crypto_verify_state C (sx_verifier st)) (kp_secret k) (kp_public k)
      (sx_object st) (ss_cap S) (ss_proof S) s t tp = (Inr (), put_epoch_wrapper (sx_object st) w')"
    "w_epoch w' = st_epoch t" "wrapper_fits default_limits w'"
    "opens_to C (kp_secret k) (put_epoch_wrapper (sx_object st) w') (ss_cap S) s m"
proof -
  let ?object = "sx_object st" and ?V = "crypto_verify_state C (sx_verifier st)"
  note sealed = assms(10) [unfolded stress_sealed_def] and now = stress_current [OF assms(8), folded t_def tp_def]
  obtain vf vt where v: "?V s (w_transparency_proof w) = Inr vf" "as_state vf = s" "?V t tp = Inr vt" "as_state vt = t"
    using now(7) [OF assms(13)] now(7) [OF now(2)] by blast
  have cap: "ss_cap S = stress_capability C (ss_data S)" "keys_match C (kp_public k) (kp_secret k)"
    using assms(7) by (simp_all add: stress_wf_def k_def)
  have pub: "stress_published C (ss_data S) False s" "1 \<le> st_epoch s" using sealed by blast+
  have "st_epoch s \<le> 1024" using assms(14,15) by simp
  then have valid: "validate_capability C (ss_cap S) (ss_proof S) s (open_request_for_object ?object (st_epoch s)) = Inr ()"
    using stress_validates [OF assms(7) pub] sealed by (simp add: is_ok_iff)
  have "\<exists>w. rewrapped C r1 r2 (kp_secret k) (kp_public k) ?object (ss_cap S) (ss_proof S) vf vt tp = Inr w"
    by (rule opening_rewraps [OF _ _ assms(6), where m = m])
      (use valid sealed v(2,4) assms(14-16) in \<open>simp_all add: cap(1) stress_capability_def k_def\<close>)
  then obtain w' where w': "rewrapped C r1 r2 (kp_secret k) (kp_public k) ?object (ss_cap S) (ss_proof S) vf vt tp = Inr w'" ..
  have new: "w_epoch w' = st_epoch t" "w_transparency_proof w' = tp"
    using rewrapped_ok [OF assms(4) cap(2) w'] v(4) by auto
  have find: "find_wrapper ?object (st_epoch s) = Some w" using assms(11,12) by (simp add: find_wrapper_def)
  have added: "add_epoch_wrapper_verified C r1 r2 (kp_secret k) (kp_public k) ?object (ss_cap S) (ss_proof S) vf vt tp
      = (Inr (), put_epoch_wrapper ?object w')"
    using w' by (simp add: add_epoch_wrapper_verified_ok)
  show thesis
  proof (rule that)
    show "add_epoch_wrapper_with_verifier C r1 r2 ?V (kp_secret k) (kp_public k) ?object (ss_cap S) (ss_proof S) s t tp
        = (Inr (), put_epoch_wrapper ?object w')"
      using added v(1,3) find by (simp add: add_epoch_wrapper_with_verifier_def ok_or_def)
    show "wrapper_fits default_limits w'"
      using rewrapped_wf [OF assms(5) w' now(5)] new(2) now(6) by (intro wf_wrapper_fits) simp_all
    show "opens_to C (kp_secret k) (put_epoch_wrapper ?object w') (ss_cap S) s m"
      using rewrap_keeps_others [OF added, of s "kp_secret k" "ss_cap S" m] v(4) assms(14) sealed by (simp add: k_def)
  qed (rule new(1))
qed

lemma stress_rewrap_ok:
  assumes "crypto_correct C" "crypto_sizes C" "aead_accepts C" "stress_wf C S" "stress_inv C S m i r st" "i < 12"
  shows "if r then stress_rewrap C os S st (i, x) = Inl (Panicked ''verify_with_verifier(..).is_ok()'')
    else \<exists>st'. stress_rewrap C os S st (i, x) = Inr st' \<and> stress_inv C S m (Suc i) r st'"
proof -
  let ?t = "sx_current_state st" and ?tp = "sx_transparency_proof st" and ?V = "crypto_verify_state C (sx_verifier st)"
  obtain s w ws where s: "stress_sealed C S m st s" "o_wrappers (sx_object st) = w # ws" "w_epoch w = st_epoch s"
    "first_wrapper_epoch (sx_object st) = Some (st_epoch s)"
    "state_for_epoch (sx_history st) (st_epoch s) = Some (s, w_transparency_proof w)"
    "(s, w_transparency_proof w) \<in> set (sx_history st)" "stress_published C (ss_data S) False s" "1 \<le> st_epoch s"
    "st_epoch s \<le> st_epoch ?t" "st_epoch ?t \<le> 1024" "1 \<le> st_epoch ?t" "r \<longrightarrow> st_epoch s < st_epoch ?t"
    by (rule stress_invD [OF assms(5,6)])
  note sealed = s(1) [unfolded stress_sealed_def] and now = stress_current [OF assms(5)]
  show ?thesis
  proof (cases "st_epoch s = st_epoch ?t")
    case True
    then show ?thesis using s(4,12) stress_inv_mono [OF assms(5)] by (auto simp: stress_rewrap_def)
  next
    case False
    then have less: "st_epoch s < st_epoch ?t" using s(9) by simp
    from stress_rewraps [OF assms s(1-3,6) this s(10,11)] obtain w' where w':
      "add_epoch_wrapper_with_verifier C (os (2 * i + 2)) (os (2 * i + 3)) ?V (kp_secret (stress_owner S (sx_owner_is_a st)))
        (kp_public (stress_owner S (sx_owner_is_a st))) (sx_object st) (ss_cap S) (ss_proof S) s ?t ?tp
        = (Inr (), put_epoch_wrapper (sx_object st) w')"
      "w_epoch w' = st_epoch ?t" "wrapper_fits default_limits w'"
      "opens_to C (kp_secret (stress_owner S (sx_owner_is_a st))) (put_epoch_wrapper (sx_object st) w') (ss_cap S) s m" .
    let ?o = "put_epoch_wrapper (sx_object st) w'"
    have header: "o_temporal_policy ?o = Current" "o_seal_epoch ?o = st_epoch s"
        "\<forall>e. open_request_for_object ?o e = request_for (ss_cap S) (cap_policy_hash (ss_cap S)) e"
      using sealed by (auto simp: put_epoch_wrapper_def open_request_for_object_def split: option.splits)
    have verified: "is_ok (verify_with_verifier C ?V ?o (ss_cap S) (ss_proof S) ?t ?tp) \<longleftrightarrow> \<not> r"
      using stress_verifies [OF assms(4-6) header(3,1) _ now(2,4) s(11)] header(2) s(9) by simp
    obtain ws' where ws': "o_wrappers ?o = w # ws'" "length ws' \<le> Suc (length ws)"
      using put_epoch_wrapper_head [OF s(2), of w'] s(3) w'(2) False by auto
    have "length (o_wrappers (sx_object st)) \<le> Suc i" using assms(5) by (simp add: stress_inv_def)
    then have len: "length (o_wrappers ?o) \<le> Suc (Suc i)" using ws' s(2) by simp
    have "object_fits default_limits ?o"
      using len assms(6) sealed w'(3) by (intro put_epoch_wrapper_fits) (simp_all add: default_limits_def strict_default_def)
    then have "stress_sealed C S m (st\<lparr>sx_object := ?o\<rparr>) s"
      using header ws'(1) s(3,5,7,8) w'(4) by (simp add: stress_sealed_def)
    moreover have "stress_authority C (ss_data S) (Suc i) r (st\<lparr>sx_object := ?o\<rparr>)"
      using stress_inv_mono [OF assms(5)] by (simp add: stress_inv_def stress_authority_def)
    ultimately have "stress_inv C S m (Suc i) r (st\<lparr>sx_object := ?o\<rparr>)"
      using len less unfolding stress_inv_def by auto
    then show ?thesis
      using verified w'(1) s(4,5) False by (cases r) (simp_all add: stress_rewrap_def fuzz_assert_def Let_def)
  qed
qed


lemma stress_object_id:
  "wf_str (cap_object_id (stress_capability C data))" "length (cap_object_id (stress_capability C data)) \<le> 1024"
  using hex16_ascii by (auto simp: stress_capability_def wf_str_def hex16_def ascii_def intro!: utf8_valid_ascii)

text \<open>What a seal at the present state gives: the same invariant, with that state as the state of the first wrapper.\<close>

lemma stress_seals:
  fixes st m
  defines "t \<equiv> sx_current_state st" and "tp \<equiv> sx_transparency_proof st"
  assumes "crypto_correct C" "crypto_sizes C" "stress_wf C S" "length m \<le> 128"
    and a: "stress_authority C (ss_data S) i False st" "1 \<le> st_epoch t"
    and sealed: "seal_with_verifier C r1 r2 (crypto_verify_state C (sx_verifier st)) (kp_public (stress_owner S b)) m (ss_cap S) (ss_proof S)
      tp t (request_for (ss_cap S) (cap_policy_hash (ss_cap S)) (st_epoch t)) Current = Inr object"
  shows "stress_sealed C S m (st\<lparr>sx_object := object, sx_owner_is_a := b\<rparr>) t" "length (o_wrappers object) = 1"
proof -
  let ?k = "stress_owner S b" and ?V = "crypto_verify_state C (sx_verifier st)"
  let ?req = "request_for (ss_cap S) (cap_policy_hash (ss_cap S)) (st_epoch t)"
  have now: "wf_state t" "wf_proof tp" "length (tp_sibling_hashes tp) \<le> 64" "state_for_epoch (sx_history st) (st_epoch t) = Some (t, tp)"
    "stress_published C (ss_data S) False t"
    using a(1) unfolding stress_authority_def t_def tp_def by blast+
  have keys: "keys_match C (kp_public ?k) (kp_secret ?k)" and cap: "ss_cap S = stress_capability C (ss_data S)"
    using assms(5) by (simp_all add: stress_wf_def)
  obtain v where v: "?V t tp = Inr v" "seal_verified C r1 r2 (kp_public ?k) m (ss_cap S) (ss_proof S) tp v ?req Current = Inr object"
    using sealed by (auto simp: seal_with_verifier_def bind_r_eq_Inr)
  have s: "as_state v = t" by (rule crypto_verifier.verified_as_state [OF v(1)])
  note o = seal_verified_ok [OF v(2)]
  have policy: "length (rq_policy_hash ?req) = 32"
    using crypto_sizesD(1) [OF assms(4)] by (simp add: request_for_def cap stress_capability_def fuzz_policy_def hash_policy_def sha_32_def)
  have "limits_admit strict_default (hybrid_key C (kp_public ?k)) (rq_object_id ?req) m tp"
    using stress_object_id(2) [of C "ss_data S"] assms(6) now(3) by (intro strict_admits) (simp_all add: request_for_def cap)
  then have fits: "object_fits default_limits object"
    using sealed_fits_iff [OF assms(4) v(2) _ now(2) policy] s now(1,3) stress_object_id(1) [of C "ss_data S"] assms(6)
    by (simp add: request_for_def cap default_limits_def)
  have "open_with_verifier C ?V (kp_secret ?k) object (ss_cap S) (ss_proof S) t = Inr m"
    by (rule crypto_verifier.sealed_current(2) [OF assms(3) keys sealed])
  then have opens: "opens_to C (kp_secret ?k) object (ss_cap S) t m" using crypto_verifier.open_iff by blast
  have "\<forall>e. open_request_for_object object e = request_for (ss_cap S) (cap_policy_hash (ss_cap S)) e"
    using o by (simp add: open_request_for_object_def request_for_def)
  then show "stress_sealed C S m (st\<lparr>sx_object := object, sx_owner_is_a := b\<rparr>) t"
    using o s now(4,5) a(2) opens fits by (auto simp: stress_sealed_def)
  show "length (o_wrappers object) = 1" using o by auto
qed

lemma stress_reseal_ok:
  assumes "crypto_correct C" "crypto_sizes C" "stress_wf C S" "stress_inv C S m i r st" "i < 12" "length m \<le> 128"
  shows "\<exists>st'. stress_reseal C os S st (i, x) = Inr st' \<and> stress_inv C S m (Suc i) r st'"
proof -
  let ?t = "sx_current_state st" and ?tp = "sx_transparency_proof st" and ?V = "crypto_verify_state C (sx_verifier st)"
  let ?k = "stress_owner S (sx_owner_is_a st)" and ?k' = "stress_owner S (\<not> sx_owner_is_a st)"
  let ?req = "request_for (ss_cap S) (cap_policy_hash (ss_cap S)) (st_epoch ?t)"
  obtain s w ws where s: "stress_sealed C S m st s" "o_wrappers (sx_object st) = w # ws" "w_epoch w = st_epoch s"
    "first_wrapper_epoch (sx_object st) = Some (st_epoch s)"
    "state_for_epoch (sx_history st) (st_epoch s) = Some (s, w_transparency_proof w)"
    "(s, w_transparency_proof w) \<in> set (sx_history st)" "stress_published C (ss_data S) False s" "1 \<le> st_epoch s"
    "st_epoch s \<le> st_epoch ?t" "st_epoch ?t \<le> 1024" "1 \<le> st_epoch ?t" "r \<longrightarrow> st_epoch s < st_epoch ?t"
    by (rule stress_invD [OF assms(4,5)])
  note now = stress_current [OF assms(4)]
  have "stress_inv C S m (Suc i) r (st\<lparr>sx_object := object, sx_owner_is_a := \<not> sx_owner_is_a st\<rparr>)"
    if res: "open_and_reseal_with_verifier C r1 r2 ?V (kp_secret ?k) (kp_public ?k') (sx_object st) (ss_cap S) (ss_proof S) s
      (ss_proof S) ?tp ?t ?req Current = Inr object" for r1 r2 object
  proof -
    obtain m' where m': "open_with_verifier C ?V (kp_secret ?k) (sx_object st) (ss_cap S) (ss_proof S) s = Inr m'"
        "seal_with_verifier C r1 r2 ?V (kp_public ?k') m' (ss_cap S) (ss_proof S) ?tp ?t ?req Current = Inr object"
      using res unfolding crypto_verifier.reseal_iff by blast
    have "opens_to C (kp_secret ?k) (sx_object st) (ss_cap S) s m" using s(1) by (simp add: stress_sealed_def)
    moreover have "opens_to C (kp_secret ?k) (sx_object st) (ss_cap S) s m'" using m'(1) crypto_verifier.open_iff by blast
    ultimately have "m' = m" by (auto simp: opens_to_def)
    note sealed = m'(2) [unfolded this]
    have "is_ok (validate_capability C (ss_cap S) (ss_proof S) ?t ?req)"
      using sealed by (auto simp: is_ok_iff seal_with_verifier_def bind_r_eq_Inr dest!: seal_verified_ok crypto_verifier.verified_as_state)
    then have r: "\<not> r" using stress_validates [OF assms(3) now(4) s(11,10)] by simp
    have a: "stress_authority C (ss_data S) (Suc i) False st" using stress_inv_mono [OF assms(4)] r by (simp add: stress_inv_def)
    note new = stress_seals [OF assms(1-3,6) a s(11) sealed]
    have "stress_authority C (ss_data S) (Suc i) False (st\<lparr>sx_object := object, sx_owner_is_a := \<not> sx_owner_is_a st\<rparr>)"
      using a by (simp add: stress_authority_def)
    with new r show ?thesis by (auto simp: stress_inv_def)
  qed
  then show ?thesis
    using s(4,5) stress_inv_mono [OF assms(4)] by (auto simp: stress_reseal_def Let_def split: sum.splits)
qed

lemma stress_compromise_ok:
  assumes "stress_inv C S m i r st"
  shows "\<exists>st'. stress_compromise C S st (i, x) = Inr st' \<and> stress_inv C S m (Suc i) r st'"
proof -
  have "saturating_sub a b \<le> a" for a b :: u64 by (simp add: saturating_sub_def word_sub_le)
  then show ?thesis
    using stress_inv_mono [OF assms]
    by (simp add: stress_compromise_def crypto_verifier.compromise_filters enforce_compromise_notices_ok fuzz_assert_def
        not_less Let_def del: enforce_compromise_notices.simps)
qed

lemma stress_transport_ok:
  assumes "stress_inv C S m i r st"
  shows "\<exists>st'. stress_transport st (i, x) = Inr st' \<and> stress_inv C S m (Suc i) r st'"
proof -
  have fits: "object_fits default_limits (sx_object st)" using assms by (auto simp: stress_inv_def stress_sealed_def)
  then obtain bs where bs: "encode_kyriotes_csk2_object (sx_object st) = Some bs" using encode_object_fits by blast
  then have "decode_kyriotes_csk2_object bs = Inr (sx_object st)"
    using fits by (simp add: decode_kyriotes_csk2_object_def decode_object_iff)
  then show ?thesis
    using stress_inv_mono [OF assms] bs
    by (simp add: stress_transport_def wire_round_trip_def fuzz_encode_def expect_def ok_or_def map_err_def fuzz_assert_def Let_def)
qed

subsection \<open>The loop\<close>

definition revoked_then_rewrapped :: "bool \<Rightarrow> byte list \<Rightarrow> bool" where
  "revoked_then_rewrapped revoked xs \<longleftrightarrow>
     (\<exists>j < length xs. xs ! j mod 6 = 1 \<and> (revoked \<or> (\<exists>i < j. xs ! i mod 6 = 4)))"

lemma revoked_then_rewrapped_iff:
  "(\<exists>i j. i < j \<and> j < length xs \<and> xs ! i mod 6 = 4 \<and> xs ! j mod 6 = 1) \<longleftrightarrow> revoked_then_rewrapped False xs"
  by (auto simp: revoked_then_rewrapped_def)

lemma revoked_then_rewrapped_Nil: "\<not> revoked_then_rewrapped r []"
  by (simp add: revoked_then_rewrapped_def)

lemma revoked_then_rewrapped_Cons:
  "revoked_then_rewrapped r (x # xs) \<longleftrightarrow> r \<and> x mod 6 = 1 \<or> revoked_then_rewrapped (r \<or> x mod 6 = 4) xs"
  by (auto simp: revoked_then_rewrapped_def Ex_less_Suc2)

lemma mod6_cases:
  fixes x :: byte
  obtains "x mod 6 = 0" | "x mod 6 = 1" | "x mod 6 = 2" | "x mod 6 = 3" | "x mod 6 = 4" | "x mod 6 = 5"
proof -
  have "unat (x mod 6) < 6" by (simp add: unat_mod)
  then have "x mod 6 \<in> {0, 1, 2, 3, 4, 5}" by (simp add: word_unat_eq_iff) linarith
  then show thesis by (elim insertE emptyE) (erule that)+
qed

definition stress_crypto :: "crypto \<Rightarrow> bool" where
  "stress_crypto C \<longleftrightarrow> crypto_correct C \<and> crypto_sizes C \<and> aead_accepts C \<and> sig_correct C"

lemma stress_step_ok:
  assumes "stress_crypto C" "stress_wf C S" "stress_inv C S m i r st" "i < 12" "length m \<le> 128"
  shows "if r \<and> x mod 6 = 1 then stress_step C os S st (i, x) = Inl (Panicked ''verify_with_verifier(..).is_ok()'')
    else \<exists>st'. stress_step C os S st (i, x) = Inr st' \<and> stress_inv C S m (Suc i) (r \<or> x mod 6 = 4) st'"
proof -
  have C: "crypto_correct C" "crypto_sizes C" "aead_accepts C" "sig_correct C" "sha_32 C"
    using assms(1) crypto_sizesD(1) by (auto simp: stress_crypto_def)
  show ?thesis
  proof (cases x rule: mod6_cases)
    case 1
    then show ?thesis using stress_rotate_ok [OF C(4,5) assms(3,4)] by (simp add: stress_step_def)
  next
    case 2
    then show ?thesis using stress_rewrap_ok [OF C(1-3) assms(2-4), of os x] by (cases r) (simp_all add: stress_step_def)
  next
    case 3
    then show ?thesis using stress_reseal_ok [OF C(1,2) assms(2-5)] by (simp add: stress_step_def)
  next
    case 4
    then show ?thesis using stress_compromise_ok [OF assms(3)] by (simp add: stress_step_def)
  next
    case 5
    then show ?thesis using stress_revoke_ok [OF C(4,5) assms(2-4)] by (simp add: stress_step_def)
  next
    case 6
    then show ?thesis using stress_transport_ok [OF assms(3)] by (simp add: stress_step_def)
  qed
qed

lemma stress_loop:
  assumes "stress_crypto C" "stress_wf C S" "stress_inv C S m i r st" "i + length xs \<le> 12" "length m \<le> 128"
  shows "if revoked_then_rewrapped r xs
    then fold_r (stress_step C os S) st (enumerate i xs) = Inl (Panicked ''verify_with_verifier(..).is_ok()'')
    else \<exists>st'. fold_r (stress_step C os S) st (enumerate i xs) = Inr st'"
  using assms(3,4)
proof (induction xs arbitrary: i r st)
  case Nil
  then show ?case by (simp add: revoked_then_rewrapped_Nil)
next
  case (Cons x xs)
  then have "i < 12" by simp
  note step = stress_step_ok [OF assms(1,2) Cons.prems(1) this assms(5), of x os]
  show ?case
  proof (cases "r \<and> x mod 6 = 1")
    case True
    then show ?thesis using step by (simp add: revoked_then_rewrapped_Cons)
  next
    case False
    then obtain st' where "stress_step C os S st (i, x) = Inr st'" "stress_inv C S m (Suc i) (r \<or> x mod 6 = 4) st'"
      using step by auto
    with False Cons.IH [OF this(2)] Cons.prems(2) show ?thesis by (auto simp: revoked_then_rewrapped_Cons)
  qed
qed

subsection \<open>The set-up\<close>

lemma stress_initial_fields:
  "st_authority_root (stress_initial_state C data) = merkle_root C [capability_leaf_hash C (stress_capability C data)]"
  "st_transparency_root (stress_initial_state C data) = zeros 32" "st_epoch (stress_initial_state C data) = 1"
  "stress_published C data False (stress_initial_state C data)"
  by (simp_all add: stress_initial_state_def build_state_def singleton_tree tree_authority_root_def tree_revocation_root_def
      tree_revocation_count_def merkle_root_def stress_published_def publishes_def stress_tree_def)

lemma stress_initial_wf:
  assumes "sha_32 C" "\<And>sk. length (ed_verifying_key C sk) = 32"
  shows "wf_state (stress_initial_state C data)"
proof -
  have n: "unat (first_or_zero data) < 256" using unsigned_less [of "first_or_zero data"] by simp
  then have "length (decimal (unat (first_or_zero data))) \<le> 256" using decimal_bytes [of "unat (first_or_zero data)"] by linarith
  moreover have "utf8_valid (ascii ''cross-system-auth-'' @ decimal (unat (first_or_zero data)))"
    using decimal_bytes by (intro utf8_valid_ascii) (auto simp: ascii_def)
  moreover have "tree_typed (snd (add_capability C tree_new (stress_capability C data)))"
    using assms(1) by (intro tree_typed_add) (simp_all add: tree_typed_def tree_new_def)
  ultimately show ?thesis
    using tree_roots_32 [OF _ assms(1)] assms(2)
    by (simp add: wf_state_def wf_str_def stress_initial_state_def build_state_def fuzz_id_def root_verifying_key_bytes_def ascii_def)
qed

lemma stress_issue:
  fixes C data
  defines "cap \<equiv> stress_capability C data" and "kp \<equiv> stress_epoch1_kp data" and "s \<equiv> stress_initial_state C data"
  defines "cert \<equiv> issue_epoch_cert C (stress_root_kp data) (epoch_verifying_key_bytes C kp) 1 STRESS_VALIDITY_WINDOW"
  obtains iss c log where
    "issue_capability_and_commit C (in_memory_ops C) log_new (snd (add_capability C tree_new cap)) cap kp cert s
      = (Inr (iss, c), log, stress_tree C data False)"
    "issue_capability C (snd (add_capability C tree_new cap)) cap kp cert = (Inr iss, stress_tree C data False)"
    "commit_state C log_new s = (Inr c, log)"
proof -
  let ?t = "stress_tree C data False"
  have window: "cap_epoch_start cap = 1" "cap_epoch_end cap = 1024" "ec_epoch cert = 1"
    by (simp_all add: cap_def stress_capability_def cert_def issue_epoch_cert_def)
  have "\<exists>iss. fst (issue_capability C (snd (add_capability C tree_new cap)) cap kp cert) = Inr iss"
    by (simp add: issue_capability_def window Let_def)
  then obtain iss where i: "issue_capability C (snd (add_capability C tree_new cap)) cap kp cert = (Inr iss, ?t)"
    using issue_capability_ok(1) singleton_tree unfolding stress_tree_def cap_def [symmetric] if_False by (metis prod.collapse)
  have "log_view log_new k = None" for k by (simp add: log_view_def log_new_def)
  then obtain c log where c: "commit_state C log_new s = (Inr c, log)" using commit_fresh by metis
  have "s\<lparr>st_authority_root := tree_authority_root C ?t, st_transparency_root := zeros 32\<rparr> = s"
    by (simp add: s_def stress_initial_fields tree_authority_root_def stress_tree_def)
  then have "issue_capability_and_commit C (in_memory_ops C) log_new (snd (add_capability C tree_new cap)) cap kp cert s
      = (Inr (iss, c), log, ?t)"
    using c i by (simp add: issue_capability_and_commit_def s_def stress_initial_state_def build_state_def in_memory_ops_def cap_def Let_def)
  with that i c show thesis by blast
qed

lemma stress_proof:
  fixes C data
  defines "cap \<equiv> stress_capability C data"
  assumes "sig_correct C" "keys_match C (kp_public ka) (kp_secret ka)" "keys_match C (kp_public kb) (kp_secret kb)"
    and "issue_capability C (snd (add_capability C tree_new cap)) cap kp
      (issue_epoch_cert C (stress_root_kp data) (epoch_verifying_key_bytes C kp) 1 STRESS_VALIDITY_WINDOW) = (Inr iss, stress_tree C data False)"
    and "st_authority_id s0 = st_authority_id (stress_initial_state C data)"
  obtains pf where "build_capability_proof C (stress_tree C data False) cap iss s0 = Some pf"
    "stress_wf C \<lparr>ss_data = data, ss_cap = cap, ss_proof = pf, ss_recipient_a = ka, ss_recipient_b = kb\<rparr>"
proof -
  let ?t = "\<lparr>ct_leaf_hashes = [capability_leaf_hash C cap], ct_revoked_stamps = []\<rparr>"
  have t: "stress_tree C data False = ?t" by (simp add: stress_tree_def cap_def)
  obtain incl where "inclusion_proof C ?t cap = Some incl" using inclusion_absent [of C ?t cap] by auto
  moreover obtain nr where nr: "tree_non_revocation_witness C ?t (capability_stamp C cap s0) = Inr nr"
    using witness_refused_iff [of ?t C "capability_stamp C cap s0"] by (auto simp: tree_wf_def is_revoked_def is_ok_iff)
  ultimately obtain pf where pf: "build_capability_proof C ?t cap iss s0 = Some pf" "cp_non_revocation pf = nr"
    by (auto simp: build_capability_proof_def)
  have "nw_total_revoked nr = 0" using nr by (auto simp: tree_non_revocation_witness_def Let_def split: if_splits)
  moreover have "validate_capability C cap pf s (request_for cap (cap_policy_hash cap) (st_epoch s)) = Inr ()"
    if s: "stress_published C data False s" "1 \<le> st_epoch s" "st_epoch s \<le> 1024" for s
  proof (rule built_proof_validates [OF assms(2) assms(5) [unfolded t]])
    have "capability_stamp C cap s = capability_stamp C cap s0"
      using s(1) assms(6) by (intro capability_stamp_cong) (simp add: stress_published_def)
    then show "build_capability_proof C ?t cap iss s = Some pf" using pf(1) by (simp add: build_capability_proof_def)
    show "publishes C s ?t" "st_root_pk s = root_verifying_key_bytes C (stress_root_kp data)"
      using s(1) t by (simp_all add: stress_published_def)
    show "grants cap (request_for cap (cap_policy_hash cap) (st_epoch s))" "parent_stamp_ok cap"
      using s(2,3) by (simp_all add: grants_def request_for_def parent_stamp_ok_def)
        (auto simp: cap_def stress_capability_def contains_all_subset right_set_union)
  qed (simp_all add: STRESS_VALIDITY_WINDOW_def request_for_def)
  ultimately have "stress_wf C \<lparr>ss_data = data, ss_cap = cap, ss_proof = pf, ss_recipient_a = ka, ss_recipient_b = kb\<rparr>"
    using assms(3,4) pf(2) by (simp add: stress_wf_def stress_owner_def cap_def)
  with that pf(1) t show thesis by simp
qed

lemma stress_starts:
  fixes C data c
  defines "s \<equiv> tc_state c"
  assumes "stress_crypto C" "\<And>sk. length (ed_verifying_key C sk) = 32" "commit_state C log_new (stress_initial_state C data) = (Inr c, log)"
    and "length h = 32"
  shows "stress_authority C data 0 False
    \<lparr>sx_tree = stress_tree C data False, sx_log = store_chain_hash log (st_authority_id s) (st_epoch s) h, sx_chain_hash = h,
     sx_verifier = add_evidence (with_root_pk (root_verifying_key_bytes C (stress_root_kp data))) (st_authority_id s) (st_epoch s)
       (epoch_verifying_key_bytes C kp) (sign_epoch_root C kp (st_authority_root s) (st_revocation_root s)
         (st_transparency_root s) (st_epoch s) (st_prev_epoch_hash s))
       (issue_epoch_cert C (stress_root_kp data) (epoch_verifying_key_bytes C kp) (st_epoch s) STRESS_VALIDITY_WINDOW),
     sx_object = object, sx_owner_is_a = a, sx_history = [(s, tc_proof c)], sx_current_state = s,
     sx_transparency_proof = tc_proof c, sx_rng = rng\<rparr>"
proof -
  let ?s = "stress_initial_state C data"
  have C: "sig_correct C" "sha_32 C" using assms(2) crypto_sizesD(1) by (auto simp: stress_crypto_def)
  note first = commit_first [OF assms(4)]
  have small: "log_small log" by (simp add: log_small_def first(1))
  have new: "log_typed log_new" by (simp add: log_typed_def log_new_def leaf_hashes_def)
  note typed = commit_typed [OF assms(4) new C(2) small]
  have "wf_state (?s\<lparr>st_transparency_root := zeros 32\<rparr>)" using stress_initial_wf [OF C(2) assms(3)] by (simp add: wf_state_def)
  then have wf: "wf_state s" using commit_wf [OF assms(4) new C(2) small] by (simp add: s_def)
  have tp: "verify_transparency_proof C s (tc_proof c) = Inr ()" using committed_proof_verifies [OF assms(4) small] by (simp add: s_def)
  have e: "st_epoch s = 1" and pub: "stress_published C data False s"
    using stress_initial_fields(3,4) [of C data] by (simp_all add: s_def first(2) stress_published_def publishes_def)
  have "is_ok (crypto_verify_state C (add_evidence (with_root_pk (root_verifying_key_bytes C (stress_root_kp data))) (st_authority_id s)
      (st_epoch s) (epoch_verifying_key_bytes C kp) (sign_epoch_root C kp (st_authority_root s) (st_revocation_root s)
         (st_transparency_root s) (st_epoch s) (st_prev_epoch_hash s))
      (issue_epoch_cert C (stress_root_kp data) (epoch_verifying_key_bytes C kp) (st_epoch s) STRESS_VALIDITY_WINDOW)) s (tc_proof c))"
    by (rule evidence_accepted [OF C(1) _ tp]) (simp_all add: with_root_pk_def STRESS_VALIDITY_WINDOW_def e)
  moreover have empty: "log_view log_new k = None" for k by (simp add: log_view_def log_new_def)
  have "log_view log (st_authority_id s, e') = None" if "1 < e'" for e'
    using log_view_commit [OF assms(4)] that by (auto simp: stress_initial_fields empty)
  ultimately show ?thesis
    using wf pub assms(5) typed first(1)
    by (simp add: stress_authority_def e log_view_store store_chain_hash_keeps log_typed_def state_for_epoch_def add_evidence_def with_root_pk_def)
qed

text \<open>No branch of the set-up returns early: the run is that of the loop, from a state that satisfies the invariant.\<close>

lemma stress_setup:
  assumes "crypto_correct C" "crypto_sizes C" "aead_accepts C" "sig_correct C" "\<And>sk. length (ed_verifying_key C sk) = 32"
  obtains S m st where "stress_wf C S" "stress_inv C S m 0 False st" "length m \<le> 128"
    "fuzz_cross_system_lifecycle_stress C std_rng os data =
      outcome (bind_r (fold_r (stress_step C os S) st (enumerate 0 (stress_steps (bounded data)))) (\<lambda>_. Inr ()))"
proof -
  let ?d = "bounded data"
  let ?cap = "stress_capability C ?d" and ?kp = "stress_epoch1_kp ?d" and ?m = "stress_message ?d"
  let ?cert = "issue_epoch_cert C (stress_root_kp ?d) (epoch_verifying_key_bytes C ?kp) 1 STRESS_VALIDITY_WINDOW"
  have crypto: "stress_crypto C" "sha_32 C" using assms(1-4) crypto_sizesD(1) by (simp_all add: stress_crypto_def)
  obtain iss c log where i:
    "issue_capability_and_commit C (in_memory_ops C) log_new (snd (add_capability C tree_new ?cap)) ?cap ?kp ?cert
      (stress_initial_state C ?d) = (Inr (iss, c), log, stress_tree C ?d False)"
    "issue_capability C (snd (add_capability C tree_new ?cap)) ?cap ?kp ?cert = (Inr iss, stress_tree C ?d False)"
    "commit_state C log_new (stress_initial_state C ?d) = (Inr c, log)"
    by (rule stress_issue)
  let ?s = "tc_state c"
  have s: "st_epoch ?s = 1" "st_authority_id ?s = st_authority_id (stress_initial_state C ?d)"
    by (simp_all add: commit_first(2) [OF i(3)] stress_initial_fields)
  obtain a0 rng1 where a0: "recipient_generate C (std_rng (deterministic_seed32 ?d 0x31)) = (a0, rng1)" by fastforce
  obtain b0 rng2 where b0: "recipient_generate C rng1 = (b0, rng2)" by fastforce
  let ?a = "stress_recipient (byte_at ?d 2) a0" and ?b = "stress_recipient (byte_at ?d 3) b0"
  have keys: "keys_match C (kp_public ?a) (kp_secret ?a)" "keys_match C (kp_public ?b) (kp_secret ?b)"
    using generated_keys_match [of C "std_rng (deterministic_seed32 ?d 0x31)"] generated_keys_match [of C rng1] a0 b0 classical_only_match
    by (simp_all add: stress_recipient_def)
  obtain pf where pf: "build_capability_proof C (stress_tree C ?d False) ?cap iss ?s = Some pf"
    "stress_wf C \<lparr>ss_data = ?d, ss_cap = ?cap, ss_proof = pf, ss_recipient_a = ?a, ss_recipient_b = ?b\<rparr>" (is "stress_wf C ?S")
    by (rule stress_proof [OF assms(4) keys i(2) s(2)])
  let ?sig = "sign_epoch_root C ?kp (st_authority_root ?s) (st_revocation_root ?s) (st_transparency_root ?s) (st_epoch ?s)
    (st_prev_epoch_hash ?s)"
  let ?h = "transparency_log_entry_hash C (st_prev_epoch_hash ?s) (st_authority_root ?s) (st_revocation_root ?s) (st_epoch ?s)
    (epoch_verifying_key_bytes C ?kp) ?sig"
  have "length ?h = 32" using crypto(2) by (simp add: transparency_log_entry_hash_def sha_32_def)
  note start = stress_starts [OF crypto(1) assms(5) i(3) this, where kp = ?kp]
  let ?v = "add_evidence (with_root_pk (root_verifying_key_bytes C (stress_root_kp ?d))) (st_authority_id ?s) (st_epoch ?s)
    (epoch_verifying_key_bytes C ?kp) ?sig ?cert"
  let ?V = "crypto_verify_state C ?v" and ?req = "request_for ?cap (cap_policy_hash ?cap) (st_epoch ?s)"
  define st where "st object = \<lparr>sx_tree = stress_tree C ?d False, sx_log = store_chain_hash log (st_authority_id ?s) (st_epoch ?s) ?h,
    sx_chain_hash = ?h, sx_verifier = ?v, sx_object = object, sx_owner_is_a = True, sx_history = [(?s, tc_proof c)],
    sx_current_state = ?s, sx_transparency_proof = tc_proof c, sx_rng = rng2\<rparr>" for object
  have start: "stress_authority C ?d 0 False (st object)" for object using start by (simp add: st_def s(1))
  have "is_ok (?V ?s (tc_proof c))" and pub: "stress_published C ?d False ?s"
    using start by (simp_all add: stress_authority_def st_def)
  then obtain v where v: "?V ?s (tc_proof c) = Inr v" "as_state v = ?s" using crypto_verifier.verified_as_state by (auto simp: is_ok_iff)
  have m: "length ?m \<le> 128" by (simp add: stress_message_def)
  have "validate_capability C ?cap pf ?s ?req = Inr ()"
    using stress_validates [OF pf(2), of False ?s] pub s(1) by (simp add: is_ok_iff)
  then have "\<exists>object. seal_with_verifier C (os 0) (os 1) ?V (kp_public ?a) ?m ?cap pf (tc_proof c) ?s ?req Current = Inr object"
    using seal_succeeds [OF _ assms(3), of ?cap pf v ?req ?m] v m by (simp add: seal_with_verifier_def)
  then obtain object where o: "seal_with_verifier C (os 0) (os 1) ?V (kp_public ?a) ?m ?cap pf (tc_proof c) ?s ?req Current = Inr object" ..
  note ok = crypto_verifier.sealed_current [OF assms(1) keys(1) o]
  have inv: "stress_inv C ?S ?m 0 False (st object)"
    using stress_seals [OF assms(1,2) pf(2) m, where st = "st object" and b = True and i = 0 and object = object] start o s(1)
    by (auto simp: st_def stress_inv_def stress_owner_def)
  have run: "fuzz_cross_system_lifecycle_stress C std_rng os data =
      outcome (bind_r (fold_r (stress_step C os ?S) (st object) (enumerate 0 (stress_steps ?d))) (\<lambda>_. Inr ()))"
    unfolding fuzz_cross_system_lifecycle_stress_def Let_def
    using i(1) a0 b0 pf(1) s(1) o ok by (simp add: or_return_def ok_or_def expect_def fuzz_assert_def map_err_def st_def)
  with that pf(2) inv m show thesis by blast
qed

lemma stress_target_outcome:
  fixes C data
  defines "steps \<equiv> stress_steps (bounded data)"
  assumes "crypto_correct C" "crypto_sizes C" "aead_accepts C" "sig_correct C" "\<And>sk. length (ed_verifying_key C sk) = 32"
  shows "fuzz_cross_system_lifecycle_stress C std_rng os data =
    (if \<exists>i j. i < j \<and> j < length steps \<and> steps ! i mod 6 = 4 \<and> steps ! j mod 6 = 1
     then Panicked ''verify_with_verifier(..).is_ok()'' else Passed)"
proof -
  obtain S m st where s: "stress_wf C S" "stress_inv C S m 0 False st" "length m \<le> 128"
    "fuzz_cross_system_lifecycle_stress C std_rng os data =
      outcome (bind_r (fold_r (stress_step C os S) st (enumerate 0 steps)) (\<lambda>_. Inr ()))"
    unfolding steps_def by (rule stress_setup [OF assms(2-6)])
  have "stress_crypto C" using assms(2-5) by (simp add: stress_crypto_def)
  moreover have "length steps \<le> 12" by (simp add: steps_def stress_steps_def MAX_STATEFUL_STRESS_STEPS_def)
  ultimately have "if revoked_then_rewrapped False steps
      then fold_r (stress_step C os S) st (enumerate 0 steps) = Inl (Panicked ''verify_with_verifier(..).is_ok()'')
      else \<exists>st'. fold_r (stress_step C os S) st (enumerate 0 steps) = Inr st'"
    using stress_loop [OF _ s(1,2) _ s(3)] by simp
  then show ?thesis using s(4) unfolding revoked_then_rewrapped_iff by (auto simp: outcome_def split: if_splits)
qed

end
