(* ===== verification/Csk2_Kani_Witness.thy ===== *)
theory Csk2_Kani_Witness
  imports Csk2_Capability_Tree
begin

text \<open>
  The Kani harnesses about capability witnesses: \<open>kani_capability_tree_witness_soundness.rs\<close>, which works on a
  model of its own with 64-bit hashes, and \<open>kani_capability_tree_equivalence.rs\<close>,
  \<open>kani_capability_tree_production_refinement.rs\<close> and \<open>kani_transparency_merkle_soundness.rs\<close>, which call the
  library. A harness is a truth value, a function of what it draws with \<open>kani::any()\<close>; \<open>kani::assume\<close> is an
  implication. All harnesses hold. The model of the first file is too weak for its purpose, though: its
  two-level root does not depend on the leaf.
\<close>

unbundle bit_operations_syntax

subsection \<open>The model of the witness harnesses\<close>

record capability_claim =
  cl_subject :: byte
  cl_rights :: byte
  cl_policy_hash :: byte

record model_capability =
  mc_id :: byte
  mc_subject :: byte
  mc_rights :: byte
  mc_policy_hash :: byte
  mc_revoked :: bool

record model_merkle_path =
  mp_leaf_hash :: u64
  mp_siblings :: "u64 \<times> u64"
  mp_len :: byte

record capability_witness =
  wt_capability :: model_capability
  wt_path :: model_merkle_path

definition mix :: "u64 \<Rightarrow> u64 \<Rightarrow> u64" where
  "mix a b = push_bit 32 a XOR b"

definition model_leaf_hash :: "model_capability \<Rightarrow> u64" where
  "model_leaf_hash c = push_bit 32 (ucast (mc_id c)) XOR push_bit 24 (ucast (mc_subject c)) XOR
     push_bit 16 (ucast (mc_rights c)) XOR push_bit 8 (ucast (mc_policy_hash c)) XOR (if mc_revoked c then 1 else 0)"

definition revocation_root_for :: "model_capability \<Rightarrow> u64" where
  "revocation_root_for c = mix (ucast (mc_id c)) (if mc_revoked c then 1 else 0)"

definition compute_root :: "model_merkle_path \<Rightarrow> u64" where
  "compute_root p = (if mp_len p = 0 then 0
     else if mp_len p = 1 then mix (mp_leaf_hash p) (fst (mp_siblings p))
     else mix (mix (mp_leaf_hash p) (fst (mp_siblings p))) (snd (mp_siblings p)))"

definition accepts_capability_witness :: "u64 \<Rightarrow> u64 \<Rightarrow> capability_claim \<Rightarrow> capability_witness \<Rightarrow> bool" where
  "accepts_capability_witness authority_root revocation_root claim w \<longleftrightarrow>
     mp_len (wt_path w) > 0 \<and> mp_len (wt_path w) \<le> 2 \<and>
     mc_subject (wt_capability w) = cl_subject claim \<and> mc_rights (wt_capability w) = cl_rights claim \<and>
     mc_policy_hash (wt_capability w) = cl_policy_hash claim \<and> \<not> mc_revoked (wt_capability w) \<and>
     mp_leaf_hash (wt_path w) = model_leaf_hash (wt_capability w) \<and>
     compute_root (wt_path w) = authority_root \<and> revocation_root_for (wt_capability w) = revocation_root"

definition valid_claim :: capability_claim where
  "valid_claim = \<lparr>cl_subject = 7, cl_rights = 3, cl_policy_hash = 11\<rparr>"

definition valid_capability :: model_capability where
  "valid_capability = \<lparr>mc_id = 19, mc_subject = 7, mc_rights = 3, mc_policy_hash = 11, mc_revoked = False\<rparr>"

definition valid_witness :: capability_witness where
  "valid_witness = \<lparr>wt_capability = valid_capability,
     wt_path = \<lparr>mp_leaf_hash = model_leaf_hash valid_capability, mp_siblings = (23, 29), mp_len = 2\<rparr>\<rparr>"

text \<open>The harnesses.\<close>

definition capability_tree_witness_soundness_acceptance_implies_claim_binding ::
    "capability_claim \<Rightarrow> model_capability \<Rightarrow> model_merkle_path \<Rightarrow> u64 \<Rightarrow> u64 \<Rightarrow> bool" where
  "capability_tree_witness_soundness_acceptance_implies_claim_binding claim c path authority_root revocation_root \<longleftrightarrow>
     (let w = \<lparr>wt_capability = c, wt_path = path\<rparr> in
      mp_len path \<le> 2 \<longrightarrow> accepts_capability_witness authority_root revocation_root claim w \<longrightarrow>
      mp_len (wt_path w) > 0 \<and> mc_subject (wt_capability w) = cl_subject claim \<and>
      mc_rights (wt_capability w) = cl_rights claim \<and> mc_policy_hash (wt_capability w) = cl_policy_hash claim \<and>
      \<not> mc_revoked (wt_capability w) \<and> mp_leaf_hash (wt_path w) = model_leaf_hash (wt_capability w) \<and>
      compute_root (wt_path w) = authority_root \<and> revocation_root_for (wt_capability w) = revocation_root)"

definition accepts_own_roots :: "capability_claim \<Rightarrow> capability_witness \<Rightarrow> bool" where
  "accepts_own_roots claim w \<longleftrightarrow>
     accepts_capability_witness (compute_root (wt_path w)) (revocation_root_for (wt_capability w)) claim w"

definition capability_tree_valid_non_revoked_witness_accepts :: bool where
  "capability_tree_valid_non_revoked_witness_accepts \<longleftrightarrow> accepts_own_roots valid_claim valid_witness"

definition capability_tree_empty_witness_rejects :: bool where
  "capability_tree_empty_witness_rejects \<longleftrightarrow>
     (let w = valid_witness\<lparr>wt_path := (wt_path valid_witness)\<lparr>mp_len := 0\<rparr>\<rparr> in
      \<not> accepts_capability_witness (compute_root (wt_path valid_witness)) (revocation_root_for (wt_capability w)) valid_claim w)"

definition capability_tree_wrong_subject_rejects :: bool where
  "capability_tree_wrong_subject_rejects \<longleftrightarrow>
     \<not> accepts_own_roots (valid_claim\<lparr>cl_subject := cl_subject valid_claim + 1\<rparr>) valid_witness"

definition capability_tree_wrong_rights_rejects :: bool where
  "capability_tree_wrong_rights_rejects \<longleftrightarrow>
     \<not> accepts_own_roots (valid_claim\<lparr>cl_rights := cl_rights valid_claim + 1\<rparr>) valid_witness"

definition capability_tree_wrong_policy_hash_rejects :: bool where
  "capability_tree_wrong_policy_hash_rejects \<longleftrightarrow>
     \<not> accepts_own_roots (valid_claim\<lparr>cl_policy_hash := cl_policy_hash valid_claim + 1\<rparr>) valid_witness"

definition capability_tree_wrong_authority_root_rejects :: bool where
  "capability_tree_wrong_authority_root_rejects \<longleftrightarrow>
     \<not> accepts_capability_witness (compute_root (wt_path valid_witness) + 1)
       (revocation_root_for (wt_capability valid_witness)) valid_claim valid_witness"

definition revoked_witness :: capability_witness where
  "revoked_witness = (let c = (wt_capability valid_witness)\<lparr>mc_revoked := True\<rparr> in
     \<lparr>wt_capability = c, wt_path = (wt_path valid_witness)\<lparr>mp_leaf_hash := model_leaf_hash c\<rparr>\<rparr>)"

definition capability_tree_revoked_capability_rejects :: bool where
  "capability_tree_revoked_capability_rejects \<longleftrightarrow> \<not> accepts_own_roots valid_claim revoked_witness"

definition capability_tree_rejection_is_deterministic_for_equal_invalid_inputs :: bool where
  "capability_tree_rejection_is_deterministic_for_equal_invalid_inputs \<longleftrightarrow>
     (let w = valid_witness\<lparr>wt_path := (wt_path valid_witness)\<lparr>mp_leaf_hash := mp_leaf_hash (wt_path valid_witness) + 1\<rparr>\<rparr>;
          authority_root = compute_root (wt_path valid_witness);
          revocation_root = revocation_root_for (wt_capability w);
          first = accepts_capability_witness authority_root revocation_root valid_claim w;
          second = accepts_capability_witness authority_root revocation_root valid_claim w
      in \<not> first \<and> first = second)"

lemmas witness_defs = accepts_own_roots_def accepts_capability_witness_def valid_witness_def valid_claim_def
  valid_capability_def revoked_witness_def Let_def

lemma witness_harnesses_hold:
  "capability_tree_witness_soundness_acceptance_implies_claim_binding claim c path ar rr"
  "capability_tree_valid_non_revoked_witness_accepts" "capability_tree_empty_witness_rejects"
  "capability_tree_wrong_subject_rejects" "capability_tree_wrong_rights_rejects"
  "capability_tree_wrong_policy_hash_rejects" "capability_tree_wrong_authority_root_rejects"
  "capability_tree_revoked_capability_rejects" "capability_tree_rejection_is_deterministic_for_equal_invalid_inputs"
  unfolding capability_tree_witness_soundness_acceptance_implies_claim_binding_def
    capability_tree_valid_non_revoked_witness_accepts_def capability_tree_empty_witness_rejects_def
    capability_tree_wrong_subject_rejects_def capability_tree_wrong_rights_rejects_def
    capability_tree_wrong_policy_hash_rejects_def capability_tree_wrong_authority_root_rejects_def
    capability_tree_revoked_capability_rejects_def capability_tree_rejection_is_deterministic_for_equal_invalid_inputs_def
  by (simp_all add: witness_defs)

text \<open>
  Two levels of \<open>mix\<close> shift the leaf out of the word: the root of a two-level path is a function of the
  siblings. So the accepted root says nothing of the capability, unlike in the library.
\<close>

lemma two_level_root: "mix (mix l s) t = mix s t"
  by (rule bit_word_eqI) (auto simp: mix_def bit_simps)

lemma model_root_ignores_leaf:
  assumes "accepts_capability_witness ar rr claim w" "mp_len (wt_path w) = 2"
    and "mc_subject c = cl_subject claim" "mc_rights c = cl_rights claim" "mc_policy_hash c = cl_policy_hash claim"
      "\<not> mc_revoked c"
  shows "accepts_capability_witness ar (revocation_root_for c) claim
    \<lparr>wt_capability = c, wt_path = (wt_path w)\<lparr>mp_leaf_hash := model_leaf_hash c\<rparr>\<rparr>"
  using assms by (auto simp: accepts_capability_witness_def compute_root_def two_level_root)

subsection \<open>Harnesses on the library\<close>

definition bytes_from :: "nat \<Rightarrow> byte \<Rightarrow> bytes" where
  "bytes_from n seed = map (\<lambda>i. seed + word_of_nat i) [0..<n]"

lemma length_bytes_from [simp]: "length (bytes_from n seed) = n"
  by (simp add: bytes_from_def)

lemma bytes_from_neq:
  assumes "a \<noteq> b" "0 < n"
  shows "bytes_from n a \<noteq> bytes_from n b"
proof
  assume "bytes_from n a = bytes_from n b"
  then have "bytes_from n a ! 0 = bytes_from n b ! 0" by simp
  with assms show False by (simp add: bytes_from_def)
qed

definition empty_non_revocation_witness :: non_revocation_witness where
  "empty_non_revocation_witness = \<lparr>nw_stamp = bytes_from 32 11, nw_total_revoked = 0, nw_left = None, nw_right = None\<rparr>"

definition capability_tree_non_revocation_accepts_empty_set_witness :: "crypto \<Rightarrow> bool" where
  "capability_tree_non_revocation_accepts_empty_set_witness C \<longleftrightarrow>
     is_ok (verify_non_revocation C empty_non_revocation_witness (zeros 32) 0)"

definition capability_tree_non_revocation_rejects_empty_set_with_nonzero_root :: "crypto \<Rightarrow> bool" where
  "capability_tree_non_revocation_rejects_empty_set_with_nonzero_root C \<longleftrightarrow>
     \<not> is_ok (verify_non_revocation C empty_non_revocation_witness (bytes_from 32 91) 0)"

definition capability_tree_non_revocation_rejects_mismatched_authenticated_count :: "crypto \<Rightarrow> bool" where
  "capability_tree_non_revocation_rejects_mismatched_authenticated_count C \<longleftrightarrow>
     \<not> is_ok (verify_non_revocation C empty_non_revocation_witness (zeros 32) 1)"

definition capability_tree_non_revocation_empty_rejection_is_deterministic :: "crypto \<Rightarrow> bool" where
  "capability_tree_non_revocation_empty_rejection_is_deterministic C \<longleftrightarrow>
     (let first = \<not> is_ok (verify_non_revocation C empty_non_revocation_witness (bytes_from 32 91) 0);
          second = \<not> is_ok (verify_non_revocation C empty_non_revocation_witness (bytes_from 32 91) 0)
      in first = second \<and> first)"

definition capability_tree_non_revocation_empty_acceptance_is_deterministic :: "crypto \<Rightarrow> bool" where
  "capability_tree_non_revocation_empty_acceptance_is_deterministic C \<longleftrightarrow>
     (let first = is_ok (verify_non_revocation C empty_non_revocation_witness (zeros 32) 0);
          second = is_ok (verify_non_revocation C empty_non_revocation_witness (zeros 32) 0)
      in first = second \<and> first)"

lemma bytes91: "bytes_from 32 91 \<noteq> zeros 32"
proof
  assume "bytes_from 32 91 = zeros 32"
  then have "bytes_from 32 91 ! 0 = zeros 32 ! 0" by simp
  then show False by (simp add: bytes_from_def zeros_def)
qed

lemma non_revocation_harnesses_hold:
  "capability_tree_non_revocation_accepts_empty_set_witness C"
  "capability_tree_non_revocation_rejects_empty_set_with_nonzero_root C"
  "capability_tree_non_revocation_rejects_mismatched_authenticated_count C"
  "capability_tree_non_revocation_empty_rejection_is_deterministic C"
  "capability_tree_non_revocation_empty_acceptance_is_deterministic C"
  unfolding capability_tree_non_revocation_accepts_empty_set_witness_def
    capability_tree_non_revocation_rejects_empty_set_with_nonzero_root_def
    capability_tree_non_revocation_rejects_mismatched_authenticated_count_def
    capability_tree_non_revocation_empty_rejection_is_deterministic_def
    capability_tree_non_revocation_empty_acceptance_is_deterministic_def Let_def
  using bytes91 by (simp_all add: verify_non_revocation_def empty_non_revocation_witness_def)

text \<open>\<open>kani_capability_tree_production_refinement.rs\<close> and \<open>kani_transparency_merkle_soundness.rs\<close>.\<close>

definition capability_tree_production_leaf_binding_is_exact :: "bytes \<Rightarrow> bytes \<Rightarrow> bool" where
  "capability_tree_production_leaf_binding_is_exact proof_leaf expected_leaf \<longleftrightarrow>
     capability_proof_leaf_matches proof_leaf expected_leaf = (proof_leaf = expected_leaf)"

definition capability_tree_production_merkle_direction_uses_index_parity :: "u64 \<Rightarrow> bool" where
  "capability_tree_production_merkle_direction_uses_index_parity index \<longleftrightarrow>
     merkle_sibling_is_right_child index = (index mod 2 = 0)"

definition capability_tree_production_merkle_index_advances_to_parent :: "u64 \<Rightarrow> bool" where
  "capability_tree_production_merkle_index_advances_to_parent index \<longleftrightarrow>
     next_merkle_index_cap index = index div 2"

definition capability_tree_production_left_order_is_strict :: "bytes \<Rightarrow> bytes \<Rightarrow> bool" where
  "capability_tree_production_left_order_is_strict left target \<longleftrightarrow>
     non_revocation_left_order_valid left target = (left < target)"

definition capability_tree_production_right_order_is_strict :: "bytes \<Rightarrow> bytes \<Rightarrow> bool" where
  "capability_tree_production_right_order_is_strict target right \<longleftrightarrow>
     non_revocation_right_order_valid target right = (target < right)"

definition capability_tree_production_left_only_requires_last_leaf :: "u64 \<Rightarrow> u64 \<Rightarrow> bool" where
  "capability_tree_production_left_only_requires_last_leaf left_index count \<longleftrightarrow>
     (non_revocation_left_is_last left_index count \<longrightarrow> count > 0 \<and> left_index = count - 1)"

definition capability_tree_production_right_only_requires_first_leaf :: "u64 \<Rightarrow> bool" where
  "capability_tree_production_right_only_requires_first_leaf right_index \<longleftrightarrow>
     (non_revocation_right_is_first right_index \<longrightarrow> right_index = 0)"

definition capability_tree_production_between_bounds_require_adjacency :: "u64 \<Rightarrow> u64 \<Rightarrow> bool" where
  "capability_tree_production_between_bounds_require_adjacency left_index right_index \<longleftrightarrow>
     (non_revocation_boundaries_are_adjacent left_index right_index \<longrightarrow> left_index < - 1 \<and> left_index + 1 = right_index)"

definition capability_tree_production_adjacency_rejects_overflow :: "u64 \<Rightarrow> bool" where
  "capability_tree_production_adjacency_rejects_overflow right_index \<longleftrightarrow>
     \<not> non_revocation_boundaries_are_adjacent (- 1) right_index"

definition transparency_merkle_direction_is_exactly_index_parity :: "u64 \<Rightarrow> bool" where
  "transparency_merkle_direction_is_exactly_index_parity index \<longleftrightarrow>
     merkle_sibling_is_right index = (index mod 2 = 0)"

definition transparency_merkle_parent_index_is_floor_half :: "u64 \<Rightarrow> bool" where
  "transparency_merkle_parent_index_is_floor_half index \<longleftrightarrow>
     next_merkle_index index = index div 2"

definition transparency_merkle_direction_and_parent_progress_are_deterministic :: "u64 \<Rightarrow> bool" where
  "transparency_merkle_direction_and_parent_progress_are_deterministic index \<longleftrightarrow>
     (merkle_sibling_is_right index, next_merkle_index index) = (merkle_sibling_is_right index, next_merkle_index index)"

definition transparency_merkle_parent_progress_strictly_decreases_positive_indices :: "u64 \<Rightarrow> bool" where
  "transparency_merkle_parent_progress_strictly_decreases_positive_indices index \<longleftrightarrow>
     (index > 0 \<longrightarrow> next_merkle_index index < index)"

definition transparency_merkle_even_and_odd_children_share_parent :: "u64 \<Rightarrow> bool" where
  "transparency_merkle_even_and_odd_children_share_parent parent \<longleftrightarrow>
     (parent \<le> (- 1 - 1) div 2 \<longrightarrow> (let left = parent * 2; right = left + 1 in
      merkle_sibling_is_right left \<and> \<not> merkle_sibling_is_right right \<and>
      next_merkle_index left = parent \<and> next_merkle_index right = parent))"

lemma unat_max_u64: "unat (- 1 :: u64) = 2 ^ 64 - 1"
  by (simp add: unsigned_minus_1_eq_mask mask_eq_exp_minus_1)

lemma index_parity: "(x :: u64) AND 1 = 0 \<longleftrightarrow> x mod 2 = 0"
  by (simp add: and_one_eq)

lemma half_index: "drop_bit (Suc 0) (x :: u64) = x div 2"
  by (simp add: drop_bit_eq_div)

lemma children_share_parent:
  assumes "p \<le> (- 1 - 1) div (2 :: u64)"
  shows "(p * 2) mod 2 = 0" "(p * 2 + 1) mod 2 \<noteq> 0" "(p * 2) div 2 = p" "(p * 2 + 1) div 2 = p"
proof -
  have "unat p < 2 ^ 63" using assms by (simp add: word_le_nat_alt unat_div)
  then have n: "unat (p * 2) = unat p * 2" "unat (p * 2 + 1) = unat p * 2 + 1"
    by (simp_all add: unat_word_ariths)
  show "(p * 2) mod 2 = 0" "(p * 2 + 1) mod 2 \<noteq> 0" "(p * 2) div 2 = p" "(p * 2 + 1) div 2 = p"
    by (simp_all add: word_unat_eq_iff unat_mod unat_div n) presburger
qed

lemma tree_helper_harnesses_hold:
  "capability_tree_production_leaf_binding_is_exact a b"
  "capability_tree_production_merkle_direction_uses_index_parity i"
  "capability_tree_production_merkle_index_advances_to_parent i"
  "capability_tree_production_left_order_is_strict a b"
  "capability_tree_production_right_order_is_strict b c"
  "capability_tree_production_left_only_requires_last_leaf i n"
  "capability_tree_production_right_only_requires_first_leaf j"
  "capability_tree_production_between_bounds_require_adjacency i j"
  "capability_tree_production_adjacency_rejects_overflow j"
  "transparency_merkle_direction_is_exactly_index_parity i"
  "transparency_merkle_parent_index_is_floor_half i"
  "transparency_merkle_direction_and_parent_progress_are_deterministic i"
  "transparency_merkle_parent_progress_strictly_decreases_positive_indices i"
  "transparency_merkle_even_and_odd_children_share_parent p"
proof -
  have half: "next_merkle_index i < i" if "0 < i" for i
    using that by (simp add: next_merkle_index_def half_index word_less_nat_alt unat_div unat_gt_0)
  show "transparency_merkle_parent_progress_strictly_decreases_positive_indices i"
    using half by (simp add: transparency_merkle_parent_progress_strictly_decreases_positive_indices_def)
  show "transparency_merkle_even_and_odd_children_share_parent p"
    using children_share_parent [of p]
    by (simp add: transparency_merkle_even_and_odd_children_share_parent_def merkle_sibling_is_right_def index_parity
        next_merkle_index_def half_index Let_def)
  have "checked_add i 1 = Some j \<Longrightarrow> i < - 1 \<and> i + 1 = j" for i j :: u64
    by (auto simp: checked_add_def word_less_nat_alt unat_max_u64 split: if_splits)
  then show "capability_tree_production_between_bounds_require_adjacency i j"
    by (simp add: capability_tree_production_between_bounds_require_adjacency_def non_revocation_boundaries_are_adjacent_def)
  show "capability_tree_production_adjacency_rejects_overflow j"
    by (simp add: capability_tree_production_adjacency_rejects_overflow_def non_revocation_boundaries_are_adjacent_def
        checked_add_def unat_max_u64)
qed (simp_all add: capability_tree_production_leaf_binding_is_exact_def
    capability_tree_production_merkle_direction_uses_index_parity_def
    capability_tree_production_merkle_index_advances_to_parent_def
    capability_tree_production_left_order_is_strict_def
    capability_tree_production_right_order_is_strict_def
    capability_tree_production_left_only_requires_last_leaf_def
    capability_tree_production_right_only_requires_first_leaf_def
    transparency_merkle_direction_is_exactly_index_parity_def
    transparency_merkle_parent_index_is_floor_half_def
    transparency_merkle_direction_and_parent_progress_are_deterministic_def
    capability_proof_leaf_matches_def merkle_sibling_is_right_child_def next_merkle_index_cap_def
    non_revocation_left_order_valid_def non_revocation_right_order_valid_def non_revocation_left_is_last_def
    non_revocation_right_is_first_def merkle_sibling_is_right_def next_merkle_index_def index_parity half_index)

end
