(* ===== verification/Csk2_Kani_Crypto.thy ===== *)
theory Csk2_Kani_Crypto
  imports Csk2_Kani_Witness
begin

text \<open>
  The Kani harnesses that replace the cryptography by eight-bit models: \<open>kani_seal_open_crypto_boundary_equivalence.rs\<close>
  and \<open>kani_seal_open_model_crypto_equivalence.rs\<close>. All harnesses hold, and the round trips are shown for every
  binding, key and message instead of the samples. Exclusive or is no substitute for a hash, though: the
  key of the first model does not depend on the binding, its associated data does not depend on the roots, and
  both message codes accept a message with one change made to two of its bytes.
\<close>

unbundle bit_operations_syntax

named_theorems kani_defs \<open>the definitions of the models and their harnesses\<close>

lemma xor_left_cancel [simp]: "a XOR x = a XOR y \<longleftrightarrow> x = (y :: 'a :: len word)"
  by (metis bit.xor_left_self)

lemma xor_fixed [simp]:
  "k XOR x = x \<longleftrightarrow> k = (0 :: 'a :: len word)" "x XOR k = x \<longleftrightarrow> k = (0 :: 'a :: len word)"
  "x = k XOR x \<longleftrightarrow> k = (0 :: 'a :: len word)" "x = x XOR k \<longleftrightarrow> k = (0 :: 'a :: len word)"
  by (metis xor.left_neutral xor_self_eq xor.assoc xor.commute)+

type_synonym block = "byte \<times> byte \<times> byte \<times> byte"

fun xor_block :: "block \<Rightarrow> byte" where
  "xor_block (a, b, c, d) = a XOR b XOR c XOR d"

fun flip_block :: "block \<Rightarrow> block" where
  "flip_block (a, b, c, d) = (a XOR 1, b, c, d)"

lemma xor_flip_block: "xor_block (flip_block m) = 1 XOR xor_block m"
  by (cases m) (simp add: ac_simps)

subsection \<open>The contract model\<close>

record crypto_binding =
  cb_object_id :: byte
  cb_rights :: byte
  cb_policy_hash :: byte
  cb_epoch :: byte
  cb_authority_root :: byte
  cb_revocation_root :: byte
  cb_transparency_root :: byte
  cb_capability_stamp :: byte
  cb_temporal_policy :: byte

record contract_ciphertext =
  cc_key :: byte
  cc_nonce :: byte
  cc_aad_digest :: byte
  cc_mac :: byte
  cc_plaintext :: block

record contract_wrapper =
  cw_epoch :: byte
  cw_binding_digest :: byte
  cw_kem_ciphertext :: byte
  cw_wrap_nonce :: byte
  cw_wrapped_dek :: contract_ciphertext

record contract_object =
  co_seal_epoch :: byte
  co_temporal_policy :: byte
  co_payload_nonce :: byte
  co_payload_ciphertext :: contract_ciphertext
  co_wrapper :: contract_wrapper

definition binding_digest :: "crypto_binding \<Rightarrow> byte" where
  [kani_defs]: "binding_digest b = cb_object_id b XOR cb_rights b XOR cb_policy_hash b XOR cb_epoch b XOR cb_authority_root b XOR
     cb_revocation_root b XOR cb_transparency_root b XOR cb_capability_stamp b XOR cb_temporal_policy b"

definition payload_aad_digest :: "crypto_binding \<Rightarrow> byte" where
  [kani_defs]: "payload_aad_digest b = 0x11 XOR cb_object_id b XOR cb_rights b XOR cb_policy_hash b XOR cb_epoch b"

definition authority_aad_digest :: "crypto_binding \<Rightarrow> byte \<Rightarrow> byte" where
  [kani_defs]: "authority_aad_digest b kem_ciphertext = 0x22 XOR binding_digest b XOR cb_authority_root b XOR
     cb_revocation_root b XOR cb_transparency_root b XOR kem_ciphertext"

definition contract_mac :: "byte \<Rightarrow> byte \<Rightarrow> byte \<Rightarrow> block \<Rightarrow> byte" where
  [kani_defs]: "contract_mac key nonce aad_digest plaintext = 0xA9 XOR key XOR nonce XOR aad_digest XOR xor_block plaintext"

definition contract_encrypt :: "byte \<Rightarrow> byte \<Rightarrow> byte \<Rightarrow> block \<Rightarrow> contract_ciphertext" where
  [kani_defs]: "contract_encrypt key nonce aad_digest plaintext = \<lparr>cc_key = key, cc_nonce = nonce, cc_aad_digest = aad_digest,
     cc_mac = contract_mac key nonce aad_digest plaintext, cc_plaintext = plaintext\<rparr>"

definition contract_decrypt :: "byte \<Rightarrow> byte \<Rightarrow> byte \<Rightarrow> contract_ciphertext \<Rightarrow> block option" where
  [kani_defs]: "contract_decrypt key nonce aad_digest c =
     (if cc_key c \<noteq> key then None
      else if cc_nonce c \<noteq> nonce then None
      else if cc_aad_digest c \<noteq> aad_digest then None
      else if cc_mac c \<noteq> contract_mac key nonce aad_digest (cc_plaintext c) then None
      else Some (cc_plaintext c))"

definition contract_kem_encaps :: "byte \<Rightarrow> byte \<times> byte" where
  [kani_defs]: "contract_kem_encaps recipient_public = (recipient_public XOR 0x71, recipient_public XOR 0xC7)"

definition contract_kem_decaps :: "byte \<Rightarrow> byte \<Rightarrow> byte option" where
  [kani_defs]: "contract_kem_decaps recipient_secret kem_ciphertext =
     (let recipient_public = kem_ciphertext XOR 0x71
      in if recipient_secret \<noteq> recipient_public then None else Some (recipient_public XOR 0xC7))"

definition contract_hkdf :: "byte \<Rightarrow> crypto_binding \<Rightarrow> byte \<Rightarrow> byte" where
  [kani_defs]: "contract_hkdf shared_secret b context_digest = shared_secret XOR binding_digest b XOR context_digest XOR 0x3D"

definition contract_required_epoch :: "byte \<Rightarrow> byte \<Rightarrow> byte \<Rightarrow> byte option" where
  [kani_defs]: "contract_required_epoch temporal_policy open_epoch seal_epoch =
     (if temporal_policy = 0 then (if open_epoch = seal_epoch then Some open_epoch else None)
      else if temporal_policy = 1 then Some seal_epoch else None)"

definition contract_select_wrapper :: "contract_object \<Rightarrow> byte \<Rightarrow> contract_wrapper option" where
  [kani_defs]: "contract_select_wrapper object open_epoch =
     Option.bind (contract_required_epoch (co_temporal_policy object) open_epoch (co_seal_epoch object)) (\<lambda>epoch.
     if cw_epoch (co_wrapper object) = epoch then Some (co_wrapper object) else None)"

definition contract_seal :: "byte \<Rightarrow> crypto_binding \<Rightarrow> byte \<Rightarrow> byte \<Rightarrow> byte \<Rightarrow> block \<Rightarrow> contract_object" where
  [kani_defs]: "contract_seal recipient_public b dek payload_nonce wrap_nonce message =
     (let (kem_ciphertext, shared_secret) = contract_kem_encaps recipient_public;
          context_digest = binding_digest b;
          kek = contract_hkdf shared_secret b context_digest;
          wrapped_dek = contract_encrypt kek wrap_nonce (authority_aad_digest b kem_ciphertext) (dek, dek, dek, dek)
      in \<lparr>co_seal_epoch = cb_epoch b, co_temporal_policy = cb_temporal_policy b, co_payload_nonce = payload_nonce,
          co_payload_ciphertext = contract_encrypt dek payload_nonce (payload_aad_digest b) message,
          co_wrapper = \<lparr>cw_epoch = cb_epoch b, cw_binding_digest = context_digest, cw_kem_ciphertext = kem_ciphertext,
            cw_wrap_nonce = wrap_nonce, cw_wrapped_dek = wrapped_dek\<rparr>\<rparr>)"

definition contract_open :: "byte \<Rightarrow> crypto_binding \<Rightarrow> byte \<Rightarrow> contract_object \<Rightarrow> block option" where
  [kani_defs]: "contract_open recipient_secret b open_epoch object =
     Option.bind (contract_select_wrapper object open_epoch) (\<lambda>wrapper.
     if cw_binding_digest wrapper \<noteq> binding_digest b then None
     else Option.bind (contract_kem_decaps recipient_secret (cw_kem_ciphertext wrapper)) (\<lambda>shared_secret.
     let kek = contract_hkdf shared_secret b (cw_binding_digest wrapper) in
     Option.bind (contract_decrypt kek (cw_wrap_nonce wrapper) (authority_aad_digest b (cw_kem_ciphertext wrapper))
       (cw_wrapped_dek wrapper)) (\<lambda>dek_bytes.
     contract_decrypt (fst dek_bytes) (co_payload_nonce object) (payload_aad_digest b) (co_payload_ciphertext object))))"

definition contract_sample_binding :: crypto_binding where
  [kani_defs]: "contract_sample_binding = \<lparr>cb_object_id = 11, cb_rights = 7, cb_policy_hash = 19, cb_epoch = 3, cb_authority_root = 23,
     cb_revocation_root = 29, cb_transparency_root = 31, cb_capability_stamp = 37, cb_temporal_policy = 0\<rparr>"

text \<open>The harnesses.\<close>

definition crypto_boundary_payload_aad_binds_policy_hash :: bool where
  [kani_defs]: "crypto_boundary_payload_aad_binds_policy_hash \<longleftrightarrow>
     (let b = contract_sample_binding; altered = b\<lparr>cb_policy_hash := cb_policy_hash b XOR 1\<rparr>
      in payload_aad_digest b \<noteq> payload_aad_digest altered)"

definition crypto_boundary_authority_aad_binds_kem_ciphertext :: "byte \<Rightarrow> bool" where
  [kani_defs]: "crypto_boundary_authority_aad_binds_kem_ciphertext kem_ciphertext \<longleftrightarrow>
     authority_aad_digest contract_sample_binding kem_ciphertext
       \<noteq> authority_aad_digest contract_sample_binding (kem_ciphertext XOR 1)"

definition contract_sample_object :: "block \<Rightarrow> contract_object" where
  [kani_defs]: "contract_sample_object message = contract_seal 5 contract_sample_binding 42 9 10 message"

definition crypto_boundary_wrapper_selection_returns_required_epoch :: "block \<Rightarrow> bool" where
  [kani_defs]: "crypto_boundary_wrapper_selection_returns_required_epoch message \<longleftrightarrow>
     (case contract_select_wrapper (contract_sample_object message) (cb_epoch contract_sample_binding) of None \<Rightarrow> False
      | Some wrapper \<Rightarrow> cw_epoch wrapper = cb_epoch contract_sample_binding)"

definition crypto_boundary_wrapper_selection_rejects_missing_epoch :: "block \<Rightarrow> bool" where
  [kani_defs]: "crypto_boundary_wrapper_selection_rejects_missing_epoch message \<longleftrightarrow>
     (let object = contract_sample_object message;
          object = object\<lparr>co_wrapper := (co_wrapper object)\<lparr>cw_epoch := cb_epoch contract_sample_binding + 1\<rparr>\<rparr>
      in contract_select_wrapper object (cb_epoch contract_sample_binding) = None)"

definition crypto_boundary_aead_roundtrip_contract_returns_plaintext :: "byte \<Rightarrow> byte \<Rightarrow> byte \<Rightarrow> block \<Rightarrow> bool" where
  [kani_defs]: "crypto_boundary_aead_roundtrip_contract_returns_plaintext key nonce aad_digest message \<longleftrightarrow>
     contract_decrypt key nonce aad_digest (contract_encrypt key nonce aad_digest message) = Some message"

definition crypto_boundary_aead_rejects_tampered_aad :: "byte \<Rightarrow> byte \<Rightarrow> byte \<Rightarrow> block \<Rightarrow> bool" where
  [kani_defs]: "crypto_boundary_aead_rejects_tampered_aad key nonce aad_digest message \<longleftrightarrow>
     contract_decrypt key nonce (aad_digest XOR 1) (contract_encrypt key nonce aad_digest message) = None"

definition crypto_boundary_dek_wrap_contract_roundtrip :: "byte \<Rightarrow> bool" where
  [kani_defs]: "crypto_boundary_dek_wrap_contract_roundtrip dek \<longleftrightarrow>
     (let b = contract_sample_binding; (kem_ciphertext, shared_secret) = contract_kem_encaps 5;
          kek = contract_hkdf shared_secret b (binding_digest b);
          wrapped = contract_encrypt kek 10 (authority_aad_digest b kem_ciphertext) (dek, dek, dek, dek)
      in contract_decrypt kek 10 (authority_aad_digest b kem_ciphertext) wrapped = Some (dek, dek, dek, dek))"

definition crypto_boundary_kem_hkdf_contract_is_deterministic :: "byte \<Rightarrow> bool" where
  [kani_defs]: "crypto_boundary_kem_hkdf_contract_is_deterministic recipient_public \<longleftrightarrow>
     (let b = contract_sample_binding; first = contract_kem_encaps recipient_public;
          second = contract_kem_encaps recipient_public
      in first = second \<and> contract_hkdf (snd first) b (binding_digest b) = contract_hkdf (snd second) b (binding_digest b))"

definition crypto_semantic_contract_seal_open_returns_message :: "block \<Rightarrow> bool" where
  [kani_defs]: "crypto_semantic_contract_seal_open_returns_message message \<longleftrightarrow>
     contract_open 5 contract_sample_binding (cb_epoch contract_sample_binding) (contract_sample_object message) = Some message"

definition crypto_semantic_contract_rejects_payload_ciphertext_tamper :: "block \<Rightarrow> bool" where
  [kani_defs]: "crypto_semantic_contract_rejects_payload_ciphertext_tamper message \<longleftrightarrow>
     (let object = contract_sample_object message; c = co_payload_ciphertext object;
          object = object\<lparr>co_payload_ciphertext := c\<lparr>cc_plaintext := flip_block (cc_plaintext c)\<rparr>\<rparr>
      in contract_open 5 contract_sample_binding (cb_epoch contract_sample_binding) object = None)"

subsection \<open>What the contract model shows, and what it does not\<close>

text \<open>Opening succeeds exactly for the sealer's recipient, an epoch that the policy allows and an equal digest.\<close>

lemma contract_decrypt_encrypt:
  "contract_decrypt k n a (contract_encrypt k' n' a' m) = (if k = k' \<and> n = n' \<and> a = a' then Some m else None)"
  by (auto simp: contract_decrypt_def contract_encrypt_def)

lemma contract_kem: "contract_kem_decaps sk (pk XOR 0x71) = (if sk = pk then Some (pk XOR 0xC7) else None)"
  by (simp add: contract_kem_decaps_def xor.assoc Let_def)

lemma contract_open_iff:
  "contract_open sk b' e (contract_seal pk b dek pn wn m) = Some m' \<longleftrightarrow>
     sk = pk \<and> m' = m \<and> (cb_temporal_policy b = 0 \<and> e = cb_epoch b \<or> cb_temporal_policy b = 1) \<and>
     binding_digest b' = binding_digest b \<and> payload_aad_digest b' = payload_aad_digest b \<and>
     authority_aad_digest b' (pk XOR 0x71) = authority_aad_digest b (pk XOR 0x71)"
  by (simp add: contract_open_def contract_seal_def contract_select_wrapper_def contract_required_epoch_def
      contract_kem_encaps_def contract_kem contract_decrypt_encrypt contract_hkdf_def Let_def) blast

lemma contract_harnesses_hold:
  "crypto_boundary_payload_aad_binds_policy_hash" "crypto_boundary_authority_aad_binds_kem_ciphertext k"
  "crypto_boundary_wrapper_selection_returns_required_epoch m" "crypto_boundary_wrapper_selection_rejects_missing_epoch m"
  "crypto_boundary_aead_roundtrip_contract_returns_plaintext key n a m" "crypto_boundary_aead_rejects_tampered_aad key n a m"
  "crypto_boundary_dek_wrap_contract_roundtrip dek" "crypto_boundary_kem_hkdf_contract_is_deterministic pk"
  "crypto_semantic_contract_seal_open_returns_message m" "crypto_semantic_contract_rejects_payload_ciphertext_tamper m"
  by (simp_all add: kani_defs Let_def xor_flip_block)

text \<open>
  The key derived in the model depends on the recipient alone, since the binding's digest is added twice, and its
  authority data does not depend on the three roots, which cancel.
\<close>

lemma contract_key_ignores_binding:
  "contract_hkdf ss b (binding_digest b) = ss XOR 0x3D"
  by (simp add: contract_hkdf_def ac_simps)

lemma contract_aad_ignores_roots:
  "authority_aad_digest (b\<lparr>cb_authority_root := r1, cb_revocation_root := r2, cb_transparency_root := r3\<rparr>) k = authority_aad_digest b k"
  by (simp add: authority_aad_digest_def binding_digest_def ac_simps)

text \<open>A ciphertext with one mask applied to two bytes of its text is accepted.\<close>

lemma contract_mac_malleable:
  "contract_decrypt key n a ((contract_encrypt key n a (x, y, z, w))\<lparr>cc_plaintext := (x XOR d, y XOR d, z, w)\<rparr>)
     = Some (x XOR d, y XOR d, z, w)"
  by (simp add: contract_decrypt_def contract_encrypt_def contract_mac_def ac_simps)

subsection \<open>The model of \<open>kani_seal_open_model_crypto_equivalence.rs\<close>\<close>

record model_binding =
  mb_object_id :: byte
  mb_rights :: byte
  mb_policy_hash :: byte
  mb_epoch :: byte
  mb_authority_root :: byte
  mb_revocation_root :: byte
  mb_transparency_root :: byte
  mb_capability_stamp :: byte
  mb_temporal_policy :: byte

record model_recipient =
  mr_public :: byte
  mr_secret :: byte

record model_payload_ciphertext =
  pc_tag :: byte
  pc_binding_digest :: byte
  pc_dek :: byte
  pc_mac :: byte
  pc_plaintext :: block

record model_wrapped_dek =
  wd_tag :: byte
  wd_binding_digest :: byte
  wd_recipient_public :: byte
  wd_dek :: byte
  wd_mac :: byte

record model_sealed_object =
  so_binding :: model_binding
  so_epoch :: byte
  so_recipient_public :: byte
  so_payload_ciphertext :: model_payload_ciphertext
  so_wrapped_dek :: model_wrapped_dek

definition model_digest :: "model_binding \<Rightarrow> byte" where
  [kani_defs]: "model_digest b = mb_object_id b XOR mb_rights b XOR mb_policy_hash b XOR mb_epoch b XOR mb_authority_root b XOR
     mb_revocation_root b XOR mb_transparency_root b XOR mb_capability_stamp b XOR mb_temporal_policy b"

definition message_mac :: "model_binding \<Rightarrow> byte \<Rightarrow> block \<Rightarrow> byte" where
  [kani_defs]: "message_mac b dek message = 0xA5 XOR model_digest b XOR dek XOR xor_block message"

definition wrapper_mac :: "model_binding \<Rightarrow> byte \<Rightarrow> byte \<Rightarrow> byte" where
  [kani_defs]: "wrapper_mac b recipient_public dek = 0x5A XOR model_digest b XOR recipient_public XOR dek"

definition model_dek :: "model_binding \<Rightarrow> byte \<Rightarrow> byte" where
  [kani_defs]: "model_dek b recipient_public = model_digest b XOR recipient_public XOR 0xC3"

definition model_encrypt_payload :: "model_binding \<Rightarrow> byte \<Rightarrow> block \<Rightarrow> model_payload_ciphertext" where
  [kani_defs]: "model_encrypt_payload b dek message = \<lparr>pc_tag = 0xE1, pc_binding_digest = model_digest b, pc_dek = dek,
     pc_mac = message_mac b dek message, pc_plaintext = message\<rparr>"

definition model_decrypt_payload :: "model_binding \<Rightarrow> byte \<Rightarrow> model_payload_ciphertext \<Rightarrow> block option" where
  [kani_defs]: "model_decrypt_payload b dek c =
     (if pc_tag c \<noteq> 0xE1 then None
      else if pc_binding_digest c \<noteq> model_digest b then None
      else if pc_dek c \<noteq> dek then None
      else if pc_mac c \<noteq> message_mac b dek (pc_plaintext c) then None
      else Some (pc_plaintext c))"

definition model_wrap_dek :: "model_binding \<Rightarrow> byte \<Rightarrow> byte \<Rightarrow> model_wrapped_dek" where
  [kani_defs]: "model_wrap_dek b recipient_public dek = \<lparr>wd_tag = 0xD7, wd_binding_digest = model_digest b,
     wd_recipient_public = recipient_public, wd_dek = dek, wd_mac = wrapper_mac b recipient_public dek\<rparr>"

definition model_unwrap_dek :: "model_binding \<Rightarrow> byte \<Rightarrow> model_wrapped_dek \<Rightarrow> byte option" where
  [kani_defs]: "model_unwrap_dek b recipient_secret w =
     (if wd_tag w \<noteq> 0xD7 then None
      else if wd_binding_digest w \<noteq> model_digest b then None
      else if wd_recipient_public w \<noteq> recipient_secret then None
      else if wd_mac w \<noteq> wrapper_mac b (wd_recipient_public w) (wd_dek w) then None
      else Some (wd_dek w))"

definition model_seal :: "model_recipient \<Rightarrow> model_binding \<Rightarrow> block \<Rightarrow> model_sealed_object" where
  [kani_defs]: "model_seal recipient b message =
     (let dek = model_dek b (mr_public recipient)
      in \<lparr>so_binding = b, so_epoch = mb_epoch b, so_recipient_public = mr_public recipient,
          so_payload_ciphertext = model_encrypt_payload b dek message,
          so_wrapped_dek = model_wrap_dek b (mr_public recipient) dek\<rparr>)"

definition model_open :: "byte \<Rightarrow> model_binding \<Rightarrow> byte \<Rightarrow> model_sealed_object \<Rightarrow> block option" where
  [kani_defs]: "model_open recipient_secret expected_binding expected_epoch s =
     (if expected_epoch \<noteq> so_epoch s then None
      else if expected_binding \<noteq> so_binding s then None
      else Option.bind (model_unwrap_dek expected_binding recipient_secret (so_wrapped_dek s)) (\<lambda>dek.
        model_decrypt_payload expected_binding dek (so_payload_ciphertext s)))"

definition model_sample_binding :: model_binding where
  [kani_defs]: "model_sample_binding = \<lparr>mb_object_id = 11, mb_rights = 7, mb_policy_hash = 19, mb_epoch = 3, mb_authority_root = 23,
     mb_revocation_root = 29, mb_transparency_root = 31, mb_capability_stamp = 37, mb_temporal_policy = 41\<rparr>"

definition model_sample_recipient :: model_recipient where
  [kani_defs]: "model_sample_recipient = \<lparr>mr_public = 5, mr_secret = 5\<rparr>"

definition model_sample_sealed :: "block \<Rightarrow> model_sealed_object" where
  [kani_defs]: "model_sample_sealed message = model_seal model_sample_recipient model_sample_binding message"

definition model_rejects :: "byte \<Rightarrow> model_binding \<Rightarrow> byte \<Rightarrow> model_sealed_object \<Rightarrow> bool" where
  [kani_defs]: "model_rejects secret b epoch s \<longleftrightarrow> model_open secret b epoch s = None"

definition model_crypto_seal_open_roundtrip_returns_message :: "block \<Rightarrow> bool" where
  [kani_defs]: "model_crypto_seal_open_roundtrip_returns_message message \<longleftrightarrow>
     model_open (mr_secret model_sample_recipient) model_sample_binding (mb_epoch model_sample_binding) (model_sample_sealed message) = Some message"

definition model_crypto_open_rejects_wrong_recipient_secret :: "block \<Rightarrow> bool" where
  [kani_defs]: "model_crypto_open_rejects_wrong_recipient_secret message \<longleftrightarrow>
     model_rejects 6 model_sample_binding (mb_epoch model_sample_binding) (model_sample_sealed message)"

definition model_crypto_open_rejects_altered_context :: "block \<Rightarrow> bool" where
  [kani_defs]: "model_crypto_open_rejects_altered_context message \<longleftrightarrow>
     (let b = model_sample_binding; altered_binding = b\<lparr>mb_object_id := mb_object_id b XOR 1\<rparr>
      in model_rejects (mr_secret model_sample_recipient) altered_binding (mb_epoch b) (model_sample_sealed message))"

definition model_crypto_open_rejects_altered_object_id :: "block \<Rightarrow> bool" where
  [kani_defs]: "model_crypto_open_rejects_altered_object_id message \<longleftrightarrow>
     (let b = model_sample_binding; altered_binding = b\<lparr>mb_object_id := mb_object_id b XOR 1\<rparr>
      in model_rejects (mr_secret model_sample_recipient) altered_binding (mb_epoch b) (model_sample_sealed message))"

definition model_crypto_open_rejects_altered_policy_hash :: "block \<Rightarrow> bool" where
  [kani_defs]: "model_crypto_open_rejects_altered_policy_hash message \<longleftrightarrow>
     (let b = model_sample_binding; altered_binding = b\<lparr>mb_policy_hash := mb_policy_hash b XOR 1\<rparr>
      in model_rejects (mr_secret model_sample_recipient) altered_binding (mb_epoch b) (model_sample_sealed message))"

definition model_crypto_open_rejects_altered_capability_stamp :: "block \<Rightarrow> bool" where
  [kani_defs]: "model_crypto_open_rejects_altered_capability_stamp message \<longleftrightarrow>
     (let b = model_sample_binding; altered_binding = b\<lparr>mb_capability_stamp := mb_capability_stamp b XOR 1\<rparr>
      in model_rejects (mr_secret model_sample_recipient) altered_binding (mb_epoch b) (model_sample_sealed message))"

definition model_crypto_open_rejects_altered_authority_root :: "block \<Rightarrow> bool" where
  [kani_defs]: "model_crypto_open_rejects_altered_authority_root message \<longleftrightarrow>
     (let b = model_sample_binding; altered_binding = b\<lparr>mb_authority_root := mb_authority_root b XOR 1\<rparr>
      in model_rejects (mr_secret model_sample_recipient) altered_binding (mb_epoch b) (model_sample_sealed message))"

definition model_crypto_open_rejects_altered_payload_ciphertext :: "block \<Rightarrow> bool" where
  [kani_defs]: "model_crypto_open_rejects_altered_payload_ciphertext message \<longleftrightarrow>
     (let s = model_sample_sealed message; c = so_payload_ciphertext s;
          s = s\<lparr>so_payload_ciphertext := c\<lparr>pc_plaintext := flip_block (pc_plaintext c)\<rparr>\<rparr>
      in model_rejects (mr_secret model_sample_recipient) model_sample_binding (mb_epoch model_sample_binding) s)"

definition model_crypto_open_rejects_altered_wrapper_binding :: "block \<Rightarrow> bool" where
  [kani_defs]: "model_crypto_open_rejects_altered_wrapper_binding message \<longleftrightarrow>
     (let s = model_sample_sealed message; w = so_wrapped_dek s;
          s = s\<lparr>so_wrapped_dek := w\<lparr>wd_binding_digest := wd_binding_digest w XOR 1\<rparr>\<rparr>
      in model_rejects (mr_secret model_sample_recipient) model_sample_binding (mb_epoch model_sample_binding) s)"

definition model_crypto_open_rejects_wrong_epoch_wrapper_selection :: "block \<Rightarrow> bool" where
  [kani_defs]: "model_crypto_open_rejects_wrong_epoch_wrapper_selection message \<longleftrightarrow>
     model_rejects (mr_secret model_sample_recipient) model_sample_binding (mb_epoch model_sample_binding + 1) (model_sample_sealed message)"

text \<open>Opening succeeds exactly with the sealer's recipient, binding and epoch.\<close>

lemma model_open_iff:
  "model_open sk b' e (model_seal r b m) = Some m' \<longleftrightarrow> sk = mr_public r \<and> b' = b \<and> e = mb_epoch b \<and> m' = m"
  by (auto simp: model_open_def model_seal_def model_unwrap_dek_def model_wrap_dek_def model_decrypt_payload_def
      model_encrypt_payload_def Let_def split: if_splits)

lemma model_harnesses_hold:
  "model_crypto_seal_open_roundtrip_returns_message m"
  "model_crypto_open_rejects_wrong_recipient_secret m"
  "model_crypto_open_rejects_altered_context m"
  "model_crypto_open_rejects_altered_object_id m"
  "model_crypto_open_rejects_altered_policy_hash m"
  "model_crypto_open_rejects_altered_capability_stamp m"
  "model_crypto_open_rejects_altered_authority_root m"
  "model_crypto_open_rejects_altered_payload_ciphertext m"
  "model_crypto_open_rejects_altered_wrapper_binding m"
  "model_crypto_open_rejects_wrong_epoch_wrapper_selection m"
  by (simp_all add: kani_defs Let_def xor_flip_block)

text \<open>The message code has the weakness of the contract model's.\<close>

lemma model_mac_malleable:
  fixes r b x y z w d
  defines "s \<equiv> model_seal r b (x, y, z, w)"
  shows "model_open (mr_public r) b (mb_epoch b) (s\<lparr>so_payload_ciphertext := (so_payload_ciphertext s)
    \<lparr>pc_plaintext := (x XOR d, y XOR d, z, w)\<rparr>\<rparr>) = Some (x XOR d, y XOR d, z, w)"
  by (simp add: s_def model_open_def model_seal_def model_unwrap_dek_def model_wrap_dek_def model_decrypt_payload_def
      model_encrypt_payload_def message_mac_def Let_def ac_simps)

end
