(* ===== verification/Csk2_Kani_Context.thy ===== *)
theory Csk2_Kani_Context
  imports Csk2_Kani_Crypto
begin

text \<open>
  The Kani harnesses about what the context hash and the derived keys bind: \<open>kani_seal_open_helper_surface_equivalence.rs\<close>
  on eight-bit models, \<open>kani_context_hash_equivalence.rs\<close> on a 64-bit transcript, and
  \<open>kani_context_hash_production_equivalence.rs\<close> on the library. The harnesses on the models hold, but the models
  bind less than the library: the derived key of the first does not depend on the authority's state, and the
  transcript of the second does not tell temporal policies apart. The harnesses on the library hold up to a
  collision of SHA-256 on the two transcripts that each compares.
\<close>

unbundle bit_operations_syntax

subsection \<open>The helper surface\<close>

record helper_state =
  hs_epoch :: byte
  hs_authority_id :: byte
  hs_authority_root :: byte
  hs_revocation_root :: byte
  hs_transparency_root :: byte

record helper_object =
  ho_object_id :: byte
  ho_rights :: byte
  ho_policy_hash :: byte
  ho_seal_epoch :: byte
  ho_capability_stamp :: byte
  ho_temporal_policy :: byte

record helper_kem_pair =
  hk_ciphertext :: byte
  hk_shared_secret :: byte

definition CONTEXT_DOMAIN :: byte where [kani_defs]: "CONTEXT_DOMAIN = 0x41"
definition AUTHORITY_DIGEST_DOMAIN :: byte where [kani_defs]: "AUTHORITY_DIGEST_DOMAIN = 0x53"
definition KEK_DOMAIN :: byte where [kani_defs]: "KEK_DOMAIN = 0x67"
definition HYBRID_SECRET_DOMAIN :: byte where [kani_defs]: "HYBRID_SECRET_DOMAIN = 0x79"
definition AUTHORITY_AAD_DOMAIN :: byte where [kani_defs]: "AUTHORITY_AAD_DOMAIN = 0x83"
definition PAYLOAD_AAD_DOMAIN :: byte where [kani_defs]: "PAYLOAD_AAD_DOMAIN = 0x97"

definition helper_sample_state :: helper_state where
  [kani_defs]: "helper_sample_state = \<lparr>hs_epoch = 3, hs_authority_id = 5, hs_authority_root = 23, hs_revocation_root = 29,
     hs_transparency_root = 31\<rparr>"

definition helper_sample_object :: helper_object where
  [kani_defs]: "helper_sample_object = \<lparr>ho_object_id = 11, ho_rights = 7, ho_policy_hash = 19, ho_seal_epoch = 3,
     ho_capability_stamp = 37, ho_temporal_policy = 1\<rparr>"

definition helper_context_hash :: "helper_object \<Rightarrow> helper_state \<Rightarrow> byte" where
  [kani_defs]: "helper_context_hash object s = CONTEXT_DOMAIN XOR ho_object_id object XOR ho_rights object XOR
     ho_policy_hash object XOR hs_epoch s XOR hs_authority_root s XOR hs_revocation_root s XOR hs_transparency_root s XOR
     ho_capability_stamp object XOR hs_authority_id s XOR ho_temporal_policy object"

definition helper_authority_digest :: "helper_state \<Rightarrow> byte \<Rightarrow> byte" where
  [kani_defs]: "helper_authority_digest s policy_hash = AUTHORITY_DIGEST_DOMAIN XOR hs_authority_root s XOR hs_revocation_root s XOR
     hs_transparency_root s XOR hs_epoch s XOR hs_authority_id s XOR policy_hash"

definition helper_classical_kem_encaps :: "byte \<Rightarrow> helper_kem_pair" where
  [kani_defs]: "helper_classical_kem_encaps recipient_public =
     \<lparr>hk_ciphertext = recipient_public XOR 0xA5, hk_shared_secret = recipient_public XOR 0x5A\<rparr>"

definition helper_classical_kem_decaps :: "byte \<Rightarrow> byte \<Rightarrow> byte option" where
  [kani_defs]: "helper_classical_kem_decaps recipient_secret ciphertext =
     (let recipient_public = ciphertext XOR 0xA5
      in if recipient_secret = recipient_public then Some (recipient_public XOR 0x5A) else None)"

definition helper_hybrid_shared_secret :: "byte \<Rightarrow> byte \<Rightarrow> byte" where
  [kani_defs]: "helper_hybrid_shared_secret classical_secret pq_secret = HYBRID_SECRET_DOMAIN XOR classical_secret XOR pq_secret"

definition helper_derive_kek :: "byte \<Rightarrow> byte \<Rightarrow> byte \<Rightarrow> byte \<Rightarrow> byte" where
  [kani_defs]: "helper_derive_kek hybrid_secret authority_digest ctx policy_hash =
     KEK_DOMAIN XOR hybrid_secret XOR authority_digest XOR ctx XOR policy_hash"

definition helper_authority_aad_digest :: "helper_object \<Rightarrow> helper_state \<Rightarrow> byte \<Rightarrow> byte \<Rightarrow> byte \<Rightarrow> byte" where
  [kani_defs]: "helper_authority_aad_digest object s ctx classical_kem_ciphertext pq_kem_ciphertext =
     AUTHORITY_AAD_DOMAIN XOR ho_object_id object XOR ho_rights object XOR ho_policy_hash object XOR hs_epoch s XOR
     hs_authority_root s XOR hs_revocation_root s XOR hs_transparency_root s XOR ctx XOR ho_temporal_policy object XOR
     classical_kem_ciphertext XOR pq_kem_ciphertext"

definition helper_payload_aad_digest :: "helper_object \<Rightarrow> byte" where
  [kani_defs]: "helper_payload_aad_digest object = PAYLOAD_AAD_DOMAIN XOR ho_object_id object XOR ho_rights object XOR
     ho_policy_hash object XOR ho_seal_epoch object"

definition helper_surface_context_hash_binds_transparency_root :: bool where
  [kani_defs]: "helper_surface_context_hash_binds_transparency_root \<longleftrightarrow>
     (let altered = helper_sample_state\<lparr>hs_transparency_root := hs_transparency_root helper_sample_state XOR 1\<rparr>
      in helper_context_hash helper_sample_object helper_sample_state \<noteq> helper_context_hash helper_sample_object altered)"

definition helper_surface_context_hash_binds_capability_stamp :: bool where
  [kani_defs]: "helper_surface_context_hash_binds_capability_stamp \<longleftrightarrow>
     (let object = helper_sample_object\<lparr>ho_capability_stamp := ho_capability_stamp helper_sample_object XOR 1\<rparr>
      in helper_context_hash helper_sample_object helper_sample_state \<noteq> helper_context_hash object helper_sample_state)"

definition helper_surface_classical_kem_roundtrip_agrees :: "byte \<Rightarrow> bool" where
  [kani_defs]: "helper_surface_classical_kem_roundtrip_agrees recipient_public \<longleftrightarrow>
     (let pair = helper_classical_kem_encaps recipient_public in helper_classical_kem_decaps recipient_public (hk_ciphertext pair) = Some (hk_shared_secret pair))"

definition helper_surface_classical_kem_rejects_wrong_secret :: "byte \<Rightarrow> bool" where
  [kani_defs]: "helper_surface_classical_kem_rejects_wrong_secret recipient_public \<longleftrightarrow>
     (let pair = helper_classical_kem_encaps recipient_public in helper_classical_kem_decaps (recipient_public XOR 1) (hk_ciphertext pair) = None)"

definition helper_surface_classical_kem_rejects_ciphertext_tamper :: "byte \<Rightarrow> bool" where
  [kani_defs]: "helper_surface_classical_kem_rejects_ciphertext_tamper recipient_public \<longleftrightarrow>
     (let pair = helper_classical_kem_encaps recipient_public in helper_classical_kem_decaps recipient_public (hk_ciphertext pair XOR 1) = None)"

definition helper_surface_hybrid_secret_binds_classical_and_pq_shares :: "byte \<Rightarrow> byte \<Rightarrow> bool" where
  [kani_defs]: "helper_surface_hybrid_secret_binds_classical_and_pq_shares classical_secret pq_secret \<longleftrightarrow>
     (let original = helper_hybrid_shared_secret classical_secret pq_secret in
      original \<noteq> helper_hybrid_shared_secret (classical_secret XOR 1) pq_secret \<and>
      original \<noteq> helper_hybrid_shared_secret classical_secret (pq_secret XOR 1))"

definition helper_surface_derive_kek_is_deterministic :: "byte \<Rightarrow> byte \<Rightarrow> byte \<Rightarrow> byte \<Rightarrow> bool" where
  [kani_defs]: "helper_surface_derive_kek_is_deterministic hybrid_secret authority_digest ctx policy_hash \<longleftrightarrow>
     helper_derive_kek hybrid_secret authority_digest ctx policy_hash =
     helper_derive_kek hybrid_secret authority_digest ctx policy_hash"

definition helper_surface_derive_kek_binds_context_hash :: "byte \<Rightarrow> byte \<Rightarrow> byte \<Rightarrow> byte \<Rightarrow> bool" where
  [kani_defs]: "helper_surface_derive_kek_binds_context_hash hybrid_secret authority_digest ctx policy_hash \<longleftrightarrow>
     helper_derive_kek hybrid_secret authority_digest ctx policy_hash
       \<noteq> helper_derive_kek hybrid_secret authority_digest (ctx XOR 1) policy_hash"

definition helper_surface_derive_kek_binds_authority_digest :: "byte \<Rightarrow> byte \<Rightarrow> byte \<Rightarrow> byte \<Rightarrow> bool" where
  [kani_defs]: "helper_surface_derive_kek_binds_authority_digest hybrid_secret authority_digest ctx policy_hash \<longleftrightarrow>
     helper_derive_kek hybrid_secret authority_digest ctx policy_hash
       \<noteq> helper_derive_kek hybrid_secret (authority_digest XOR 1) ctx policy_hash"

definition helper_surface_authority_aad_binds_context_and_kem_ciphertexts :: "byte \<Rightarrow> byte \<Rightarrow> bool" where
  [kani_defs]: "helper_surface_authority_aad_binds_context_and_kem_ciphertexts classical pq \<longleftrightarrow>
     (let ctx = helper_context_hash helper_sample_object helper_sample_state;
          original = helper_authority_aad_digest helper_sample_object helper_sample_state ctx classical pq in
      original \<noteq> helper_authority_aad_digest helper_sample_object helper_sample_state (ctx XOR 1) classical pq \<and>
      original \<noteq> helper_authority_aad_digest helper_sample_object helper_sample_state ctx (classical XOR 1) pq \<and>
      original \<noteq> helper_authority_aad_digest helper_sample_object helper_sample_state ctx classical (pq XOR 1))"

definition helper_surface_payload_aad_binds_object_surface :: bool where
  [kani_defs]: "helper_surface_payload_aad_binds_object_surface \<longleftrightarrow>
     (let object = helper_sample_object\<lparr>ho_policy_hash := ho_policy_hash helper_sample_object XOR 1\<rparr>
      in helper_payload_aad_digest helper_sample_object \<noteq> helper_payload_aad_digest object)"

definition helper_surface_context_and_kek_domains_are_separated :: bool where
  [kani_defs]: "helper_surface_context_and_kek_domains_are_separated \<longleftrightarrow>
     (let ctx = helper_context_hash helper_sample_object helper_sample_state;
          kek = helper_derive_kek 0 (helper_authority_digest helper_sample_state (ho_policy_hash helper_sample_object)) ctx (ho_policy_hash helper_sample_object)
      in ctx \<noteq> kek)"

lemma helper_harnesses_hold:
  "helper_surface_context_hash_binds_transparency_root"
  "helper_surface_context_hash_binds_capability_stamp"
  "helper_surface_classical_kem_roundtrip_agrees p"
  "helper_surface_classical_kem_rejects_wrong_secret p"
  "helper_surface_classical_kem_rejects_ciphertext_tamper p"
  "helper_surface_hybrid_secret_binds_classical_and_pq_shares c q"
  "helper_surface_derive_kek_is_deterministic h a x p"
  "helper_surface_derive_kek_binds_context_hash h a x p"
  "helper_surface_derive_kek_binds_authority_digest h a x p"
  "helper_surface_authority_aad_binds_context_and_kem_ciphertexts c q"
  "helper_surface_payload_aad_binds_object_surface"
  "helper_surface_context_and_kek_domains_are_separated"
  by (simp_all add: kani_defs xor.assoc Let_def)

text \<open>
  With the authority digest and the context hash that belong to one state, the key and the authority data of the model
  do not depend on the state: its fields are added twice.
\<close>

lemma helper_key_ignores_state:
  "helper_derive_kek h (helper_authority_digest s (ho_policy_hash object)) (helper_context_hash object s) p =
   helper_derive_kek h (helper_authority_digest t (ho_policy_hash object)) (helper_context_hash object t) p"
  by (simp add: helper_derive_kek_def helper_authority_digest_def helper_context_hash_def ac_simps)

lemma helper_aad_ignores_roots:
  assumes "hs_authority_id s = hs_authority_id t"
  shows "helper_authority_aad_digest object s (helper_context_hash object s) c q =
    helper_authority_aad_digest object t (helper_context_hash object t) c q"
  using assms by (simp add: helper_authority_aad_digest_def helper_context_hash_def ac_simps)

subsection \<open>The transcript model\<close>

definition kani_authority_state :: "byte \<Rightarrow> u64 \<Rightarrow> authority_state" where
  "kani_authority_state seed epoch =
     \<lparr>st_authority_root = bytes_from 32 seed, st_revocation_root = bytes_from 32 (seed + 1),
      st_transparency_root = bytes_from 32 (seed + 2), st_epoch = epoch, st_authority_id = ascii ''kani-authority'',
      st_root_pk = bytes_from 32 (seed + 3), st_revocation_count = 0, st_prev_epoch_hash = bytes_from 32 (seed + 4)\<rparr>"

fun fold_bytes :: "u64 \<Rightarrow> bytes \<Rightarrow> u64" where
  "fold_bytes acc [] = acc"
| "fold_bytes acc (b # bs) = fold_bytes (acc * 16777619 XOR ucast b) bs"

fun fold_temporal_policy :: "u64 \<Rightarrow> temporal_policy \<Rightarrow> u64" where
  "fold_temporal_policy acc (Historical epoch) = acc * 131 + epoch"
| "fold_temporal_policy acc Current = acc * 131 + 1"
| "fold_temporal_policy acc (Window start end') = (acc * 131 + start) * 131 + end'"
| "fold_temporal_policy acc (ResealRequired after) = acc * 131 + after"

definition context_transcript_model :: "bytes \<Rightarrow> rights \<Rightarrow> bytes \<Rightarrow> authority_state \<Rightarrow> bytes \<Rightarrow> temporal_policy \<Rightarrow> u64" where
  "context_transcript_model object_id required_rights policy_hash s cap_stamp temporal_policy =
     (let acc = 0xcbf29ce484222325;
          acc = fold_bytes acc (ascii ''KYRIOTES-CSK2-CONTEXT-v1'');
          acc = fold_bytes acc object_id;
          acc = acc * 131 + ucast (rights_bits required_rights);
          acc = fold_bytes acc policy_hash;
          acc = acc * 131 + st_epoch s;
          acc = fold_bytes acc (st_authority_root s);
          acc = fold_bytes acc (st_revocation_root s);
          acc = fold_bytes acc (st_transparency_root s);
          acc = fold_bytes acc cap_stamp;
          acc = fold_bytes acc (st_authority_id s)
      in fold_temporal_policy acc temporal_policy)"

definition context_transcript_model_is_deterministic_for_equal_inputs :: bool where
  "context_transcript_model_is_deterministic_for_equal_inputs \<longleftrightarrow>
     context_transcript_model (ascii ''kani-context-object'') READ (bytes_from 32 11) (kani_authority_state 29 7) (bytes_from 32 41) Current
       = context_transcript_model (ascii ''kani-context-object'') READ (bytes_from 32 11) (kani_authority_state 29 7) (bytes_from 32 41) Current"

definition context_transcript_model_binds_policy_hash :: bool where
  "context_transcript_model_binds_policy_hash \<longleftrightarrow>
     context_transcript_model (ascii ''kani-context-object'') READ (bytes_from 32 11) (kani_authority_state 29 7) (bytes_from 32 41) Current
       \<noteq> context_transcript_model (ascii ''kani-context-object'') READ (bytes_from 32 12) (kani_authority_state 29 7) (bytes_from 32 41) Current"

definition context_transcript_model_binds_epoch :: bool where
  "context_transcript_model_binds_epoch \<longleftrightarrow>
     context_transcript_model (ascii ''kani-context-object'') READ (bytes_from 32 11) (kani_authority_state 29 7) (bytes_from 32 41) Current
       \<noteq> context_transcript_model (ascii ''kani-context-object'') READ (bytes_from 32 11) (kani_authority_state 29 8) (bytes_from 32 41) Current"

definition context_transcript_model_binds_capability_stamp :: bool where
  "context_transcript_model_binds_capability_stamp \<longleftrightarrow>
     context_transcript_model (ascii ''kani-context-object'') READ (bytes_from 32 11) (kani_authority_state 29 7) (bytes_from 32 41) Current
       \<noteq> context_transcript_model (ascii ''kani-context-object'') READ (bytes_from 32 11) (kani_authority_state 29 7) (bytes_from 32 42) Current"

text \<open>The fold is injective in its start, since the multiplier is odd; a difference made early stays.\<close>

lemma mult_unit_cancel:
  fixes m :: u64
  assumes "m * n = 1"
  shows "a * m = b * m \<longleftrightarrow> a = b"
proof
  assume "a * m = b * m"
  then have "a * (m * n) = b * (m * n)" by (simp only: mult.assoc [symmetric])
  with assms show "a = b" by simp
qed simp

lemma odd_multiplier: "a * 16777619 = b * 16777619 \<longleftrightarrow> a = (b :: u64)" "a * 131 = b * 131 \<longleftrightarrow> a = (b :: u64)"
  using mult_unit_cancel [where m = 16777619 and n = "0x87b58b5d359c449b"] mult_unit_cancel [where m = 131 and n = "0x3e88cb3c9484e2b"]
  by simp_all

lemma fold_bytes_inj: "fold_bytes a bs = fold_bytes b bs \<longleftrightarrow> a = b"
  by (induction bs arbitrary: a b) (simp_all add: odd_multiplier xor.commute)

text \<open>The same fold on natural numbers, reduced at every step, to evaluate it.\<close>

fun fold_nat :: "nat \<Rightarrow> nat list \<Rightarrow> nat" where
  "fold_nat acc [] = acc"
| "fold_nat acc (b # bs) = fold_nat ((acc * 16777619 mod 18446744073709551616) XOR b) bs"

lemma fold_bytes_nat: "unat (fold_bytes acc bs) = fold_nat (unat acc) (map unat bs)"
proof (induction bs arbitrary: acc)
  case (Cons b bs)
  have "unat b < 256" using unsigned_less [of b] by simp
  then show ?case using Cons by (simp add: unsigned_xor_eq unat_word_ariths unsigned_ucast_eq take_bit_eq_mod)
qed simp

lemma bytes_32: "bytes_from 32 s = [s, s+1, s+2, s+3, s+4, s+5, s+6, s+7, s+8, s+9, s+10, s+11, s+12, s+13, s+14, s+15, s+16, s+17,
    s+18, s+19, s+20, s+21, s+22, s+23, s+24, s+25, s+26, s+27, s+28, s+29, s+30, s+31]"
  by (simp add: bytes_from_def upt_conv_Cons)

lemma transcript_harnesses_hold:
  "context_transcript_model_is_deterministic_for_equal_inputs" "context_transcript_model_binds_policy_hash"
  "context_transcript_model_binds_epoch" "context_transcript_model_binds_capability_stamp"
proof -
  note unfold = context_transcript_model_def fold_bytes_inj odd_multiplier kani_authority_state_def Let_def
  note eval = word_unat_eq_iff fold_bytes_nat unat_word_ariths ascii_def bytes_32 READ_def
  show "context_transcript_model_is_deterministic_for_equal_inputs"
    by (simp add: context_transcript_model_is_deterministic_for_equal_inputs_def)
  show "context_transcript_model_binds_epoch"
    by (simp add: context_transcript_model_binds_epoch_def unfold)
  show "context_transcript_model_binds_policy_hash"
    by (simp add: context_transcript_model_binds_policy_hash_def unfold) (simp add: eval del: fold_bytes.simps)
  show "context_transcript_model_binds_capability_stamp"
    by (simp add: context_transcript_model_binds_capability_stamp_def unfold) (simp add: eval del: fold_bytes.simps)
qed

text \<open>The transcript does not tell the policy \<open>Current\<close> from the one for epoch 1, or two policies with one epoch.\<close>

lemma transcript_confuses_policies:
  "context_transcript_model oid r ph s cs Current = context_transcript_model oid r ph s cs (Historical 1)"
  "context_transcript_model oid r ph s cs (Historical e) = context_transcript_model oid r ph s cs (ResealRequired e)"
  by (simp_all add: context_transcript_model_def Let_def)

subsection \<open>The library's context hash\<close>

definition production_state :: "bytes \<Rightarrow> u64 \<Rightarrow> authority_state" where
  "production_state authority_root epoch =
     \<lparr>st_authority_root = authority_root, st_revocation_root = bytes_from 32 31, st_transparency_root = bytes_from 32 37,
      st_epoch = epoch, st_authority_id = ascii ''kani-authority'', st_root_pk = bytes_from 32 41, st_revocation_count = 0,
      st_prev_epoch_hash = bytes_from 32 43\<rparr>"

definition production_context :: "crypto \<Rightarrow> bytes \<Rightarrow> bytes \<Rightarrow> u64 \<Rightarrow> bytes \<Rightarrow> bytes" where
  "production_context C policy_hash authority_root epoch cap_stamp =
     context_hash C (ascii ''kani-context-object'') READ policy_hash (production_state authority_root epoch) cap_stamp Current"

definition context_hash_is_deterministic_for_equal_inputs :: "crypto \<Rightarrow> bool" where
  "context_hash_is_deterministic_for_equal_inputs C \<longleftrightarrow>
     production_context C (bytes_from 32 11) (bytes_from 32 29) 7 (bytes_from 32 47) =
     production_context C (bytes_from 32 11) (bytes_from 32 29) 7 (bytes_from 32 47) \<and>
     length (production_context C (bytes_from 32 11) (bytes_from 32 29) 7 (bytes_from 32 47)) = 32"

definition context_hash_distinguishes_policy_hash_inputs :: "crypto \<Rightarrow> bool" where
  "context_hash_distinguishes_policy_hash_inputs C \<longleftrightarrow>
     production_context C (bytes_from 32 11) (bytes_from 32 29) 7 (bytes_from 32 47)
       \<noteq> production_context C (bytes_from 32 12) (bytes_from 32 29) 7 (bytes_from 32 47)"

definition context_hash_distinguishes_epoch_inputs :: "crypto \<Rightarrow> bool" where
  "context_hash_distinguishes_epoch_inputs C \<longleftrightarrow>
     production_context C (bytes_from 32 11) (bytes_from 32 29) 7 (bytes_from 32 47)
       \<noteq> production_context C (bytes_from 32 11) (bytes_from 32 29) 8 (bytes_from 32 47)"

definition context_hash_distinguishes_authority_root_inputs :: "crypto \<Rightarrow> bool" where
  "context_hash_distinguishes_authority_root_inputs C \<longleftrightarrow>
     production_context C (bytes_from 32 11) (bytes_from 32 29) 7 (bytes_from 32 47)
       \<noteq> production_context C (bytes_from 32 11) (bytes_from 32 30) 7 (bytes_from 32 47)"

definition context_hash_distinguishes_capability_stamp_inputs :: "crypto \<Rightarrow> bool" where
  "context_hash_distinguishes_capability_stamp_inputs C \<longleftrightarrow>
     production_context C (bytes_from 32 11) (bytes_from 32 29) 7 (bytes_from 32 47)
       \<noteq> production_context C (bytes_from 32 11) (bytes_from 32 29) 7 (bytes_from 32 48)"

definition context_hash_output_is_always_32_bytes :: "crypto \<Rightarrow> bool" where
  "context_hash_output_is_always_32_bytes C \<longleftrightarrow>
     length (production_context C (bytes_from 32 11) (bytes_from 32 29) 7 (bytes_from 32 47)) = 32"

definition production_input :: "bytes \<Rightarrow> bytes \<Rightarrow> u64 \<Rightarrow> bytes \<Rightarrow> bytes" where
  "production_input policy_hash authority_root epoch cap_stamp = ascii ''KYRIOTES-CSK2-CONTEXT-v1'' @
     context_transcript (ascii ''kani-context-object'') READ policy_hash (production_state authority_root epoch) cap_stamp Current"

text \<open>The inputs whose digests the harnesses compare.\<close>

definition production_inputs :: "bytes set" where
  "production_inputs = {production_input (bytes_from 32 11) (bytes_from 32 29) 7 (bytes_from 32 47),
     production_input (bytes_from 32 12) (bytes_from 32 29) 7 (bytes_from 32 47),
     production_input (bytes_from 32 11) (bytes_from 32 29) 8 (bytes_from 32 47),
     production_input (bytes_from 32 11) (bytes_from 32 30) 7 (bytes_from 32 47),
     production_input (bytes_from 32 11) (bytes_from 32 29) 7 (bytes_from 32 48)}"

lemma production_state_wf: "length ar = 32 \<Longrightarrow> wf_state (production_state ar e)"
proof -
  have "utf8_valid (ascii ''kani-authority'')" by (rule utf8_valid_ascii) (simp add: ascii_def)
  then show "length ar = 32 \<Longrightarrow> ?thesis" by (simp add: wf_state_def wf_str_def production_state_def ascii_def)
qed

lemma production_input_inj:
  assumes "length ph = 32" "length ar = 32" "length cs = 32" "length ph' = 32" "length ar' = 32" "length cs' = 32"
    and "production_input ph ar e cs = production_input ph' ar' e' cs'"
  shows "ph = ph' \<and> ar = ar' \<and> e = e' \<and> cs = cs'"
  using context_transcript_inj [of "ascii ''kani-context-object''" "ascii ''kani-context-object''" ph ph' "production_state ar e"
      "production_state ar' e'" cs cs' READ Current READ Current] assms production_state_wf
  by (simp add: production_input_def) (simp add: production_state_def ascii_def)

lemma production_context_input: "production_context C ph ar e cs = sha256 C (production_input ph ar e cs)"
  by (simp add: production_context_def production_input_def context_hash_def)

lemma production_harnesses_hold:
  assumes "sha_32 C" "inj_on (sha256 C) production_inputs"
  shows "context_hash_is_deterministic_for_equal_inputs C" "context_hash_distinguishes_policy_hash_inputs C"
    "context_hash_distinguishes_epoch_inputs C" "context_hash_distinguishes_authority_root_inputs C"
    "context_hash_distinguishes_capability_stamp_inputs C" "context_hash_output_is_always_32_bytes C"
proof -
  have distinct: "production_context C ph ar e cs \<noteq> production_context C ph' ar' e' cs'"
    if "production_input ph ar e cs \<in> production_inputs" "production_input ph' ar' e' cs' \<in> production_inputs"
      "length ph = 32" "length ar = 32" "length cs = 32" "length ph' = 32" "length ar' = 32" "length cs' = 32"
      "(ph, ar, e, cs) \<noteq> (ph', ar', e', cs')" for ph ar e cs ph' ar' e' cs'
    using inj_onD [OF assms(2) _ that(1,2)] production_input_inj [OF that(3-8)] that(9)
    by (auto simp: production_context_input)
  show "context_hash_is_deterministic_for_equal_inputs C" "context_hash_output_is_always_32_bytes C"
    using assms(1) by (simp_all add: context_hash_is_deterministic_for_equal_inputs_def
        context_hash_output_is_always_32_bytes_def production_context_input sha_32_def)
  show "context_hash_distinguishes_policy_hash_inputs C" "context_hash_distinguishes_epoch_inputs C"
    "context_hash_distinguishes_authority_root_inputs C" "context_hash_distinguishes_capability_stamp_inputs C"
    unfolding context_hash_distinguishes_policy_hash_inputs_def context_hash_distinguishes_epoch_inputs_def
      context_hash_distinguishes_authority_root_inputs_def context_hash_distinguishes_capability_stamp_inputs_def
    by (rule distinct; simp add: production_inputs_def bytes_from_neq)+
qed

end
