(* ===== verification/Csk2_Kani_Engine.thy ===== *)
theory Csk2_Kani_Engine
  imports Csk2_Kani_Context Csk2_Transport
begin

text \<open>
  The Kani harnesses that call the library: \<open>kani_seal_equivalence.rs\<close>, \<open>kani_open_equivalence.rs\<close>,
  \<open>kani_verify_equivalence.rs\<close> and \<open>kani_add_epoch_wrapper_equivalence.rs\<close> with a verifier that rejects everything,
  \<open>kani_rotate_epoch_equivalence.rs\<close>, \<open>kani_rotate_epoch_full_equivalence.rs\<close> and \<open>kani_transparency_equivalence.rs\<close>
  on states and logs, and \<open>kani_decode_kyriotes_csk2_object_equivalence.rs\<close> on the decoder. The harnesses run on fixed inputs; the lemmas below say
  what they test for every input, and the harnesses follow.
\<close>

subsection \<open>Rejecting verifiers and logs\<close>

definition rejecting_verify_state :: verifier where
  "rejecting_verify_state s tp = Inl (Parse ''kani rejecting authority verifier'')"

interpretation rejecting_verifier: authority_verifier C rejecting_verify_state for C
  by unfold_locales (simp_all add: rejecting_verify_state_def)

text \<open>Whatever the inputs, nothing is sealed, opened, verified or re-wrapped, and a re-wrapped object is unchanged.\<close>

lemma rejecting_verifier_rejects:
  "seal_with_verifier C r1 r2 rejecting_verify_state pk m cap pf tp s req pol = Inl (Parse ''kani rejecting authority verifier'')"
  "verify_with_verifier C rejecting_verify_state object cap pf s tp = Inl (Parse ''kani rejecting authority verifier'')"
  "\<not> is_ok (open_with_verifier C rejecting_verify_state sk object cap pf s)"
  "\<not> is_ok (fst (add_epoch_wrapper_with_verifier C r1 r2 rejecting_verify_state sk pk object cap pf s t tp))"
  "snd (add_epoch_wrapper_with_verifier C r1 r2 rejecting_verify_state sk pk object cap pf s t tp) = object"
  by (auto simp: seal_with_verifier_def verify_with_verifier_def open_with_verifier_def add_epoch_wrapper_with_verifier_def
      rejecting_verify_state_def ok_or_def is_ok_iff bind_r_eq_Inr split: option.splits sum.splits)

record rejecting_log =
  rj_store_chain_hash_called :: bool

definition rejecting_log_new :: rejecting_log where
  "rejecting_log_new = \<lparr>rj_store_chain_hash_called = False\<rparr>"

definition rejecting_ops :: "rejecting_log log_ops" where
  "rejecting_ops = \<lparr>lo_commit_state = (\<lambda>log _. (Inl (Parse ''kani rejecting transparency log''), log)),
     lo_proof_for_state = (\<lambda>_ _. Inl (Parse ''kani rejecting transparency proof'')),
     lo_current_root = (\<lambda>_. zeros 32),
     lo_store_chain_hash = (\<lambda>log _ _ _. log\<lparr>rj_store_chain_hash_called := True\<rparr>),
     lo_chain_hash_for = default_chain_hash_for\<rparr>"

text \<open>A rotation on a log that refuses the state ends with the log's error and stores no chain hash.\<close>

lemma rejected_rotation:
  "begin_epoch_rotation_commit rejecting_ops log s = (Inl (Parse ''kani rejecting transparency log''), log)"
  "rotate_epoch_full C rejecting_ops rng log rkp s e w h = (Inl (Parse ''kani rejecting transparency log''), log)"
  by (simp_all add: begin_epoch_rotation_commit_def rotate_epoch_full_def finalize_epoch_rotation_commit_def rejecting_ops_def
      split: prod.splits)

subsection \<open>The fixtures\<close>

definition minimal_recipient_sk :: recipient_secret_key where
  "minimal_recipient_sk = \<lparr>sk_classical = replicate 32 7, sk_pq = None\<rparr>"

definition minimal_recipient_pk :: recipient_public_key where
  "minimal_recipient_pk = \<lparr>pk_classical = replicate 32 9, pk_pq = None\<rparr>"

definition kani_proof :: "byte \<Rightarrow> transparency_proof" where
  "kani_proof seed = \<lparr>tp_leaf_hash = bytes_from 32 seed, tp_sibling_hashes = [], tp_leaf_index = 0\<rparr>"

definition minimal_authority_state :: authority_state where
  "minimal_authority_state = kani_authority_state 11 7"

definition kani_wrapper :: "u64 \<Rightarrow> byte \<Rightarrow> authority_wrapper" where
  "kani_wrapper epoch seed = \<lparr>w_epoch = epoch, w_kem_ct_classical = bytes_from 32 seed, w_kem_ct_pq = [],
     w_wrap_nonce = bytes_from 12 (seed + 1), w_wrapped_dek = [4, 5, 6], w_context_hash = bytes_from 32 (seed + 2),
     w_capability_stamp = bytes_from 32 (seed + 3), w_transparency_proof = kani_proof (seed + 4)\<rparr>"

definition minimal_authority_wrapper :: authority_wrapper where
  "minimal_authority_wrapper = \<lparr>w_epoch = 7, w_kem_ct_classical = bytes_from 32 31, w_kem_ct_pq = [],
     w_wrap_nonce = bytes_from 12 33, w_wrapped_dek = [4, 5, 6], w_context_hash = bytes_from 32 34,
     w_capability_stamp = bytes_from 32 35, w_transparency_proof = kani_proof 21\<rparr>"

definition minimal_capability :: capability where
  "minimal_capability = \<lparr>cap_version = 1, cap_subject = ascii ''kani-subject'', cap_object_id = ascii ''kani-object'',
     cap_rights = READ, cap_policy_hash = bytes_from 32 31, cap_epoch_start = 1, cap_epoch_end = 10, cap_delegation_depth = 0,
     cap_parent_stamp = zeros 32, cap_nonce = bytes_from 16 41\<rparr>"

definition minimal_capability_proof :: capability_proof where
  "minimal_capability_proof =
     \<lparr>cp_inclusion = \<lparr>ip_leaf_hash = bytes_from 32 51, ip_sibling_hashes = [], ip_leaf_index = 0\<rparr>,
      cp_non_revocation = \<lparr>nw_stamp = bytes_from 32 61, nw_total_revoked = 0, nw_left = None, nw_right = None\<rparr>,
      cp_issuance = \<lparr>is_sig = bytes_from 64 71,
        is_epoch_cert = \<lparr>ec_epoch_pk = bytes_from 32 81, ec_epoch = 7, ec_validity_window = 1, ec_signature = bytes_from 64 91\<rparr>\<rparr>\<rparr>"

definition minimal_open_request :: open_request where
  "minimal_open_request = \<lparr>rq_object_id = ascii ''kani-object'', rq_required_rights = READ, rq_policy_hash = bytes_from 32 31,
     rq_epoch = 7\<rparr>"

definition minimal_arc_object :: "authority_wrapper list \<Rightarrow> csk2_object" where
  "minimal_arc_object ws = \<lparr>o_version = 1, o_suite = ascii ''KYRIOTES-CSK2-KANI-SUITE'', o_object_id = ascii ''kani-object'',
     o_required_rights = READ, o_policy_hash = bytes_from 32 31, o_seal_epoch = 7, o_temporal_policy = Current,
     o_authority_root = bytes_from 32 11, o_revocation_root = bytes_from 32 12, o_payload_nonce = bytes_from 12 101,
     o_payload_ciphertext = [1, 2, 3], o_wrappers = ws\<rparr>"

subsection \<open>The harnesses with the rejecting verifier\<close>

text \<open>Sealing draws random bytes, so these harnesses depend on the primitives and the two random streams.\<close>

definition seal_with_verifier_propagates_authority_rejection :: "crypto \<Rightarrow> rng \<Rightarrow> rng \<Rightarrow> bool" where
  "seal_with_verifier_propagates_authority_rejection C r1 r2 \<longleftrightarrow>
     \<not> is_ok (seal_with_verifier C r1 r2 rejecting_verify_state minimal_recipient_pk [1, 2, 3] (minimal_capability)
       minimal_capability_proof (kani_proof 21) (minimal_authority_state) (minimal_open_request) Current)"

definition seal_with_verifier_rejection_is_deterministic :: "crypto \<Rightarrow> rng \<Rightarrow> rng \<Rightarrow> bool" where
  "seal_with_verifier_rejection_is_deterministic C r1 r2 \<longleftrightarrow>
     (let first = \<not> is_ok (seal_with_verifier C r1 r2 rejecting_verify_state minimal_recipient_pk [1, 2, 3] (minimal_capability)
       minimal_capability_proof (kani_proof 21) (minimal_authority_state) (minimal_open_request) Current); second = \<not> is_ok (seal_with_verifier C r1 r2 rejecting_verify_state minimal_recipient_pk [1, 2, 3] (minimal_capability)
       minimal_capability_proof (kani_proof 21) (minimal_authority_state) (minimal_open_request) Current)
      in first = second \<and> first)"

definition seal_with_verifier_rejects_before_capability_validation_can_succeed :: "crypto \<Rightarrow> rng \<Rightarrow> rng \<Rightarrow> bool" where
  "seal_with_verifier_rejects_before_capability_validation_can_succeed C r1 r2 \<longleftrightarrow>
     \<not> is_ok (seal_with_verifier C r1 r2 rejecting_verify_state minimal_recipient_pk [1, 2, 3] (minimal_capability\<lparr>cap_object_id := ascii ''capability-object''\<rparr>)
       minimal_capability_proof (kani_proof 21) (minimal_authority_state) (minimal_open_request\<lparr>rq_object_id := ascii ''request-object''\<rparr>) Current)"

definition seal_with_verifier_rejects_invalid_authority_surface_without_panic :: "crypto \<Rightarrow> rng \<Rightarrow> rng \<Rightarrow> bool" where
  "seal_with_verifier_rejects_invalid_authority_surface_without_panic C r1 r2 \<longleftrightarrow>
     \<not> is_ok (seal_with_verifier C r1 r2 rejecting_verify_state minimal_recipient_pk [1, 2, 3] (minimal_capability)
       minimal_capability_proof (kani_proof 21) (minimal_authority_state\<lparr>st_transparency_root := zeros 32\<rparr>) (minimal_open_request) Current)"

definition open_with_verifier_propagates_authority_rejection :: "crypto \<Rightarrow> bool" where
  "open_with_verifier_propagates_authority_rejection C \<longleftrightarrow>
     \<not> is_ok (open_with_verifier C rejecting_verify_state minimal_recipient_sk (minimal_arc_object [minimal_authority_wrapper]) (minimal_capability)
       minimal_capability_proof (minimal_authority_state))"

definition open_with_verifier_rejection_is_deterministic :: "crypto \<Rightarrow> bool" where
  "open_with_verifier_rejection_is_deterministic C \<longleftrightarrow>
     (let first = \<not> is_ok (open_with_verifier C rejecting_verify_state minimal_recipient_sk (minimal_arc_object [minimal_authority_wrapper]) (minimal_capability)
       minimal_capability_proof (minimal_authority_state)); second = \<not> is_ok (open_with_verifier C rejecting_verify_state minimal_recipient_sk (minimal_arc_object [minimal_authority_wrapper]) (minimal_capability)
       minimal_capability_proof (minimal_authority_state))
      in first = second \<and> first)"

definition open_with_verifier_rejects_before_capability_validation_can_succeed :: "crypto \<Rightarrow> bool" where
  "open_with_verifier_rejects_before_capability_validation_can_succeed C \<longleftrightarrow>
     \<not> is_ok (open_with_verifier C rejecting_verify_state minimal_recipient_sk ((minimal_arc_object [minimal_authority_wrapper])\<lparr>o_object_id := ascii ''object-a''\<rparr>) (minimal_capability\<lparr>cap_object_id := ascii ''object-b''\<rparr>)
       minimal_capability_proof (minimal_authority_state))"

definition open_with_verifier_rejects_invalid_authority_surface_without_panic :: "crypto \<Rightarrow> bool" where
  "open_with_verifier_rejects_invalid_authority_surface_without_panic C \<longleftrightarrow>
     \<not> is_ok (open_with_verifier C rejecting_verify_state minimal_recipient_sk (minimal_arc_object [minimal_authority_wrapper]) (minimal_capability)
       minimal_capability_proof (minimal_authority_state\<lparr>st_transparency_root := zeros 32\<rparr>))"

definition verify_with_verifier_propagates_authority_rejection :: "crypto \<Rightarrow> bool" where
  "verify_with_verifier_propagates_authority_rejection C \<longleftrightarrow>
     \<not> is_ok (verify_with_verifier C rejecting_verify_state (minimal_arc_object []) (minimal_capability)
       minimal_capability_proof (minimal_authority_state) (kani_proof 21))"

definition verify_with_verifier_rejection_is_deterministic :: "crypto \<Rightarrow> bool" where
  "verify_with_verifier_rejection_is_deterministic C \<longleftrightarrow>
     (let first = \<not> is_ok (verify_with_verifier C rejecting_verify_state (minimal_arc_object []) (minimal_capability)
       minimal_capability_proof (minimal_authority_state) (kani_proof 21)); second = \<not> is_ok (verify_with_verifier C rejecting_verify_state (minimal_arc_object []) (minimal_capability)
       minimal_capability_proof (minimal_authority_state) (kani_proof 21))
      in first = second \<and> first)"

definition verify_with_verifier_rejects_before_capability_proof_can_succeed :: "crypto \<Rightarrow> bool" where
  "verify_with_verifier_rejects_before_capability_proof_can_succeed C \<longleftrightarrow>
     \<not> is_ok (verify_with_verifier C rejecting_verify_state ((minimal_arc_object [])\<lparr>o_object_id := ascii ''object-a''\<rparr>) (minimal_capability\<lparr>cap_object_id := ascii ''object-b''\<rparr>)
       minimal_capability_proof (minimal_authority_state) (kani_proof 21))"

definition verify_with_verifier_rejects_invalid_authority_surface_without_panic :: "crypto \<Rightarrow> bool" where
  "verify_with_verifier_rejects_invalid_authority_surface_without_panic C \<longleftrightarrow>
     \<not> is_ok (verify_with_verifier C rejecting_verify_state (minimal_arc_object []) (minimal_capability)
       minimal_capability_proof (minimal_authority_state\<lparr>st_transparency_root := zeros 32\<rparr>) (kani_proof 21))"

definition add_epoch_wrapper_with_verifier_propagates_from_authority_rejection :: "crypto \<Rightarrow> rng \<Rightarrow> rng \<Rightarrow> bool" where
  "add_epoch_wrapper_with_verifier_propagates_from_authority_rejection C r1 r2 \<longleftrightarrow>
     \<not> is_ok (fst (add_epoch_wrapper_with_verifier C r1 r2 rejecting_verify_state minimal_recipient_sk minimal_recipient_pk
       (minimal_arc_object [kani_wrapper 7 111]) (minimal_capability) minimal_capability_proof (kani_authority_state 11 7) (kani_authority_state 21 8) (kani_proof 31)))"

definition add_epoch_wrapper_with_verifier_rejection_is_deterministic :: "crypto \<Rightarrow> rng \<Rightarrow> rng \<Rightarrow> bool" where
  "add_epoch_wrapper_with_verifier_rejection_is_deterministic C r1 r2 \<longleftrightarrow>
     (let first = \<not> is_ok (fst (add_epoch_wrapper_with_verifier C r1 r2 rejecting_verify_state minimal_recipient_sk minimal_recipient_pk
       (minimal_arc_object [kani_wrapper 7 111]) (minimal_capability) minimal_capability_proof (kani_authority_state 11 7) (kani_authority_state 21 8) (kani_proof 31))); second = \<not> is_ok (fst (add_epoch_wrapper_with_verifier C r1 r2 rejecting_verify_state minimal_recipient_sk minimal_recipient_pk
       (minimal_arc_object [kani_wrapper 7 111]) (minimal_capability) minimal_capability_proof (kani_authority_state 11 7) (kani_authority_state 21 8) (kani_proof 31)))
      in first = second \<and> first)"

definition add_epoch_wrapper_with_verifier_rejects_before_capability_validation_can_succeed :: "crypto \<Rightarrow> rng \<Rightarrow> rng \<Rightarrow> bool" where
  "add_epoch_wrapper_with_verifier_rejects_before_capability_validation_can_succeed C r1 r2 \<longleftrightarrow>
     \<not> is_ok (fst (add_epoch_wrapper_with_verifier C r1 r2 rejecting_verify_state minimal_recipient_sk minimal_recipient_pk
       ((minimal_arc_object [kani_wrapper 7 111])\<lparr>o_object_id := ascii ''object-a''\<rparr>) (minimal_capability\<lparr>cap_object_id := ascii ''object-b''\<rparr>) minimal_capability_proof (kani_authority_state 11 7) (kani_authority_state 21 8) (kani_proof 31)))"

definition add_epoch_wrapper_with_verifier_does_not_change_wrapper_count_on_rejection :: "crypto \<Rightarrow> rng \<Rightarrow> rng \<Rightarrow> bool" where
  "add_epoch_wrapper_with_verifier_does_not_change_wrapper_count_on_rejection C r1 r2 \<longleftrightarrow>
     (let (result, object) = add_epoch_wrapper_with_verifier C r1 r2 rejecting_verify_state minimal_recipient_sk minimal_recipient_pk
       (minimal_arc_object [kani_wrapper 7 111]) (minimal_capability) minimal_capability_proof (kani_authority_state 11 7) (kani_authority_state 21 8) (kani_proof 31)
      in \<not> is_ok result \<and> length (o_wrappers (minimal_arc_object [kani_wrapper 7 111])) = length (o_wrappers object))"

lemma rejection_harnesses_hold:
  "seal_with_verifier_propagates_authority_rejection C r1 r2"
  "seal_with_verifier_rejection_is_deterministic C r1 r2"
  "seal_with_verifier_rejects_before_capability_validation_can_succeed C r1 r2"
  "seal_with_verifier_rejects_invalid_authority_surface_without_panic C r1 r2"
  "open_with_verifier_propagates_authority_rejection C"
  "open_with_verifier_rejection_is_deterministic C"
  "open_with_verifier_rejects_before_capability_validation_can_succeed C"
  "open_with_verifier_rejects_invalid_authority_surface_without_panic C"
  "verify_with_verifier_propagates_authority_rejection C"
  "verify_with_verifier_rejection_is_deterministic C"
  "verify_with_verifier_rejects_before_capability_proof_can_succeed C"
  "verify_with_verifier_rejects_invalid_authority_surface_without_panic C"
  "add_epoch_wrapper_with_verifier_propagates_from_authority_rejection C r1 r2"
  "add_epoch_wrapper_with_verifier_rejection_is_deterministic C r1 r2"
  "add_epoch_wrapper_with_verifier_rejects_before_capability_validation_can_succeed C r1 r2"
  "add_epoch_wrapper_with_verifier_does_not_change_wrapper_count_on_rejection C r1 r2"
  unfolding seal_with_verifier_propagates_authority_rejection_def
    seal_with_verifier_rejection_is_deterministic_def
    seal_with_verifier_rejects_before_capability_validation_can_succeed_def
    seal_with_verifier_rejects_invalid_authority_surface_without_panic_def
    open_with_verifier_propagates_authority_rejection_def
    open_with_verifier_rejection_is_deterministic_def
    open_with_verifier_rejects_before_capability_validation_can_succeed_def
    open_with_verifier_rejects_invalid_authority_surface_without_panic_def
    verify_with_verifier_propagates_authority_rejection_def
    verify_with_verifier_rejection_is_deterministic_def
    verify_with_verifier_rejects_before_capability_proof_can_succeed_def
    verify_with_verifier_rejects_invalid_authority_surface_without_panic_def
    add_epoch_wrapper_with_verifier_propagates_from_authority_rejection_def
    add_epoch_wrapper_with_verifier_rejection_is_deterministic_def
    add_epoch_wrapper_with_verifier_rejects_before_capability_validation_can_succeed_def
    add_epoch_wrapper_with_verifier_does_not_change_wrapper_count_on_rejection_def
  using rejecting_verifier_rejects(3-5) by (auto simp: rejecting_verifier_rejects(1,2) split: prod.splits) (metis fst_conv snd_conv)+

subsection \<open>The harnesses on states and logs\<close>

definition transparency_fixture :: authority_state where
  "transparency_fixture = \<lparr>st_authority_root = bytes_from 32 11, st_revocation_root = bytes_from 32 12,
     st_transparency_root = zeros 32, st_epoch = 7, st_authority_id = ascii ''kani-authority'', st_root_pk = bytes_from 32 13,
     st_revocation_count = 42, st_prev_epoch_hash = bytes_from 32 14\<rparr>"

definition rotation_fixture :: authority_state where
  "rotation_fixture = \<lparr>st_authority_root = bytes_from 32 11, st_revocation_root = bytes_from 32 12,
     st_transparency_root = bytes_from 32 13, st_epoch = 7, st_authority_id = ascii ''kani-authority'', st_root_pk = bytes_from 32 14,
     st_revocation_count = 42, st_prev_epoch_hash = bytes_from 32 15\<rparr>"

definition commit_fixture :: authority_state where
  "commit_fixture = rotation_fixture\<lparr>st_transparency_root := zeros 32, st_epoch := 8\<rparr>"

definition transparency_bind_root_preserves_authority_root :: bool where
  "transparency_bind_root_preserves_authority_root \<longleftrightarrow>
     (let s = transparency_fixture; committed = bind_transparency_root_to_state s (bytes_from 32 91)
      in st_authority_root committed = st_authority_root s)"

definition transparency_bind_root_preserves_revocation_root :: bool where
  "transparency_bind_root_preserves_revocation_root \<longleftrightarrow>
     (let s = transparency_fixture; committed = bind_transparency_root_to_state s (bytes_from 32 91)
      in st_revocation_root committed = st_revocation_root s)"

definition transparency_bind_root_preserves_epoch_and_authority_identity :: bool where
  "transparency_bind_root_preserves_epoch_and_authority_identity \<longleftrightarrow>
     (let s = transparency_fixture; committed = bind_transparency_root_to_state s (bytes_from 32 91)
      in st_epoch committed = st_epoch s \<and> st_authority_id committed = st_authority_id s)"

definition transparency_bind_root_preserves_revocation_count_and_prev_hash :: bool where
  "transparency_bind_root_preserves_revocation_count_and_prev_hash \<longleftrightarrow>
     (let s = transparency_fixture; committed = bind_transparency_root_to_state s (bytes_from 32 91)
      in st_revocation_count committed = st_revocation_count s \<and> st_prev_epoch_hash committed = st_prev_epoch_hash s)"

definition transparency_bind_root_sets_supplied_transparency_root :: bool where
  "transparency_bind_root_sets_supplied_transparency_root \<longleftrightarrow>
     (let s = transparency_fixture; committed = bind_transparency_root_to_state s (bytes_from 32 91)
      in st_transparency_root committed = bytes_from 32 91)"

definition transparency_bind_root_is_deterministic_for_equal_inputs :: bool where
  "transparency_bind_root_is_deterministic_for_equal_inputs \<longleftrightarrow>
     bind_transparency_root_to_state transparency_fixture (bytes_from 32 91) =
     bind_transparency_root_to_state transparency_fixture (bytes_from 32 91)"

definition rotate_epoch_state_sets_requested_epoch :: bool where
  "rotate_epoch_state_sets_requested_epoch \<longleftrightarrow>
     (let base = rotation_fixture; rotated = rotated_authority_state base 8 (bytes_from 32 21)
      in st_epoch rotated = 8)"

definition rotate_epoch_state_preserves_authority_roots_and_root_key :: bool where
  "rotate_epoch_state_preserves_authority_roots_and_root_key \<longleftrightarrow>
     (let base = rotation_fixture; rotated = rotated_authority_state base 8 (bytes_from 32 21)
      in st_authority_root rotated = st_authority_root base \<and>
        st_revocation_root rotated = st_revocation_root base \<and> st_root_pk rotated = st_root_pk base)"

definition rotate_epoch_state_preserves_authority_identity_and_revocation_count :: bool where
  "rotate_epoch_state_preserves_authority_identity_and_revocation_count \<longleftrightarrow>
     (let base = rotation_fixture; rotated = rotated_authority_state base 8 (bytes_from 32 21)
      in st_authority_id rotated = st_authority_id base \<and> st_revocation_count rotated = st_revocation_count base)"

definition rotate_epoch_state_resets_transparency_root :: bool where
  "rotate_epoch_state_resets_transparency_root \<longleftrightarrow>
     (let base = rotation_fixture; rotated = rotated_authority_state base 8 (bytes_from 32 21)
      in st_transparency_root rotated = zeros 32)"

definition rotate_epoch_state_binds_previous_epoch_hash :: bool where
  "rotate_epoch_state_binds_previous_epoch_hash \<longleftrightarrow>
     (let base = rotation_fixture; rotated = rotated_authority_state base 8 (bytes_from 32 21)
      in st_prev_epoch_hash rotated = bytes_from 32 21)"

definition rotate_epoch_state_is_deterministic_for_equal_inputs :: bool where
  "rotate_epoch_state_is_deterministic_for_equal_inputs \<longleftrightarrow>
     rotated_authority_state rotation_fixture 8 (bytes_from 32 21) = rotated_authority_state rotation_fixture 8 (bytes_from 32 21)"

definition rotate_epoch_full_commit_phase_propagates_transparency_commit_rejection :: bool where
  "rotate_epoch_full_commit_phase_propagates_transparency_commit_rejection \<longleftrightarrow>
     \<not> is_ok (fst (begin_epoch_rotation_commit rejecting_ops rejecting_log_new commit_fixture))"

definition rotate_epoch_full_commit_phase_rejection_is_deterministic :: bool where
  "rotate_epoch_full_commit_phase_rejection_is_deterministic \<longleftrightarrow>
     (let first = \<not> is_ok (fst (begin_epoch_rotation_commit rejecting_ops rejecting_log_new commit_fixture));
          second = \<not> is_ok (fst (begin_epoch_rotation_commit rejecting_ops rejecting_log_new commit_fixture))
      in first = second \<and> first)"

definition rotate_epoch_full_commit_phase_does_not_store_chain_hash_when_commit_fails :: bool where
  "rotate_epoch_full_commit_phase_does_not_store_chain_hash_when_commit_fails \<longleftrightarrow>
     (let (result, log) = begin_epoch_rotation_commit rejecting_ops rejecting_log_new commit_fixture
      in \<not> is_ok result \<and> \<not> rj_store_chain_hash_called log)"

definition rotate_epoch_full_commit_phase_rejection_hides_commit_material :: bool where
  "rotate_epoch_full_commit_phase_rejection_hides_commit_material \<longleftrightarrow>
     (case fst (begin_epoch_rotation_commit rejecting_ops rejecting_log_new commit_fixture) of Inr _ \<Rightarrow> False | Inl _ \<Rightarrow> True)"

lemma state_harnesses_hold:
  "transparency_bind_root_preserves_authority_root"
  "transparency_bind_root_preserves_revocation_root"
  "transparency_bind_root_preserves_epoch_and_authority_identity"
  "transparency_bind_root_preserves_revocation_count_and_prev_hash"
  "transparency_bind_root_sets_supplied_transparency_root"
  "transparency_bind_root_is_deterministic_for_equal_inputs"
  "rotate_epoch_state_sets_requested_epoch"
  "rotate_epoch_state_preserves_authority_roots_and_root_key"
  "rotate_epoch_state_preserves_authority_identity_and_revocation_count"
  "rotate_epoch_state_resets_transparency_root"
  "rotate_epoch_state_binds_previous_epoch_hash"
  "rotate_epoch_state_is_deterministic_for_equal_inputs"
  "rotate_epoch_full_commit_phase_propagates_transparency_commit_rejection"
  "rotate_epoch_full_commit_phase_rejection_is_deterministic"
  "rotate_epoch_full_commit_phase_does_not_store_chain_hash_when_commit_fails"
  "rotate_epoch_full_commit_phase_rejection_hides_commit_material"
  by (simp_all add: transparency_bind_root_preserves_authority_root_def
    transparency_bind_root_preserves_revocation_root_def
    transparency_bind_root_preserves_epoch_and_authority_identity_def
    transparency_bind_root_preserves_revocation_count_and_prev_hash_def
    transparency_bind_root_sets_supplied_transparency_root_def
    transparency_bind_root_is_deterministic_for_equal_inputs_def
    rotate_epoch_state_sets_requested_epoch_def
    rotate_epoch_state_preserves_authority_roots_and_root_key_def
    rotate_epoch_state_preserves_authority_identity_and_revocation_count_def
    rotate_epoch_state_resets_transparency_root_def
    rotate_epoch_state_binds_previous_epoch_hash_def
    rotate_epoch_state_is_deterministic_for_equal_inputs_def
    rotate_epoch_full_commit_phase_propagates_transparency_commit_rejection_def
    rotate_epoch_full_commit_phase_rejection_is_deterministic_def
    rotate_epoch_full_commit_phase_does_not_store_chain_hash_when_commit_fails_def
    rotate_epoch_full_commit_phase_rejection_hides_commit_material_def
    rejected_rotation rejecting_log_new_def rotated_authority_state_def Let_def)

subsection \<open>The harnesses on the codec\<close>

definition malformed_buffer_32 :: bytes where
  "malformed_buffer_32 = map word_of_nat [0..<32]"

text \<open>Every input without the magic is rejected.\<close>

lemma decode_needs_magic: "is_ok (decode_kyriotes_csk2_object bs) \<Longrightarrow> take 4 bs = MAGIC"
  by (auto simp: is_ok_iff decode_kyriotes_csk2_object_def decode_kyriotes_csk2_object_with_limits_def split: if_splits)

definition decode_kyriotes_csk2_object_rejects_empty_input :: bool where
  "decode_kyriotes_csk2_object_rejects_empty_input \<longleftrightarrow> \<not> is_ok (decode_kyriotes_csk2_object [])"

definition decode_kyriotes_csk2_object_rejects_one_byte_input :: bool where
  "decode_kyriotes_csk2_object_rejects_one_byte_input \<longleftrightarrow> \<not> is_ok (decode_kyriotes_csk2_object [0])"

definition decode_kyriotes_csk2_object_rejects_two_byte_input :: bool where
  "decode_kyriotes_csk2_object_rejects_two_byte_input \<longleftrightarrow> \<not> is_ok (decode_kyriotes_csk2_object [0x41, 0x52])"

definition decode_kyriotes_csk2_object_rejects_tiny_malformed_input :: bool where
  "decode_kyriotes_csk2_object_rejects_tiny_malformed_input \<longleftrightarrow> \<not> is_ok (decode_kyriotes_csk2_object [0x41, 0x52, 0x43, 0, 1, 2, 3, 4])"

definition decode_kyriotes_csk2_object_rejects_bounded_malformed_input :: bool where
  "decode_kyriotes_csk2_object_rejects_bounded_malformed_input \<longleftrightarrow> \<not> is_ok (decode_kyriotes_csk2_object malformed_buffer_32)"

definition decode_kyriotes_csk2_object_malformed_rejection_is_deterministic :: bool where
  "decode_kyriotes_csk2_object_malformed_rejection_is_deterministic \<longleftrightarrow> (let first = \<not> is_ok (decode_kyriotes_csk2_object malformed_buffer_32);
          second = \<not> is_ok (decode_kyriotes_csk2_object malformed_buffer_32)
      in first = second \<and> first)"

lemma decode_harnesses_hold:
  "decode_kyriotes_csk2_object_rejects_empty_input"
  "decode_kyriotes_csk2_object_rejects_one_byte_input"
  "decode_kyriotes_csk2_object_rejects_two_byte_input"
  "decode_kyriotes_csk2_object_rejects_tiny_malformed_input"
  "decode_kyriotes_csk2_object_rejects_bounded_malformed_input"
  "decode_kyriotes_csk2_object_malformed_rejection_is_deterministic"
proof -
  have "take 4 malformed_buffer_32 = [0, 1, 2, 3]" by (simp add: malformed_buffer_32_def take_map upt_conv_Cons)
  then have bounded: "\<not> is_ok (decode_kyriotes_csk2_object malformed_buffer_32)"
    using decode_needs_magic [of malformed_buffer_32] by (auto simp: MAGIC_def ascii_def)
  then show "decode_kyriotes_csk2_object_rejects_bounded_malformed_input"
    "decode_kyriotes_csk2_object_malformed_rejection_is_deterministic"
    by (simp_all add: decode_kyriotes_csk2_object_rejects_bounded_malformed_input_def
        decode_kyriotes_csk2_object_malformed_rejection_is_deterministic_def Let_def)
qed (auto simp: decode_kyriotes_csk2_object_rejects_empty_input_def decode_kyriotes_csk2_object_rejects_one_byte_input_def
    decode_kyriotes_csk2_object_rejects_two_byte_input_def decode_kyriotes_csk2_object_rejects_tiny_malformed_input_def
    MAGIC_def ascii_def dest!: decode_needs_magic)

end
