(* ===== verification/Csk2_Kani_Codec.thy ===== *)
theory Csk2_Kani_Codec
  imports Csk2_Kani_Witness Csk2_Wire
begin

text \<open>
  The Kani harnesses on encoding: \<open>kani_encode_kyriotes_csk2_object_equivalence.rs\<close>, which
  calls the codec, and \<open>kani_encode_decode_roundtrip_equivalence.rs\<close>, which calls a field by
  field copy in its place.  A harness is a \<^typ>\<open>bool\<close>, the conjunction of its assertions; an
  \<open>unwrap\<close> that panics makes it false.
\<close>

subsection \<open>The encoder and the decoder\<close>

definition minimal_kyriotes_csk2_object_with_object_id :: "bytes \<Rightarrow> csk2_object" where
  "minimal_kyriotes_csk2_object_with_object_id object_id =
     \<lparr>o_version = 1, o_suite = ascii ''KYRIOTES-CSK2-KANI-SUITE'', o_object_id = object_id,
      o_required_rights = READ, o_policy_hash = bytes_from 32 11, o_seal_epoch = 7, o_temporal_policy = Current,
      o_authority_root = bytes_from 32 29, o_revocation_root = bytes_from 32 41, o_payload_nonce = bytes_from 12 53,
      o_payload_ciphertext = [1, 2, 3, 4], o_wrappers = []\<rparr>"

definition minimal_kyriotes_csk2_object :: csk2_object where
  "minimal_kyriotes_csk2_object = minimal_kyriotes_csk2_object_with_object_id (ascii ''kani-object'')"

text \<open>\<open>decode_kyriotes_csk2_object(&encode_kyriotes_csk2_object(&object)).unwrap()\<close>.\<close>

definition decode_encoded :: "csk2_object \<Rightarrow> csk2_object option" where
  "decode_encoded x = (case encode_kyriotes_csk2_object x of None \<Rightarrow> None
     | Some encoded \<Rightarrow> (case decode_kyriotes_csk2_object encoded of Inl _ \<Rightarrow> None | Inr y \<Rightarrow> Some y))"

lemma decode_encoded_fits: "object_fits default_limits x \<Longrightarrow> decode_encoded x = Some x"
  using decode_object_iff [of "MAGIC @ put_object x" default_limits x]
  by (simp add: decode_encoded_def decode_kyriotes_csk2_object_def encode_object_fits)

definition encode_kyriotes_csk2_object_is_deterministic_for_equal_input :: bool where
  "encode_kyriotes_csk2_object_is_deterministic_for_equal_input \<longleftrightarrow>
     (case (encode_kyriotes_csk2_object minimal_kyriotes_csk2_object, encode_kyriotes_csk2_object minimal_kyriotes_csk2_object) of
        (Some first, Some second) \<Rightarrow> first = second | _ \<Rightarrow> False)"

definition encode_kyriotes_csk2_object_returns_non_empty_bytes :: bool where
  "encode_kyriotes_csk2_object_returns_non_empty_bytes \<longleftrightarrow>
     (case encode_kyriotes_csk2_object minimal_kyriotes_csk2_object of Some encoded \<Rightarrow> encoded \<noteq> [] | None \<Rightarrow> False)"

definition encode_kyriotes_csk2_object_starts_with_kyriotes_csk2_magic :: bool where
  "encode_kyriotes_csk2_object_starts_with_kyriotes_csk2_magic \<longleftrightarrow>
     (case encode_kyriotes_csk2_object minimal_kyriotes_csk2_object of None \<Rightarrow> False
      | Some encoded \<Rightarrow> length encoded \<ge> 4 \<and> encoded ! 0 = 0x4B \<and> encoded ! 1 = 0x43 \<and> encoded ! 2 = 0x53 \<and> encoded ! 3 = 0x32)"

definition encode_kyriotes_csk2_object_version_one_layout_is_stable :: bool where
  "encode_kyriotes_csk2_object_version_one_layout_is_stable \<longleftrightarrow>
     (case encode_kyriotes_csk2_object minimal_kyriotes_csk2_object of None \<Rightarrow> False
      | Some encoded \<Rightarrow> length encoded \<ge> 6 \<and> encoded ! 4 = 1 \<and> encoded ! 5 = 0)"

definition encode_kyriotes_csk2_object_binds_object_id :: bool where
  "encode_kyriotes_csk2_object_binds_object_id \<longleftrightarrow>
     (case (encode_kyriotes_csk2_object (minimal_kyriotes_csk2_object_with_object_id (ascii ''kani-object-a'')),
            encode_kyriotes_csk2_object (minimal_kyriotes_csk2_object_with_object_id (ascii ''kani-object-b''))) of
        (Some first_encoded, Some second_encoded) \<Rightarrow> first_encoded \<noteq> second_encoded | _ \<Rightarrow> False)"

definition encode_decode_roundtrip_preserves_semantic_fields :: bool where
  "encode_decode_roundtrip_preserves_semantic_fields \<longleftrightarrow>
     (let x = minimal_kyriotes_csk2_object in
      case decode_encoded x of None \<Rightarrow> False
      | Some d \<Rightarrow> o_version d = o_version x \<and> o_seal_epoch d = o_seal_epoch x \<and> o_policy_hash d = o_policy_hash x \<and>
          o_authority_root d = o_authority_root x \<and> o_revocation_root d = o_revocation_root x \<and>
          o_payload_nonce d = o_payload_nonce x \<and> rights_bits (o_required_rights d) = rights_bits (o_required_rights x) \<and>
          o_payload_ciphertext d = o_payload_ciphertext x \<and> o_wrappers d = [])"

definition encode_decode_roundtrip_is_idempotent :: bool where
  "encode_decode_roundtrip_is_idempotent \<longleftrightarrow>
     (case decode_encoded minimal_kyriotes_csk2_object of None \<Rightarrow> False
      | Some d \<Rightarrow> encode_kyriotes_csk2_object minimal_kyriotes_csk2_object = encode_kyriotes_csk2_object d)"

definition encode_decode_roundtrip_binds_rights :: bool where
  "encode_decode_roundtrip_binds_rights \<longleftrightarrow>
     (let x = minimal_kyriotes_csk2_object\<lparr>o_required_rights := rights_union READ DELEGATE\<rparr> in
      case decode_encoded x of None \<Rightarrow> False
      | Some d \<Rightarrow> rights_bits (o_required_rights d) = rights_bits (o_required_rights x))"

definition encode_decode_roundtrip_binds_seal_epoch :: bool where
  "encode_decode_roundtrip_binds_seal_epoch \<longleftrightarrow>
     (case decode_encoded (minimal_kyriotes_csk2_object\<lparr>o_seal_epoch := 42\<rparr>) of None \<Rightarrow> False
      | Some d \<Rightarrow> o_seal_epoch d = 42)"

definition encode_decode_roundtrip_binds_policy_hash :: bool where
  "encode_decode_roundtrip_binds_policy_hash \<longleftrightarrow>
     (let x = minimal_kyriotes_csk2_object; x = x\<lparr>o_policy_hash := (o_policy_hash x)[0 := xor (o_policy_hash x ! 0) 1]\<rparr> in
      case decode_encoded x of None \<Rightarrow> False
      | Some d \<Rightarrow> o_policy_hash d ! 0 = o_policy_hash x ! 0)"

lemma minimal_object_fits:
  "\<forall>b \<in> set n. b < 0x80 \<Longrightarrow> length n \<le> 1024 \<Longrightarrow>
     object_fits default_limits (minimal_kyriotes_csk2_object_with_object_id n)"
  by (auto simp: minimal_kyriotes_csk2_object_with_object_id_def object_fits_def wire_bytes_def default_limits_def
      strict_default_def ascii_def intro!: utf8_valid_ascii)

lemma minimal_object_ok: "object_fits default_limits minimal_kyriotes_csk2_object"
  unfolding minimal_kyriotes_csk2_object_def by (rule minimal_object_fits) (auto simp: ascii_def)

lemma updated_object_ok:
  "object_fits default_limits (minimal_kyriotes_csk2_object\<lparr>o_required_rights := r\<rparr>)"
  "object_fits default_limits (minimal_kyriotes_csk2_object\<lparr>o_seal_epoch := e\<rparr>)"
  "length h = 32 \<Longrightarrow> object_fits default_limits (minimal_kyriotes_csk2_object\<lparr>o_policy_hash := h\<rparr>)"
  using minimal_object_ok by (simp_all add: object_fits_def)

lemma encoder_harnesses_hold:
  "encode_kyriotes_csk2_object_is_deterministic_for_equal_input"
  "encode_kyriotes_csk2_object_returns_non_empty_bytes"
  "encode_kyriotes_csk2_object_starts_with_kyriotes_csk2_magic"
  "encode_kyriotes_csk2_object_version_one_layout_is_stable"
  "encode_kyriotes_csk2_object_binds_object_id"
proof -
  note e = encode_object_fits [OF minimal_object_ok]
  show "encode_kyriotes_csk2_object_is_deterministic_for_equal_input" "encode_kyriotes_csk2_object_returns_non_empty_bytes"
    by (simp_all add: encode_kyriotes_csk2_object_is_deterministic_for_equal_input_def
        encode_kyriotes_csk2_object_returns_non_empty_bytes_def e MAGIC_def ascii_def)
  show "encode_kyriotes_csk2_object_starts_with_kyriotes_csk2_magic"
    by (simp add: encode_kyriotes_csk2_object_starts_with_kyriotes_csk2_magic_def e MAGIC_def ascii_def nth_append)
  have "put_object minimal_kyriotes_csk2_object = 1 # 0 # tl (tl (put_object minimal_kyriotes_csk2_object))"
    by (simp add: put_object_def put_u16_def minimal_kyriotes_csk2_object_def minimal_kyriotes_csk2_object_with_object_id_def
        numeral_2_eq_2)
  then obtain r where r: "put_object minimal_kyriotes_csk2_object = 1 # 0 # r" by blast
  show "encode_kyriotes_csk2_object_version_one_layout_is_stable"
    by (simp add: encode_kyriotes_csk2_object_version_one_layout_is_stable_def e r nth_append)
  have fits: "object_fits default_limits (minimal_kyriotes_csk2_object_with_object_id (ascii ''kani-object-a''))"
    "object_fits default_limits (minimal_kyriotes_csk2_object_with_object_id (ascii ''kani-object-b''))"
    by (auto intro!: minimal_object_fits simp: ascii_def)
  have "minimal_kyriotes_csk2_object_with_object_id (ascii ''kani-object-a'') \<noteq>
      minimal_kyriotes_csk2_object_with_object_id (ascii ''kani-object-b'')"
    by (simp add: minimal_kyriotes_csk2_object_with_object_id_def ascii_def)
  with object_encoding_inj [OF fits] show "encode_kyriotes_csk2_object_binds_object_id"
    by (auto simp: encode_kyriotes_csk2_object_binds_object_id_def encode_object_fits [OF fits(1)] encode_object_fits [OF fits(2)])
qed

lemma decoder_harnesses_hold:
  "encode_decode_roundtrip_preserves_semantic_fields" "encode_decode_roundtrip_is_idempotent"
  "encode_decode_roundtrip_binds_rights" "encode_decode_roundtrip_binds_seal_epoch" "encode_decode_roundtrip_binds_policy_hash"
proof -
  note fits = minimal_object_ok updated_object_ok
  show "encode_decode_roundtrip_preserves_semantic_fields" "encode_decode_roundtrip_is_idempotent"
    by (simp_all add: encode_decode_roundtrip_preserves_semantic_fields_def encode_decode_roundtrip_is_idempotent_def
        decode_encoded_fits [OF minimal_object_ok] Let_def)
      (simp add: minimal_kyriotes_csk2_object_def minimal_kyriotes_csk2_object_with_object_id_def)
  show "encode_decode_roundtrip_binds_rights" "encode_decode_roundtrip_binds_seal_epoch"
    by (simp_all add: encode_decode_roundtrip_binds_rights_def encode_decode_roundtrip_binds_seal_epoch_def
        decode_encoded_fits fits Let_def)
  have "length (o_policy_hash minimal_kyriotes_csk2_object) = 32" using minimal_object_ok by (simp add: object_fits_def)
  then show "encode_decode_roundtrip_binds_policy_hash"
    by (simp add: encode_decode_roundtrip_binds_policy_hash_def decode_encoded_fits fits Let_def)
qed

subsection \<open>The modelled round trip\<close>

definition model_transparency_proof :: "byte \<Rightarrow> transparency_proof" where
  "model_transparency_proof seed = \<lparr>tp_leaf_hash = bytes_from 32 seed, tp_sibling_hashes = [], tp_leaf_index = 0\<rparr>"

definition model_wrapper :: "u64 \<Rightarrow> authority_wrapper" where
  "model_wrapper epoch = \<lparr>w_epoch = epoch, w_kem_ct_classical = bytes_from 32 71, w_kem_ct_pq = [72, 73, 74, 75],
     w_wrap_nonce = bytes_from 12 83, w_wrapped_dek = [84, 85, 86, 87], w_context_hash = bytes_from 32 97,
     w_capability_stamp = bytes_from 32 109, w_transparency_proof = model_transparency_proof 127\<rparr>"

definition bounded_semantic_object :: "temporal_policy \<Rightarrow> authority_wrapper list \<Rightarrow> csk2_object" where
  "bounded_semantic_object policy wrappers =
     \<lparr>o_version = 1, o_suite = ascii ''KYRIOTES-CSK2-KANI-SUITE'', o_object_id = ascii ''kani-sealed-object'',
      o_required_rights = rights_union READ DELEGATE, o_policy_hash = bytes_from 32 11, o_seal_epoch = 7,
      o_temporal_policy = policy, o_authority_root = bytes_from 32 29, o_revocation_root = bytes_from 32 41,
      o_payload_nonce = bytes_from 12 53, o_payload_ciphertext = [1, 2, 3, 4], o_wrappers = wrappers\<rparr>"

definition model_wire_roundtrip :: "csk2_object \<Rightarrow> csk2_object" where
  "model_wire_roundtrip x =
     \<lparr>o_version = o_version x, o_suite = o_suite x, o_object_id = o_object_id x, o_required_rights = o_required_rights x,
      o_policy_hash = o_policy_hash x, o_seal_epoch = o_seal_epoch x, o_temporal_policy = o_temporal_policy x,
      o_authority_root = o_authority_root x, o_revocation_root = o_revocation_root x, o_payload_nonce = o_payload_nonce x,
      o_payload_ciphertext = o_payload_ciphertext x, o_wrappers = o_wrappers x\<rparr>"

definition assert_representative_semantic_fields_preserved :: "csk2_object \<Rightarrow> csk2_object \<Rightarrow> bool" where
  "assert_representative_semantic_fields_preserved original decoded \<longleftrightarrow>
     o_version decoded = o_version original \<and>
     rights_bits (o_required_rights decoded) = rights_bits (o_required_rights original) \<and>
     o_seal_epoch decoded = o_seal_epoch original \<and>
     o_policy_hash decoded ! 0 = o_policy_hash original ! 0 \<and>
     o_authority_root decoded ! 0 = o_authority_root original ! 0 \<and>
     o_revocation_root decoded ! 0 = o_revocation_root original ! 0 \<and>
     o_payload_nonce decoded ! 0 = o_payload_nonce original ! 0 \<and>
     length (o_payload_ciphertext decoded) = length (o_payload_ciphertext original) \<and>
     o_payload_ciphertext decoded ! 0 = o_payload_ciphertext original ! 0 \<and>
     length (o_wrappers decoded) = length (o_wrappers original)"

fun assert_temporal_policy_preserved :: "temporal_policy \<Rightarrow> temporal_policy \<Rightarrow> bool" where
  "assert_temporal_policy_preserved Current Current \<longleftrightarrow> True"
| "assert_temporal_policy_preserved (Historical l) (Historical r) \<longleftrightarrow> r = l"
| "assert_temporal_policy_preserved (Window ls le) (Window rs re) \<longleftrightarrow> rs = ls \<and> re = le"
| "assert_temporal_policy_preserved (ResealRequired la) (ResealRequired ra) \<longleftrightarrow> ra = la"
| "assert_temporal_policy_preserved _ _ \<longleftrightarrow> False"

definition encode_decode_roundtrip_preserves_minimal_semantic_object :: bool where
  "encode_decode_roundtrip_preserves_minimal_semantic_object \<longleftrightarrow>
     (let x = bounded_semantic_object Current []; decoded = model_wire_roundtrip x in
      assert_representative_semantic_fields_preserved x decoded \<and>
      assert_temporal_policy_preserved (o_temporal_policy x) (o_temporal_policy decoded))"

definition encode_decode_roundtrip_preserves_wrapper_semantic_object :: bool where
  "encode_decode_roundtrip_preserves_wrapper_semantic_object \<longleftrightarrow>
     (let x = bounded_semantic_object (Historical 7) [model_wrapper 7]; decoded = model_wire_roundtrip x in
      assert_representative_semantic_fields_preserved x decoded \<and>
      assert_temporal_policy_preserved (o_temporal_policy x) (o_temporal_policy decoded) \<and>
      w_epoch (o_wrappers decoded ! 0) = w_epoch (o_wrappers x ! 0) \<and>
      w_capability_stamp (o_wrappers decoded ! 0) ! 0 = w_capability_stamp (o_wrappers x ! 0) ! 0)"

definition encode_decode_roundtrip_preserves_window_policy_semantic_object :: bool where
  "encode_decode_roundtrip_preserves_window_policy_semantic_object \<longleftrightarrow>
     (let x = bounded_semantic_object (Window 7 9) [model_wrapper 7]; decoded = model_wire_roundtrip x in
      assert_representative_semantic_fields_preserved x decoded \<and>
      assert_temporal_policy_preserved (o_temporal_policy x) (o_temporal_policy decoded) \<and>
      w_epoch (o_wrappers decoded ! 0) = w_epoch (o_wrappers x ! 0))"

definition encode_decode_roundtrip_is_canonical_for_bounded_semantic_object :: bool where
  "encode_decode_roundtrip_is_canonical_for_bounded_semantic_object \<longleftrightarrow>
     (let x = bounded_semantic_object (ResealRequired 8) []; decoded = model_wire_roundtrip x;
          redecoded = model_wire_roundtrip decoded in
      assert_representative_semantic_fields_preserved x decoded \<and>
      assert_temporal_policy_preserved (o_temporal_policy x) (o_temporal_policy decoded) \<and>
      assert_representative_semantic_fields_preserved decoded redecoded \<and>
      assert_temporal_policy_preserved (o_temporal_policy decoded) (o_temporal_policy redecoded))"

text \<open>
  The copy is the identity, so its harnesses pass whatever the codec does.  They carry over to
  the code because on an object within the limits the codec is the same function; beyond
  the limits the two part.
\<close>

lemma model_wire_roundtrip_id [simp]: "model_wire_roundtrip x = x"
  by (cases x) (simp add: model_wire_roundtrip_def)

lemma fields_preserved_refl [simp]:
  "assert_representative_semantic_fields_preserved x x" "assert_temporal_policy_preserved p p"
  by (simp add: assert_representative_semantic_fields_preserved_def) (cases p; simp)

lemma roundtrip_harnesses_hold:
  "encode_decode_roundtrip_preserves_minimal_semantic_object"
  "encode_decode_roundtrip_preserves_wrapper_semantic_object"
  "encode_decode_roundtrip_preserves_window_policy_semantic_object"
  "encode_decode_roundtrip_is_canonical_for_bounded_semantic_object"
  by (simp_all add: encode_decode_roundtrip_preserves_minimal_semantic_object_def
      encode_decode_roundtrip_preserves_wrapper_semantic_object_def
      encode_decode_roundtrip_preserves_window_policy_semantic_object_def
      encode_decode_roundtrip_is_canonical_for_bounded_semantic_object_def Let_def)

lemma modelled_roundtrip_iff:
  "decode_encoded x = Some (model_wire_roundtrip x) \<longleftrightarrow> object_fits default_limits x"
  using decode_encoded_fits [of x] decode_object_iff [of _ default_limits x]
  by (auto simp: decode_encoded_def decode_kyriotes_csk2_object_def split: option.splits sum.splits)

lemma bounded_object_fits:
  assumes "\<forall>w \<in> set ws. wrapper_fits default_limits w" "length ws \<le> 1024"
  shows "object_fits default_limits (bounded_semantic_object p ws)"
  using assms by (auto simp: bounded_semantic_object_def object_fits_def wire_bytes_def default_limits_def
      strict_default_def ascii_def intro!: utf8_valid_ascii)

lemma model_wrapper_fits: "wrapper_fits default_limits (model_wrapper epoch)"
  by (simp add: model_wrapper_def model_transparency_proof_def wrapper_fits_def proof_fits_def wire_bytes_def
      default_limits_def strict_default_def)

lemma bounded_objects_decode:
  "decode_encoded (bounded_semantic_object p []) = Some (bounded_semantic_object p [])"
  "decode_encoded (bounded_semantic_object p [model_wrapper e]) = Some (bounded_semantic_object p [model_wrapper e])"
  by (auto intro!: decode_encoded_fits bounded_object_fits model_wrapper_fits)

lemma modelled_roundtrip_overshoots:
  fixes x :: csk2_object
  defines "x \<equiv> minimal_kyriotes_csk2_object\<lparr>o_object_id := replicate 1025 0x61\<rparr>"
  shows "decode_encoded x = None" "model_wire_roundtrip x = x"
proof -
  have "object_fits server_profile x"
    by (auto simp: x_def minimal_kyriotes_csk2_object_def minimal_kyriotes_csk2_object_with_object_id_def object_fits_def
        wire_bytes_def server_profile_def ascii_def intro!: utf8_valid_ascii)
  moreover have "\<not> object_fits default_limits x"
    by (simp add: x_def object_fits_def wire_bytes_def default_limits_def strict_default_def)
  ultimately show "decode_encoded x = None"
    using object_encoding_inj [of default_limits _ server_profile x]
    by (auto simp: decode_encoded_def decode_kyriotes_csk2_object_def decode_object_iff split: option.splits sum.splits)
qed simp

end
