(* ===== verification/Spec2Isabelle.thy ===== *)
theory Spec2Isabelle
  imports Csk2_Sample Csk2_Fuzz_Freshness Csk2_Fuzz_Stress Csk2_Kani_Engine Csk2_Kani_Codec
    "HOL-Library.Disjoint_Sets"
begin

text \<open>
  \<^bold>\<open>Verification of the Kyriotes-CSK2 crate.\<close>

  Kyriotes-CSK2 is a Rust library (under \<open>src/src/\<close>) for cryptographic objects whose opening needs two
  things: the recipient's key and a capability that an epoch authority has issued, has not revoked,
  and that is valid at the epoch of opening. Its parts and the theories that model them:

  \<^item> \<open>core/\<close> (errors, the 16-bit rights mask, temporal policies): \<open>Csk2_Core\<close>.
  \<^item> \<open>encoding/codec.rs\<close> and \<open>encoding/wire.rs\<close> (length-prefixed little-endian fields; sealed objects,
    capabilities and threshold signature sets; decode limits and profiles): \<open>Csk2_Codec\<close>, \<open>Csk2_Wire\<close>.
  \<^item> \<open>kyriotes_csk2/model.rs\<close> (all plain structs, and the hash transcripts): \<open>Csk2_Model\<close>.
  \<^item> \<open>kyriotes_csk2/authority.rs\<close> (offline root key, epoch keys, certificates, compromise notices):
    \<open>Csk2_Authority\<close>; \<open>tsig.rs\<close> (threshold co-signing): \<open>Csk2_Tsig\<close>.
  \<^item> The Merkle trees of \<open>transparency.rs\<close> and their second copy in \<open>capability_tree.rs\<close>: \<open>Csk2_Merkle\<close>.
  \<^item> \<open>transparency.rs\<close>, \<open>async_transparency.rs\<close> (the log of authority states): \<open>Csk2_Transparency\<close>.
  \<^item> \<open>capability_tree.rs\<close> (issued capabilities, sorted revocation set, the standalone verifiers):
    \<open>Csk2_Capability_Tree\<close>.
  \<^item> \<open>kem.rs\<close> (X25519 with optional ML-KEM-768): \<open>Csk2_Kem\<close>.
  \<^item> \<open>verify.rs\<close> (evidence registry, the three authority verifiers): \<open>Csk2_Verify\<close>.
  \<^item> \<open>engine.rs\<close>, the holder's side (validation, delegation, sealing, opening, re-wrapping, resealing,
    compromise-aware variants): \<open>Csk2_Engine\<close>; the authority's side (issuing, revoking, rotating, with
    their commits): \<open>Csk2_Lifecycle\<close>. \<open>Csk2_Transport\<close> joins the engine to the wire formats: the lengths that
    the array types promise, and a sealed object's way through encoding and decoding.
  \<^item> \<open>src/fuzz/\<close>, the fuzz targets with their support crate: \<open>Csk2_Fuzz\<close> (\<open>fuzz/src/lib.rs\<close>, the codec target and
    the log state machine), \<open>Csk2_Fuzz_Delegation\<close> (the fixtures that the semantic targets share, and
    delegation chains), \<open>Csk2_Fuzz_Lifecycle\<close> (revoking; rotating), \<open>Csk2_Fuzz_Freshness\<close> (repeated rotation),
    \<open>Csk2_Fuzz_Compromise\<close> (compromise notices), \<open>Csk2_Fuzz_Rewrap\<close> (\<open>fuzz_add_epoch_wrapper_and_commit_semantic.rs\<close>),
    \<open>Csk2_Fuzz_Reseal\<close> (both \<open>fuzz_open_and_reseal\<close> targets), \<open>Csk2_Fuzz_Tsig\<close> (threshold certificate chains),
    \<open>Csk2_Fuzz_Open\<close> (\<open>fuzz_verify_and_open.rs\<close>) and \<open>Csk2_Fuzz_Stress\<close> (\<open>fuzz_cross_system_lifecycle_stress.rs\<close>).
  \<^item> \<open>src/src/kani/\<close>, the bounded model-checking harnesses: \<open>Csk2_Kani_Witness\<close> (capability witnesses and Merkle
    paths), \<open>Csk2_Kani_Crypto\<close> (sealing on eight-bit models), \<open>Csk2_Kani_Context\<close> (context hash and derived keys),
    \<open>Csk2_Kani_Engine\<close> (sealing, opening, verifying, re-wrapping, rotation, log, decoder) and \<open>Csk2_Kani_Codec\<close>
    (encoding and round trips).
  \<^item> \<open>Csk2_Prelude\<close> has the Rust library functions the crate uses (\<open>position\<close>, \<open>partition_point\<close>,
    \<open>saturating_add\<close>, little-endian bytes, UTF-8 validity, \<open>?\<close> as \<open>bind_r\<close>) and the shared lemmas;
    \<open>Csk2_Sample\<close> has a concrete instance of the primitives and a small authority, at which the
    properties are applied.

  \<^bold>\<open>How code becomes definitions.\<close> A struct is a record whose field names carry a prefix, an enum is a
  datatype, a function or method is a definition of the same name (with a prefix such as \<open>tree_\<close>, \<open>log_\<close>
  or \<open>csk2_\<close> where the bare name would clash). Integers keep their width (\<open>u16\<close>, \<open>u32\<close>, \<open>u64\<close> are words);
  \<open>usize\<close> is \<open>nat\<close>; byte strings and fixed-size arrays are byte lists. \<open>Result\<close> is \<open>csk2_error + 'a\<close>, with
  the source's messages. A method with \<open>&mut self\<close> returns the state it leaves, also on errors.
  A loop is a recursive function that terminates by a measure; no fuel is used anywhere, so every
  definition is total and what it returns is what the code returns. Where the code panics (a count
  above \<open>u32::MAX\<close> in the two encoders) the result is \<open>None\<close>. A fuzz target is a function of the fuzzer's
  input that returns \<open>Passed\<close> or \<open>Panicked\<close> with the failed assertion; a Kani harness is a truth value, a
  function of what it draws with \<open>kani::any()\<close>, in which \<open>kani::assume\<close> is an implication.

  \<^bold>\<open>Parameters.\<close> SHA-256, HKDF, ChaCha20-Poly1305, Ed25519, X25519 and ML-KEM-768 come from other crates.
  They are the fields of the record \<open>crypto\<close>, an argument of every definition that uses them; what is
  relied on is named: \<open>sha_32\<close>, \<open>sig_correct\<close>, \<open>dh_correct\<close>, \<open>mlkem_correct\<close>, \<open>aead_correct\<close>,
  \<open>aead_accepts\<close>. Collision resistance is never assumed globally: a theorem that needs it says on which
  finite set of messages SHA-256 must be injective. Randomness is a tape of bytes. The log trait is a
  record of operations, the verifier trait a function, the cargo feature \<open>insecure-stub-verifier\<close> a boolean.

  \<^bold>\<open>Interfaces.\<close> Each is a locale, interpreted on the model's definitions: \<open>codec\<close> (an encoder and a
  decoder; for every field type and every message), \<open>merkle_scheme\<close> (both copies), \<open>signed_statement\<close>
  (certificates, epoch roots, notices), \<open>transparency_log\<close> (the in-memory log, synchronous and async),
  \<open>revocation_set\<close> (the capability tree), \<open>authority_verifier\<close> (stub, basic and cryptographic). Client
  code is verified inside them: the round trip of sealing for every verifier, the lifecycle for every
  log.

  \<^bold>\<open>What is shown.\<close>
  \<^item> Sealing and opening (C1 to C4): the round trip, the exact condition for opening, what an accepted
    verification guarantees, and that a wrapper is bound to its context.
  \<^item> Capabilities (C5 to C8): soundness of inclusion proofs; the condition under which non-revocation
    witnesses are sound, and that the code does not enforce it, so that a revoked capability validates;
    delegation.
  \<^item> Re-wrapping and resealing (C9 to C11): when the new wrapper opens, that nothing else changes, and that
    resealing is opening and sealing. Compromise notices (C12, C13): what is checked, and that it is not the key
    the documentation names. The default verifier (C14) and temporal policies (C15, C16): which epochs open, and
    that sealing does not look at the policy.
  \<^item> The authority (C17 to C23): from issuing to opening, rotation, permanence of revocation, the
    published state as an invariant of \<open>authority_run\<close>, the tree's own proofs, that an authority always
    has a next step, and the divergence of tree and state when a commit is refused.
  \<^item> The log (C24 to C27): refinement of the partial map \<open>log_view\<close>, append-only, lasting proofs, and that
    its root binds the history.
  \<^item> Wire formats (C28 to C31): decoding accepts exactly the canonical encodings within the limits, the
    profiles are nested, sealed objects survive transport but hybrid ones not under the embedded profile.
  \<^item> Merkle trees (C32, C33) and signatures (C34 to C36).
  \<^item> The repository's own checks (C37 to C40): exactly which inputs make the stress, the threshold and the
    delegation target panic, and that the driver of the parsing targets is total. The theories \<open>Csk2_Fuzz_*\<close>
    and \<open>Csk2_Kani_*\<close> hold the outcome of every other target and harness, with what each rests on. The
    assertions that say that a wrong key does not open or that two ciphertexts differ are about the strength of
    the primitives; the lemmas on those targets keep them as hypotheses or as the one way to panic.

  \<^bold>\<open>Bounds.\<close> Indices are stored in 64 bits and counts on the wire in 32, so the completeness of Merkle
  proofs needs at most \<open>2 ^ 64\<close> leaves (\<open>log_small\<close>, \<open>tree_small\<close>), threshold keys are fewer than \<open>2 ^ 32\<close>, and
  encodings are injective for strings shorter than \<open>2 ^ 32\<close> bytes (\<open>wf_str\<close>); no Rust vector on a 64-bit
  machine reaches the first. A message shorter than \<open>2 ^ 37\<close> bytes stays below the block counter of ChaCha20.

  \<^bold>\<open>Not modelled.\<close> Overwriting of secrets in memory (\<open>Drop\<close>, zeroize), running out of memory, timing;
  re-exports in \<open>lib.rs\<close> and the \<open>mod.rs\<close> files, which have no behaviour; the fuzz targets that hand bytes to
  the decoders and drop every result (their driver is modelled, and the decoders are total by
  definition); unit and integration tests, which run the functions modelled here on fixed inputs; and the
  Coq and EasyCrypt developments of the repository.
\<close>

section \<open>Sealing and opening\<close>

text \<open>
  C1. Round trip of the sealing engine. If \<open>seal_with_verifier\<close> returns an object for a recipient
  key under some authority state, and the temporal policy admits the sealing epoch itself, then
  \<open>open_with_verifier\<close> with the matching secret key, the same capability, proof and state returns
  exactly the sealed message. This holds for every evidence registry of the cryptographic verifier
  and every randomness, given that X25519, ML-KEM-768 and ChaCha20-Poly1305 are correct.
\<close>

theorem sealed_object_opens:
  assumes "crypto_correct C" "keys_match C pk sk"
    and "seal_with_verifier C rng os (crypto_verify_state C v) pk m cap proof tp s req pol = Inr object"
    and "openable_epoch pol (st_epoch s) (st_epoch s)"
  shows "open_with_verifier C (crypto_verify_state C v) sk object cap proof s = Inr m"
  using assms by (rule crypto_verifier.seal_open_roundtrip)

theorem sealed_object_opens_witness:
  "\<exists>pf object. seal_with_verifier sample_crypto sample_rng sample_rng
      (crypto_verify_state sample_crypto sample_verifier) (kp_public sample_keys) [1, 2, 3] sample_cap pf
      (tc_proof sample_commit) (tc_state sample_commit) sample_req Current = Inr object \<and>
    open_with_verifier sample_crypto (crypto_verify_state sample_crypto sample_verifier)
      (kp_secret sample_keys) object sample_cap pf (tc_state sample_commit) = Inr [1, 2, 3]"
proof -
  have "length [1, 2, 3 :: byte] < 2 ^ 37" by simp
  from sample_seal_open [OF this] obtain pf object where
    sealed: "seal_with_verifier sample_crypto sample_rng sample_rng
      (crypto_verify_state sample_crypto sample_verifier) (kp_public sample_keys) [1, 2, 3] sample_cap pf
      (tc_proof sample_commit) (tc_state sample_commit) sample_req Current = Inr object" by metis
  have "openable_epoch Current (st_epoch (tc_state sample_commit)) (st_epoch (tc_state sample_commit))"
    by (simp add: openable_epoch_simps)
  with sealed sealed_object_opens [OF sample_crypto_correct sample_facts(4) sealed] show ?thesis by blast
qed

text \<open>
  C2. Two gates. Opening succeeds with message \<open>m\<close> exactly when the object's wrapper for the
  presented epoch unwraps with the recipient's key to a data key that decrypts the payload to \<open>m\<close>,
  and the public check \<open>verify_with_verifier\<close> (authority evidence, transparency inclusion, temporal
  policy and capability) accepts with that wrapper's transparency proof. Neither the key alone nor
  the capability alone opens anything.
\<close>

theorem open_needs_key_and_authority:
  "open_with_verifier C (crypto_verify_state C v) sk object cap proof s = Inr m \<longleftrightarrow>
     opens_to C sk object cap s m \<and>
     (\<exists>w. find_wrapper object (st_epoch s) = Some w \<and>
        verify_with_verifier C (crypto_verify_state C v) object cap proof s (w_transparency_proof w) = Inr ())"
  by (rule crypto_verifier.open_iff)

text \<open>
  C3. What an accepted public verification guarantees: the authority has evidence registered for
  exactly this authority and epoch, the state is the leaf its transparency root commits to, the
  epoch is one the temporal policy opens, and the capability names the object and policy of the
  object, carries every required right, covers the epoch, is included under the authority root
  and was issued under a certificate of the state's root key.
\<close>

theorem verification_gates:
  assumes "verify_with_verifier C (crypto_verify_state C v) object cap proof s tp = Inr ()"
  shows "registry_find (cv_evidence_registry v) (st_authority_id s) (st_epoch s) \<noteq> None \<and>
    verify_transparency_proof C s tp = Inr () \<and>
    openable_epoch (o_temporal_policy object) (o_seal_epoch object) (st_epoch s) \<and>
    cap_object_id cap = o_object_id object \<and> cap_policy_hash cap = o_policy_hash object \<and>
    right_set (o_required_rights object) \<subseteq> right_set (cap_rights cap) \<and>
    cap_epoch_start cap \<le> st_epoch s \<and> st_epoch s \<le> cap_epoch_end cap \<and>
    verify_capability_inclusion C cap (cp_inclusion proof) (st_authority_root s) = Inr () \<and>
    verify_epoch_cert C (st_root_pk s) (is_epoch_cert (cp_issuance proof)) = Inr ()"
proof -
  obtain x where x: "crypto_verify_state C v s tp = Inr x" "verify_verified C object cap proof x = Inr ()"
    using assms by (auto simp: verify_with_verifier_def bind_r_eq_Inr)
  have "registry_find (cv_evidence_registry v) (st_authority_id s) (st_epoch s) \<noteq> None"
    "verify_transparency_proof C s tp = Inr ()"
    using x(1) by (auto simp: crypto_verify_state_ok)
  with x(2) crypto_verifier.verified_as_state [OF x(1)] show ?thesis
    by (simp add: verify_verified_ok validate_capability_ok grants_def open_request_for_object_def
        issued_and_included_def verify_capability_issuance_ok Let_def flip: contains_all_subset)
qed

theorem verification_gates_witness:
  "\<exists>pf object w. find_wrapper object 4 = Some w \<and>
     verify_with_verifier sample_crypto (crypto_verify_state sample_crypto sample_verifier) object sample_cap pf
       (tc_state sample_commit) (w_transparency_proof w) = Inr () \<and>
     right_set (o_required_rights object) \<subseteq> right_set (cap_rights sample_cap)"
proof -
  obtain pf object w where
    "find_wrapper object (st_epoch (tc_state sample_commit)) = Some w"
    and v: "verify_with_verifier sample_crypto (crypto_verify_state sample_crypto sample_verifier) object sample_cap pf
       (tc_state sample_commit) (w_transparency_proof w) = Inr ()"
    by (rule sample_verifies)
  with verification_gates [OF v] show ?thesis unfolding sample_epoch by blast
qed

text \<open>
  C4. Context binding. A wrapper stores the hash of its context, and opening recomputes it. Unless
  SHA-256 collides on the two context messages, an object header and state whose context hash
  equals the stored one agree with those of the wrapper's making in object id, required rights,
  policy hash, temporal policy, epoch, all three roots, authority id and capability stamp.
\<close>

theorem context_hash_binds:
  assumes "sha_32 C" "wf_header a" "wf_header b" "wf_state s" "wf_state t"
    and "inj_on (sha256 C) {context_input a s (capability_stamp C c s), context_input b t (capability_stamp C d t)}"
    and "w_context_hash w = object_context C a c s"
    and "unwrap_dek_for_epoch C sk b d t w = Inr dek"
  shows "same_header a b \<and> same_roots s t \<and> capability_stamp C c s = capability_stamp C d t"
  using assms(8) context_binding [OF assms(1-6)] assms(7) by (simp add: unwrap_dek_for_epoch_ok)

theorem context_hash_binds_witness:
  "\<exists>object w dek. w_context_hash w = object_context sample_crypto object sample_cap sample_state \<and>
     unwrap_dek_for_epoch sample_crypto (kp_secret sample_keys) object sample_cap sample_state w = Inr dek \<and>
     same_header object object \<and> same_roots sample_state sample_state"
proof -
  let ?C = sample_crypto and ?pk = "kp_public sample_keys" and ?sk = "kp_secret sample_keys"
  let ?o = "\<lparr>o_version = 1, o_suite = SUITE, o_object_id = ascii ''doc'', o_required_rights = READ,
    o_policy_hash = replicate 32 5, o_seal_epoch = 4, o_temporal_policy = Current,
    o_authority_root = zeros 32, o_revocation_root = zeros 32, o_payload_nonce = zeros 12,
    o_payload_ciphertext = [], o_wrappers = []\<rparr>"
  obtain ct ss ct_pq ss_pq rng' os' where k: "kem_encaps ?C ?pk sample_rng sample_rng =
      ((ct, ss, ct_pq, ss_pq), rng', os')" by (metis prod_cases4 surj_pair)
  obtain wd where wd: "wrap_dek ?C (wrapper_kek ?C ?o sample_cap sample_state ss ct_pq ss_pq) (zeros 12) (zeros 32)
      (authority_aad ?o sample_state (object_context ?C ?o sample_cap sample_state) ct ct_pq) = Inr wd"
    by (simp add: wrap_dek_def sample_crypto_def)
  note u = unwrap_wrapped [OF sample_crypto_correct sample_facts(4) length_zeros k wd,
      where tp = "tc_proof sample_commit"]
  have wf: "wf_header ?o" "wf_state sample_state"
    by (simp_all add: wf_header_def wf_state_def wf_str_def sample_state_def ascii_def sample_crypto_def
        root_verifying_key_bytes_def utf8_cont_def)
  show ?thesis
    using u context_hash_binds [OF sample_sha_32 wf(1) wf(1) wf(2) wf(2) _ _ u] by fastforce
qed

section \<open>Capabilities\<close>

text \<open>
  C5. Inclusion proofs are sound at any depth. If a proof for a capability is accepted against the
  root of a tree of capabilities, the capability is one of those in the tree, although the
  verifier checks neither the length of the path nor the index. What is needed is that SHA-256
  has no collision on the (finitely many) messages that are hashed, and hits none of the two
  reserved values: leaves and nodes are hashed in different domains.
\<close>

theorem accepted_inclusion_is_member:
  assumes "verify_capability_inclusion C cap p (merkle_root C (map (capability_leaf_hash C) caps)) = Inr ()"
    and "sha_safe C (inclusion_inputs C caps cap p)"
    and "sha_32 C" "\<forall>h \<in> set (ip_sibling_hashes p). length h = 32"
    and "wf_capability cap" "\<forall>c \<in> set caps. wf_capability c"
  shows "cap \<in> set caps"
  using assms by (rule inclusion_sound)

theorem accepted_inclusion_is_member_witness:
  "verify_capability_inclusion sample_crypto sample_cap \<lparr>ip_leaf_hash = capability_leaf_hash sample_crypto sample_cap,
      ip_sibling_hashes = [], ip_leaf_index = 0\<rparr>
      (merkle_root sample_crypto (map (capability_leaf_hash sample_crypto) [sample_cap])) = Inr () \<and>
   sample_cap \<in> set [sample_cap]"
proof -
  let ?p = "\<lparr>ip_leaf_hash = capability_leaf_hash sample_crypto sample_cap, ip_sibling_hashes = [], ip_leaf_index = 0\<rparr>"
  have v: "verify_capability_inclusion sample_crypto sample_cap ?p
      (merkle_root sample_crypto (map (capability_leaf_hash sample_crypto) [sample_cap])) = Inr ()"
    by (simp add: verify_capability_inclusion_ok merkle_root_def merkle_levels.simps)
  have "\<exists>x. sample_sha (capability_input sample_cap) = 3 # x"
    by (simp add: sample_sha_def capability_input_def capability_transcript_def sample_cap_def put_bytes_def)
      (metis numeral_nat(7) replicate_Suc append_Cons numeral_eq_Suc pred_numeral_simps(1,2,3))
  then obtain x where x: "sample_sha (capability_input sample_cap) = 3 # x" by blast
  have "sha_safe sample_crypto (inclusion_inputs sample_crypto [sample_cap] sample_cap ?p)"
    by (simp add: sha_safe_def inclusion_inputs_def proof_pairs_def tree_pairs.simps LONE_NODE_SENTINEL_def
        zeros_def sample_crypto_def x replicate_32)
  moreover have "wf_capability sample_cap"
    by (simp add: wf_capability_def wf_str_def sample_cap_def ascii_def)
  ultimately show ?thesis
    using accepted_inclusion_is_member [OF v _ sample_sha_32] v by simp
qed

text \<open>
  C6. What \<open>verify_non_revocation\<close> would need to be sound: if every bound of an accepted witness has
  a path of the depth of the revocation tree and an index inside it, and the node hash does not
  collide on the pairs involved, then the stamp is indeed not revoked. The code checks order,
  adjacency and the two ends, but not this shape (see the next property).
\<close>

theorem shaped_witness_is_sound:
  fixes revoked :: "bytes list"
  assumes "verify_non_revocation C w (merkle_root C revoked) (word_of_nat (length revoked)) = Inr ()"
    and "strict_sorted revoked" "length revoked < 2 ^ 64"
    and "\<forall>b \<in> set_option (nw_left w) \<union> set_option (nw_right w). bound_shape revoked b \<and> bound_free C revoked b"
  shows "nw_stamp w \<notin> set revoked"
  using assms by (intro witness_sound [of C]) blast+

theorem shaped_witness_is_sound_witness:
  "\<exists>w. verify_non_revocation sample_crypto w (merkle_root sample_crypto [zeros 32, replicate 32 9]) (word_of_nat 2)
      = Inr () \<and> nw_stamp w \<notin> {zeros 32, replicate 32 9}"
proof -
  let ?r = "[zeros 32, replicate 32 9] :: bytes list"
  let ?t = "\<lparr>ct_leaf_hashes = [], ct_revoked_stamps = ?r\<rparr>"
  let ?b = "\<lambda>i. \<lparr>nb_stamp = ?r ! i, nb_proof = revocation_proof_for_index sample_crypto ?t i\<rparr>"
  let ?w = "\<lparr>nw_stamp = replicate 32 5, nw_total_revoked = 2, nw_left = Some (?b 0), nw_right = Some (?b 1)\<rparr>"
  have less: "zeros 32 < replicate 32 (5 :: byte)" "replicate 32 (5 :: byte) < replicate 32 9"
      "zeros 32 < replicate 32 (9 :: byte)"
    by (simp_all add: zeros_def replicate_32)
  have sibs: "merkle_proof_for_index_cap sample_crypto ?r 0 = [replicate 32 9]"
      "merkle_proof_for_index_cap sample_crypto ?r (Suc 0) = [zeros 32]"
    by (simp_all add: merkle_proof_for_index_cap_def merkle_siblings_cap.simps merkle_next_eq)
  have ok: "bound_ok sample_crypto (merkle_root sample_crypto ?r) (?b i)" if "i < 2" for i
    using revocation_proof_bound_ok [of i ?t sample_crypto] that by (simp add: tree_revocation_root_def)
  have v: "verify_non_revocation sample_crypto ?w (merkle_root sample_crypto ?r) (word_of_nat (length ?r)) = Inr ()"
    using ok [of 0] ok [of 1] less
    by (simp add: verify_non_revocation_ok check_left_ok check_right_ok non_revocation_boundaries_are_adjacent_def
        revocation_proof_for_index_def checked_add_def)
  have "bound_shape ?r (?b 0) \<and> bound_free sample_crypto ?r (?b 0)"
      "bound_shape ?r (?b 1) \<and> bound_free sample_crypto ?r (?b 1)"
    by (simp_all add: bound_shape_def bound_free_def revocation_proof_for_index_def sibs merkle_depth.simps
        node_collision_free_def tree_pairs.simps level_parent_def)
  then have "nw_stamp ?w \<notin> set ?r"
    using less(3) by (intro shaped_witness_is_sound [OF v]) (simp_all only: non_revocation_witness.simps
        option.set Un_insert_left Un_empty_left ball_simps sorted_wrt.simps list.set list.size, simp_all)
  with v show ?thesis by (intro exI [of _ ?w]) simp
qed

text \<open>
  C7. Revocation can be bypassed. Let a capability be issued, included and revoked in the tree the
  state publishes. A holder who replaces the non-revocation witness by one whose only bound is the
  revocation root itself, with an empty Merkle path, passes \<open>validate_capability\<close>: the path
  verifier accepts an inner node (here the root) in place of a leaf. No property of the hash is
  used; the only exception is a stamp that equals the root.
\<close>

theorem revoked_capability_validates:
  assumes "tree_wf tree" "publishes C s tree" "length (ct_revoked_stamps tree) < 2 ^ 64"
    and "is_revoked tree (capability_stamp C cap s)" "capability_stamp C cap s \<noteq> tree_revocation_root C tree"
    and "issued_and_included C cap proof s" "grants cap req" "rq_epoch req = st_epoch s"
  shows "\<not> is_ok (tree_non_revocation_witness C tree (capability_stamp C cap s)) \<and>
    (\<exists>forged. validate_capability C cap (proof\<lparr>cp_non_revocation := forged\<rparr>) s req = Inr ())"
proof -
  have "unat (st_revocation_count s) = length (ct_revoked_stamps tree)"
    using assms(2,3) by (simp add: publishes_def tree_revocation_count_def unat_of_nat)
  moreover have "ct_revoked_stamps tree \<noteq> []" using assms(4) by (auto simp: is_revoked_def)
  ultimately have "st_revocation_count s \<noteq> 0" by auto
  moreover have "capability_stamp C cap s \<noteq> st_revocation_root s" using assms(2,5) by (simp add: publishes_def)
  ultimately show ?thesis
    using forged_witness_validates [OF assms(6-8)] witness_refused_iff [OF assms(1), of C] assms(4) by blast
qed

theorem revoked_capability_validates_witness:
  "is_revoked sample_revoked (capability_stamp sample_crypto sample_cap sample_revoked_state) \<and>
   (\<exists>forged. validate_capability sample_crypto sample_cap
      (sample_revoked_proof\<lparr>cp_non_revocation := forged\<rparr>) sample_revoked_state sample_req = Inr ())"
proof -
  have "length (ct_revoked_stamps sample_revoked) < 2 ^ 64" by (simp add: sample_revoked_def)
  moreover have "rq_epoch sample_req = st_epoch sample_revoked_state"
    using sample_facts(3) by (simp add: sample_revoked_state_def)
  ultimately show ?thesis
    using revoked_capability_validates [OF sample_revoked_facts(1,2) _ sample_revoked_facts(3,4)
        sample_revoked_included sample_facts(2)] sample_revoked_facts(3) by blast
qed



section \<open>Re-wrapping, resealing and compromise notices\<close>

text \<open>
  C9. Re-wrapping. When \<open>add_epoch_wrapper_with_verifier\<close> succeeds, the target epoch is later than the source
  epoch and inside the capability's window, and whatever message the object opened to under the source
  state, the new wrapper unwraps to under the target state for the recipient it was made for. That
  recipient's \<open>open_with_verifier\<close> returns the message at the target state exactly when the object's temporal
  policy admits the target epoch and the capability, with the proof then presented, is valid at the target
  state. Re-wrapping checks neither: an object with a \<open>Historical\<close> policy is re-wrapped in vain, and so is one
  whose capability has been revoked in between.
\<close>

theorem rewrap_adds_message:
  assumes "crypto_correct C" "keys_match C pk sk'"
    and "add_epoch_wrapper_with_verifier C rng os (crypto_verify_state C v) sk pk object cap proof s t tp = (Inr (), object')"
    and "opens_to C sk object cap s m"
  shows "opens_to C sk' object' cap t m \<and> st_epoch s < st_epoch t \<and>
    cap_epoch_start cap \<le> st_epoch t \<and> st_epoch t \<le> cap_epoch_end cap \<and>
    (open_with_verifier C (crypto_verify_state C v) sk' object' cap proof' t = Inr m \<longleftrightarrow>
       openable_epoch (o_temporal_policy object) (o_seal_epoch object) (st_epoch t) \<and>
       validate_capability C cap proof' t (open_request_for_object object (st_epoch t)) = Inr ())"
  using crypto_verifier.rewrap_open_iff [OF assms] by blast

theorem rewrap_adds_message_witness:
  "\<exists>pf object object' t tp v. add_epoch_wrapper_with_verifier sample_crypto sample_rng sample_rng
       (crypto_verify_state sample_crypto v) (kp_secret sample_keys) (kp_public sample_keys) object sample_cap pf
       (tc_state sample_commit) t tp = (Inr (), object') \<and>
     st_epoch (tc_state sample_commit) = 4 \<and> st_epoch t = 5 \<and>
     open_with_verifier sample_crypto (crypto_verify_state sample_crypto v) (kp_secret sample_keys) object' sample_cap pf t
       = Inr [1, 2, 3]"
proof -
  obtain pf object object' t tp v where
    r: "add_epoch_wrapper_with_verifier sample_crypto sample_rng sample_rng (crypto_verify_state sample_crypto v)
       (kp_secret sample_keys) (kp_public sample_keys) object sample_cap pf (tc_state sample_commit) t tp = (Inr (), object')"
    and o: "opens_to sample_crypto (kp_secret sample_keys) object sample_cap (tc_state sample_commit) [1, 2, 3]"
    and t: "st_epoch t = 5" "openable_epoch (o_temporal_policy object) (o_seal_epoch object) 5"
      "validate_capability sample_crypto sample_cap pf t (open_request_for_object object 5) = Inr ()"
    by (rule sample_rewrap_later)
  have "open_with_verifier sample_crypto (crypto_verify_state sample_crypto v) (kp_secret sample_keys) object' sample_cap pf t
      = Inr [1, 2, 3]"
    using rewrap_adds_message [OF sample_crypto_correct sample_facts(4) r o, of pf] t by simp
  with r t(1) sample_epoch show ?thesis by blast
qed

text \<open>
  C10. Re-wrapping disturbs nothing else. Under every state of another epoch the object opens to
  the same messages as before, one wrapper per epoch stays one wrapper per epoch, and when the
  operation returns an error the object is unchanged.
\<close>

theorem rewrap_keeps_the_rest:
  assumes "add_epoch_wrapper_verified C rng os sk pk object cap proof vf vt tp = (res, object')"
  shows "(\<not> is_ok res \<longrightarrow> object' = object) \<and>
    (st_epoch s \<noteq> st_epoch (as_state vt) \<longrightarrow> opens_to C sk' object' cap' s m = opens_to C sk' object cap' s m) \<and>
    (distinct_epochs object \<longrightarrow> distinct_epochs object')"
proof (cases res)
  case (Inl e)
  with assms add_epoch_wrapper_verified_err [of C rng os sk pk object cap "proof" vf vt tp] show ?thesis by simp
next
  case (Inr u)
  then obtain w where "object' = put_epoch_wrapper object w"
    using assms by (auto simp: add_epoch_wrapper_verified_ok)
  with Inr assms rewrap_keeps_others [of C rng os sk pk object cap "proof" vf vt tp object' s] show ?thesis
    by (simp add: distinct_epochs_put)
qed

theorem rewrap_keeps_the_rest_witness:
  "\<exists>pf object object'. add_epoch_wrapper_verified sample_crypto sample_rng sample_rng (kp_secret sample_keys)
       (kp_public sample_keys) object sample_cap pf sample_from sample_to (tc_proof sample_commit) = (Inr (), object') \<and>
     opens_to sample_crypto (kp_secret sample_keys) object' sample_cap (tc_state sample_commit) [1, 2, 3] \<and>
     distinct_epochs object'"
proof -
  obtain pf object object' where
    r: "add_epoch_wrapper_verified sample_crypto sample_rng sample_rng (kp_secret sample_keys) (kp_public sample_keys)
       object sample_cap pf sample_from sample_to (tc_proof sample_commit) = (Inr (), object')"
    and o: "opens_to sample_crypto (kp_secret sample_keys) object sample_cap (tc_state sample_commit) [1, 2, 3]"
      "distinct_epochs object" by (rule sample_rewrap)
  have "st_epoch (tc_state sample_commit) \<noteq> st_epoch (as_state sample_to)"
    by (simp add: sample_states sample_epoch)
  with rewrap_keeps_the_rest [OF r, of "tc_state sample_commit"] r o show ?thesis by blast
qed

text \<open>
  C11. Resealing is opening and sealing. \<open>open_and_reseal_with_verifier\<close> returns an object exactly when the
  old object opens under the first state to some message and that message can be sealed for the new
  recipient under the second state, and what it returns is that sealed object. So resealing demands
  every check of an open and of a seal, adds none, and (by C1) carries the message over.
\<close>

theorem reseal_is_open_then_seal:
  "open_and_reseal_with_verifier C rng os (crypto_verify_state C v) sk pk object cap open_proof s seal_proof tp t req pol
      = Inr object' \<longleftrightarrow>
     (\<exists>m. open_with_verifier C (crypto_verify_state C v) sk object cap open_proof s = Inr m \<and>
        seal_with_verifier C rng os (crypto_verify_state C v) pk m cap seal_proof tp t req pol = Inr object')"
  by (rule crypto_verifier.reseal_iff)

text \<open>
  C12. Compromise notices. The compromise-aware open returns a message exactly when the plain open
  does and every notice is signed by the state's root key and none names, at or before the state's epoch,
  the epoch key in the issuance certificate of the presented capability proof; with no notices it is the
  plain open. The documentation speaks of the key of the sealing epoch instead, see C13.
\<close>

theorem compromise_check_filters_open:
  "open_with_compromise_check_and_verifier C (crypto_verify_state C v) sk object cap proof s notices = Inr m \<longleftrightarrow>
     open_with_verifier C (crypto_verify_state C v) sk object cap proof s = Inr m \<and>
     list_all (\<lambda>n. verify_compromise_notice C (st_root_pk s) n = Inr () \<and>
        \<not> (cn_compromised_epoch_pk n = ec_epoch_pk (is_epoch_cert (cp_issuance proof)) \<and>
           cn_compromised_epoch n \<le> st_epoch s)) notices"
proof -
  let ?pk = "ec_epoch_pk (is_epoch_cert (cp_issuance proof))"
  have "open_with_compromise_check_and_verifier C (crypto_verify_state C v) sk object cap proof s notices = Inr m \<longleftrightarrow>
     open_with_verifier C (crypto_verify_state C v) sk object cap proof s = Inr m \<and>
     enforce_compromise_notices C s ?pk notices = Inr ()"
    unfolding open_with_compromise_check_ok
    using crypto_verifier.verified_as_state by (auto simp: open_with_verifier_ok)
  then show ?thesis by (auto simp: enforce_compromise_notices_ok list_all_iff not_le)
qed

text \<open>
  C13. A compromised sealing key does not stop an open. The documentation of \<open>open_with_compromise_check\<close> and
  section 16 of the specification sheet check the notices against \<open>pk_A_e\<close>, the epoch key that vouches for
  the authority state. The code checks the key that issued the capability. So when the two keys differ, as they
  do after a rotation, an authentic notice that declares the state's key compromised from that very
  epoch on, and that \<open>check_epoch_not_compromised\<close> would refuse for that key, leaves the open as it was.
\<close>

theorem compromised_state_key_still_opens:
  fixes C rkp ev s r
  defines "notice \<equiv> issue_compromise_notice C rkp (ec_epoch_pk (ae_epoch_cert ev)) (st_epoch s) r"
  assumes "sig_correct C" "st_root_pk s = root_verifying_key_bytes C rkp"
    and "registry_find (cv_evidence_registry v) (st_authority_id s) (st_epoch s) = Some ev"
    and "ec_epoch_pk (ae_epoch_cert ev) \<noteq> ec_epoch_pk (is_epoch_cert (cp_issuance proof))"
    and "open_with_verifier C (crypto_verify_state C v) sk object cap proof s = Inr m"
  shows "verify_compromise_notice C (st_root_pk s) notice = Inr () \<and>
    check_epoch_not_compromised (st_epoch s) (ec_epoch_pk (ae_epoch_cert ev)) notice \<noteq> Inr () \<and>
    open_with_compromise_check_and_verifier C (crypto_verify_state C v) sk object cap proof s [notice] = Inr m"
proof -
  obtain w x where "find_wrapper object (st_epoch s) = Some w" "crypto_verify_state C v s (w_transparency_proof w) = Inr x"
    using assms(6) by (auto simp: open_with_verifier_ok)
  moreover have "verify_compromise_notice C (st_root_pk s) notice = Inr ()"
    unfolding assms(3) notice_def by (rule issued_notice_verifies [OF assms(2)])
  moreover have "cn_compromised_epoch_pk notice = ec_epoch_pk (ae_epoch_cert ev)" "cn_compromised_epoch notice = st_epoch s"
    by (simp_all add: notice_def issue_compromise_notice_def)
  ultimately show ?thesis
    using assms(5,6) crypto_verifier.verified_as_state
    by (auto simp: open_with_compromise_check_ok enforce_compromise_notices_ok check_epoch_not_compromised_def)
qed

theorem compromised_state_key_still_opens_witness:
  "\<exists>pf object notice. verify_compromise_notice sample_crypto (st_root_pk (tc_state sample_commit)) notice = Inr () \<and>
     cn_compromised_epoch_pk notice = epoch_verifying_key_bytes sample_crypto sample_other_kp \<and>
     open_with_compromise_check_and_verifier sample_crypto (crypto_verify_state sample_crypto sample_other_verifier)
       (kp_secret sample_keys) object sample_cap pf (tc_state sample_commit) [notice] = Inr [1, 2, 3]"
proof -
  obtain pf object ev where o:
    "open_with_verifier sample_crypto (crypto_verify_state sample_crypto sample_other_verifier) (kp_secret sample_keys) object
       sample_cap pf (tc_state sample_commit) = Inr [1, 2, 3]"
    "registry_find (cv_evidence_registry sample_other_verifier) (st_authority_id (tc_state sample_commit))
       (st_epoch (tc_state sample_commit)) = Some ev"
    "ec_epoch_pk (ae_epoch_cert ev) \<noteq> ec_epoch_pk (is_epoch_cert (cp_issuance pf))"
    "st_root_pk (tc_state sample_commit) = root_verifying_key_bytes sample_crypto sample_root"
    by (rule sample_other_opens)
  have "ec_epoch_pk (ae_epoch_cert ev) = epoch_verifying_key_bytes sample_crypto sample_other_kp"
    using o(2) by (auto simp: sample_other_verifier_def epoch_verifier_def add_evidence_def with_root_pk_def
        registry_find_add sample_other_cert_def issue_epoch_cert_def)
  then have "cn_compromised_epoch_pk (issue_compromise_notice sample_crypto sample_root (ec_epoch_pk (ae_epoch_cert ev)) e r)
      = epoch_verifying_key_bytes sample_crypto sample_other_kp" for e r
    by (simp add: issue_compromise_notice_def)
  with compromised_state_key_still_opens [OF sample_sig_correct o(4,2,3,1), of "zeros 32"] show ?thesis by blast
qed

text \<open>
  C14. Without the cargo feature \<open>insecure-stub-verifier\<close>, the convenience functions that choose the
  verifier themselves use a cryptographic verifier with an empty registry. It knows no evidence, so
  \<open>seal\<close>, \<open>verify\<close> and \<open>open\<close> fail on every input.
\<close>

theorem default_verifier_refuses_all:
  "seal C False rng os pk m cap proof tp s req pol =
      Inl (AuthorityStateErr ''missing authority key/signature evidence for epoch'') \<and>
   csk2_verify C False object cap proof s tp =
      Inl (AuthorityStateErr ''missing authority key/signature evidence for epoch'') \<and>
   \<not> is_ok (csk2_open C False sk object cap proof s)"
  by (auto simp: seal_def csk2_verify_def csk2_open_def seal_with_verifier_def verify_with_verifier_def
      release_verifier_rejects is_ok_iff open_with_verifier_ok)

text \<open>
  C15. When an object can be opened. The wrapper selection succeeds for a state exactly when a
  wrapper of the state's epoch is present and: for \<open>Historical\<close> the epoch is the sealing epoch and the
  policy's; for \<open>Current\<close> it is not before the sealing epoch; for \<open>Window\<close> it lies in the window; and
  for \<open>ResealRequired after\<close> it is the sealing epoch or lies after both it and \<open>after\<close>, so that
  the epochs after sealing up to \<open>after\<close> are never openable although the policy accepts them.
\<close>

theorem openable_epochs:
  "is_ok (select_required_wrapper object s) \<longleftrightarrow> find_wrapper object (st_epoch s) \<noteq> None \<and>
     (case o_temporal_policy object of
        Historical h \<Rightarrow> h = o_seal_epoch object \<and> st_epoch s = o_seal_epoch object
      | Current \<Rightarrow> o_seal_epoch object \<le> st_epoch s
      | Window a b \<Rightarrow> a \<le> st_epoch s \<and> st_epoch s \<le> b
      | ResealRequired after \<Rightarrow> st_epoch s = o_seal_epoch object \<or>
          o_seal_epoch object < st_epoch s \<and> after < st_epoch s)"
  by (cases "o_temporal_policy object")
    (auto simp: is_ok_iff select_required_wrapper_ok openable_epoch_simps)

text \<open>
  C16. Sealing does not look at the temporal policy, although section 13 of the specification sheet requires the
  policy to be valid for the sealing epoch: whether \<open>seal_with_verifier\<close> succeeds is decided by the authority's
  evidence and the capability alone. Under a policy that does not admit the sealing epoch the result is an
  object that nobody can open as it is: \<open>open_with_verifier\<close> fails for every verifier, key, capability, proof
  and state.
\<close>

theorem sealing_ignores_temporal_policy:
  assumes "aead_accepts C" "length m < 2 ^ 37"
  shows "(is_ok (seal_with_verifier C rng os (crypto_verify_state C v) pk m cap pf tp s req pol) \<longleftrightarrow>
      is_ok (crypto_verify_state C v s tp) \<and> validate_capability C cap pf s req = Inr ()) \<and>
    (seal_with_verifier C rng os (crypto_verify_state C v) pk m cap pf tp s req pol = Inr object \<and>
       \<not> openable_epoch pol (st_epoch s) (st_epoch s) \<longrightarrow>
     \<not> is_ok (open_with_verifier C V sk object cap' pf' s'))"
proof -
  have "\<not> is_ok (open_with_verifier C V sk object cap' pf' s')"
    if sealed: "seal_with_verifier C rng os (crypto_verify_state C v) pk m cap pf tp s req pol = Inr object"
      and pol: "\<not> openable_epoch pol (st_epoch s) (st_epoch s)"
  proof
    assume "is_ok (open_with_verifier C V sk object cap' pf' s')"
    from open_needs_wrapper [OF this] sealed pol show False
      by (auto simp: seal_with_verifier_def bind_r_eq_Inr find_wrapper_def split: if_splits
          dest!: seal_verified_ok crypto_verifier.verified_as_state)
  qed
  then show ?thesis using crypto_verifier.seal_ok_iff [OF assms] by blast
qed

theorem sealing_ignores_temporal_policy_witness:
  "\<exists>pf object. seal_with_verifier sample_crypto sample_rng sample_rng (crypto_verify_state sample_crypto sample_verifier)
      (kp_public sample_keys) [1, 2, 3] sample_cap pf (tc_proof sample_commit) (tc_state sample_commit) sample_req (Historical 9)
      = Inr object \<and>
    \<not> is_ok (open_with_verifier sample_crypto (crypto_verify_state sample_crypto sample_verifier) (kp_secret sample_keys) object
      sample_cap pf (tc_state sample_commit))"
proof -
  have len: "length [1, 2, 3 :: byte] < 2 ^ 37" by simp
  then obtain pf object0 where sealed: "seal_with_verifier sample_crypto sample_rng sample_rng
      (crypto_verify_state sample_crypto sample_verifier) (kp_public sample_keys) [1, 2, 3] sample_cap pf
      (tc_proof sample_commit) (tc_state sample_commit) sample_req Current = Inr object0"
    by (rule sample_seal_open)
  note ok = sealing_ignores_temporal_policy [OF sample_aead(2) len, where rng = sample_rng and os = sample_rng and
      v = sample_verifier and pk = "kp_public sample_keys" and cap = sample_cap and pf = pf and
      tp = "tc_proof sample_commit" and s = "tc_state sample_commit" and req = sample_req]
  obtain object where object: "seal_with_verifier sample_crypto sample_rng sample_rng
      (crypto_verify_state sample_crypto sample_verifier) (kp_public sample_keys) [1, 2, 3] sample_cap pf
      (tc_proof sample_commit) (tc_state sample_commit) sample_req (Historical 9) = Inr object"
    using conjunct1 [OF ok, of Current] conjunct1 [OF ok, of "Historical 9"] sealed by (auto simp: is_ok_iff)
  have "\<not> openable_epoch (Historical 9) (st_epoch (tc_state sample_commit)) (st_epoch (tc_state sample_commit))"
    by (simp add: openable_epoch_simps sample_epoch)
  with ok object show ?thesis by blast
qed

section \<open>The authority\<close>

text \<open>
  C17. From issuing to opening. An authority whose tree and log accept a new capability
  (\<open>issue_capability_and_commit\<close> returns \<open>Ok\<close>) can hand out an inclusion proof and a non-revocation
  witness; with these, the issuance proof and the epoch key's signature on the committed state,
  every message shorter than \<open>2 ^ 37\<close> bytes seals under the cryptographic verifier, and the result
  opens to the message.
\<close>

theorem issued_capability_seals_and_opens:
  assumes "crypto_correct C" "sig_correct C" "aead_accepts C"
    and "issue_capability_and_commit C (in_memory_ops C) log tree cap kp
      (issue_epoch_cert C rkp (epoch_verifying_key_bytes C kp) (st_epoch s) w) s = (Inr (iss, c), log', tree')"
    and "tree_wf tree" "tree_small tree'" "log_small log'" "st_revocation_count s = tree_revocation_count tree"
    and "st_root_pk s = root_verifying_key_bytes C rkp" "0 < w" "unat (st_epoch s) < 2 ^ 64 - 1"
    and "\<not> is_revoked tree (capability_stamp C cap s)" "parent_stamp_ok cap" "grants cap req"
      "rq_epoch req = st_epoch s"
    and "keys_match C pk sk" "openable_epoch pol (st_epoch s) (st_epoch s)" "length m < 2 ^ 37"
  defines "V \<equiv> crypto_verify_state C (epoch_verifier C (tc_state c) kp
    (issue_epoch_cert C rkp (epoch_verifying_key_bytes C kp) (st_epoch s) w))"
  shows "\<exists>incl nr object. inclusion_proof C tree' cap = Some incl \<and>
    tree_non_revocation_witness C tree' (capability_stamp C cap s) = Inr nr \<and>
    seal_with_verifier C rng os V pk m cap
      \<lparr>cp_inclusion = incl, cp_non_revocation = nr, cp_issuance = iss\<rparr> (tc_proof c) (tc_state c) req pol = Inr object \<and>
    open_with_verifier C V sk object cap
      \<lparr>cp_inclusion = incl, cp_non_revocation = nr, cp_issuance = iss\<rparr> (tc_state c) = Inr m"
  unfolding V_def using assms(1-18) by (rule in_memory.issue_seal_open)

theorem issued_capability_seals_and_opens_witness:
  "\<exists>iss c log' tree' incl nr object.
     issue_capability_and_commit sample_crypto (in_memory_ops sample_crypto) log_new tree_new sample_cap sample_epoch_kp
       (issue_epoch_cert sample_crypto sample_root (epoch_verifying_key_bytes sample_crypto sample_epoch_kp)
          (st_epoch sample_state) 2) sample_state = (Inr (iss, c), log', tree') \<and>
     open_with_verifier sample_crypto (crypto_verify_state sample_crypto (epoch_verifier sample_crypto (tc_state c)
       sample_epoch_kp (issue_epoch_cert sample_crypto sample_root
          (epoch_verifying_key_bytes sample_crypto sample_epoch_kp) (st_epoch sample_state) 2)))
       (kp_secret sample_keys) object sample_cap
       \<lparr>cp_inclusion = incl, cp_non_revocation = nr, cp_issuance = iss\<rparr> (tc_state c) = Inr [42]"
proof -
  obtain iss c log' tree' where i: "sample_issued = (Inr (iss, c), log', tree')" "log_small log'" "tree_small tree'"
    by (rule sample_issue)
  then have "issue_capability_and_commit sample_crypto (in_memory_ops sample_crypto) log_new tree_new sample_cap
      sample_epoch_kp (issue_epoch_cert sample_crypto sample_root (epoch_verifying_key_bytes sample_crypto sample_epoch_kp)
         (st_epoch sample_state) 2) sample_state = (Inr (iss, c), log', tree')"
    by (simp add: sample_issued_def sample_cert_def sample_facts(6))
  moreover from this have "\<exists>incl nr object. open_with_verifier sample_crypto (crypto_verify_state sample_crypto
      (epoch_verifier sample_crypto (tc_state c) sample_epoch_kp (issue_epoch_cert sample_crypto sample_root
         (epoch_verifying_key_bytes sample_crypto sample_epoch_kp) (st_epoch sample_state) 2)))
      (kp_secret sample_keys) object sample_cap
      \<lparr>cp_inclusion = incl, cp_non_revocation = nr, cp_issuance = iss\<rparr> (tc_state c) = Inr [42]"
    using issued_capability_seals_and_opens [OF sample_crypto_correct sample_sig_correct sample_aead(2) _ sample_facts(9)
        i(3,2) sample_facts(7,5) _ _ sample_facts(8,1,2,3,4), where m = "[42]" and pol = Current and rng = sample_rng
        and os = sample_rng and kp = sample_epoch_kp and w = 2 and iss = iss and c = c and log = log_new]
    by (auto simp: sample_facts(6) openable_epoch_simps)
  ultimately show ?thesis by blast
qed

text \<open>
  C18. Rotation. When \<open>rotate_epoch_full\<close> succeeds for a state that carries the root key's public
  part, with a positive validity window, the verifier built by \<open>into_verifier\<close> accepts the new state
  with the rotation's proof, through the full certificate chain.
\<close>

theorem rotation_is_verifiable:
  assumes "sig_correct C" "rotate_epoch_full C (in_memory_ops C) rng log rkp s e w h = (Inr rot, log')"
    and "st_root_pk s = root_verifying_key_bytes C rkp" "0 < w" "unat e < 2 ^ 64 - 1"
    and "log_small (snd (commit_state C log (rotated_authority_state s e h)))"
  shows "crypto_verify_state C (into_verifier rot) (er_state rot) (er_transparency_proof rot) =
    Inr (verified_new (er_state rot) \<lparr>av_path = CertChain\<rparr>)"
  using assms by (intro in_memory.rotation_verifier_accepts) (simp_all add: in_memory_ops_def)

theorem rotation_is_verifiable_witness:
  "\<exists>rot log'. rotate_epoch_full sample_crypto (in_memory_ops sample_crypto) sample_rng log_new sample_root sample_state 5 3
       (zeros 32) = (Inr rot, log') \<and>
     crypto_verify_state sample_crypto (into_verifier rot) (er_state rot) (er_transparency_proof rot) =
       Inr (verified_new (er_state rot) \<lparr>av_path = CertChain\<rparr>)"
proof -
  let ?s = "rotated_authority_state sample_state 5 (zeros 32)"
  have view: "log_view log_new k = None" "lg_entries log_new = []" for k
    by (simp_all add: log_view_def log_new_def)
  obtain c log1 where c: "commit_state sample_crypto log_new ?s = (Inr c, log1)" "length (lg_entries log1) = 1"
    by (cases rule: commit_state_cases [of log_new ?s sample_crypto]) (auto simp: view)
  then obtain rot log' where r: "rotate_epoch_full sample_crypto (in_memory_ops sample_crypto) sample_rng log_new
      sample_root sample_state 5 3 (zeros 32) = (Inr rot, log')"
    by (simp add: rotate_epoch_full_def rotate_epoch_def finalize_epoch_rotation_commit_def epoch_generate_def
        begin_epoch_rotation_commit_def in_memory_ops_def fill_bytes_def Let_def)
  have "log_small (snd (commit_state sample_crypto log_new ?s))" using c by (auto simp: log_small_def)
  from rotation_is_verifiable [OF sample_sig_correct r sample_facts(5) _ _ this] r show ?thesis by auto
qed

text \<open>
  C19. Revocation is permanent on the authority's side. After a successful \<open>revoke_capability\<close>, in
  every tree that any sequence of issuing, revoking and rotating produces later, whether the
  operations succeed or fail, the stamp of the capability is revoked under every state of the same
  authority, and no non-revocation witness is generated for it.
\<close>

theorem revocation_is_permanent:
  assumes "tree_wf tree" "revoke_capability C tree cap s e = (Inr s', au_tree A)"
    and "authority_run C ops False A B" "st_authority_id s2 = st_authority_id s"
  shows "is_revoked (au_tree B) (capability_stamp C cap s2) \<and>
    \<not> is_ok (tree_non_revocation_witness C (au_tree B) (capability_stamp C cap s2))"
  using revocation_permanent [OF assms(1,2) conjunct1 [OF authority_run_grows [OF assms(3)]] assms(4)] .

theorem revocation_is_permanent_witness:
  "\<exists>s' tree'. revoke_capability sample_crypto sample_tree sample_cap (tc_state sample_commit) 6 = (Inr s', tree') \<and>
     is_revoked tree' (capability_stamp sample_crypto sample_cap sample_state)"
proof -
  obtain iss c log' tree' where i: "sample_issued = (Inr (iss, c), log', tree')" "log_small log'"
      "tree' = snd (add_capability sample_crypto tree_new sample_cap)" by (rule sample_issue)
  have t: "sample_tree = tree'" "sample_commit = c" by (simp_all add: sample_tree_def sample_commit_def i(1))
  from i(1) [unfolded sample_issued_def] have f: "st_authority_root (tc_state c) = tree_authority_root sample_crypto tree'"
      "st_revocation_root (tc_state c) = st_revocation_root sample_state" "st_authority_id (tc_state c) = st_authority_id sample_state"
  proof (atomize (full), cases rule: issue_and_commit_cases)
    case (late p r)
    then have "r = Inr c" by (cases r) auto
    from in_memory.commit_fields [OF late(4) [unfolded this] i(2)]
    show "st_authority_root (tc_state c) = tree_authority_root sample_crypto tree' \<and>
      st_revocation_root (tc_state c) = st_revocation_root sample_state \<and>
      st_authority_id (tc_state c) = st_authority_id sample_state" by simp
  qed simp
  have incl: "inclusion_proof sample_crypto tree' sample_cap \<noteq> None"
    by (simp add: inclusion_absent i(3))
  have rev: "tree_revocation_root sample_crypto tree' = st_revocation_root sample_state"
    by (simp add: i(3) tree_revocation_root_def tree_new_def merkle_root_def sample_state_def)
  have "st_epoch (tc_state c) < 6" using sample_epoch t(2) by simp
  then obtain s' tree2 where r: "revoke_capability sample_crypto tree' sample_cap (tc_state c) 6 = (Inr s', tree2)"
    using incl rev f by (simp add: revoke_capability_def Let_def not_le)
  let ?A = "\<lparr>au_tree = tree2, au_log = log_new, au_state = s'\<rparr>"
  have "revoke_capability sample_crypto tree' sample_cap (tc_state c) 6 = (Inr s', au_tree ?A)" using r by simp
  from revocation_is_permanent [OF _ this run_refl [of sample_crypto "in_memory_ops sample_crypto"], of sample_state] f(3)
  have "is_revoked tree2 (capability_stamp sample_crypto sample_cap sample_state)"
    using tree_wf_add [OF tree_wf_new] i(3) by simp
  with r t show ?thesis by auto
qed

text \<open>
  C20. The published state is in step with the tree. Starting from a state that publishes the roots
  and the count of its tree, every sequence of issuing, revoking and rotating in which each
  operation returned \<open>Ok\<close> ends in a state that publishes the roots and the count of the tree it
  ends with.
\<close>

theorem published_state_tracks_tree:
  assumes "authority_run C (in_memory_ops C) True A B" "publishes C (au_state A) (au_tree A)"
    and "log_small (au_log B)"
  shows "publishes C (au_state B) (au_tree B)"
  using in_memory.ok_run_publishes [OF assms(1) TrueI assms(2,3)] .

theorem published_state_tracks_tree_witness:
  "\<exists>B. authority_run sample_crypto (in_memory_ops sample_crypto) True
      \<lparr>au_tree = tree_new, au_log = log_new, au_state = sample_state\<rparr> B \<and>
    tree_len (au_tree B) = 1 \<and> publishes sample_crypto (au_state B) (au_tree B)"
proof -
  let ?A = "\<lparr>au_tree = tree_new, au_log = log_new, au_state = sample_state\<rparr>"
  obtain iss c log' tree' where i: "sample_issued = (Inr (iss, c), log', tree')" "log_small log'"
      "tree' = snd (add_capability sample_crypto tree_new sample_cap)" by (rule sample_issue)
  let ?B = "\<lparr>au_tree = tree', au_log = log', au_state = tc_state c\<rparr>"
  have "authority_step sample_crypto (in_memory_ops sample_crypto) True ?A ?B"
    using i(1) by (intro step_issue) (simp add: sample_issued_def)
  then have run: "authority_run sample_crypto (in_memory_ops sample_crypto) True ?A ?B"
    by (rule run_step [OF run_refl]) simp
  have "publishes sample_crypto (au_state ?A) (au_tree ?A)"
    by (simp add: publishes_def sample_state_def tree_authority_root_def tree_revocation_root_def
        tree_revocation_count_def tree_new_def merkle_root_def)
  then have "publishes sample_crypto (au_state ?B) (au_tree ?B)"
    using published_state_tracks_tree [OF run] i(2) by simp
  moreover have "tree_len (au_tree ?B) = 1"
    by (simp add: i(3) tree_len_def add_capability_def tree_new_def Let_def)
  ultimately show ?thesis using run by blast
qed

text \<open>
  C21. The tree's own witnesses. In every tree reachable by issuing and revoking, the leaves are
  distinct and the revoked stamps strictly sorted; a non-revocation witness is generated exactly
  for the stamps that are not revoked, and every one that is generated is for the stamp asked
  about and verifies against the root and the count the tree publishes.
\<close>

theorem honest_witnesses_decide_revocation:
  assumes "reachable_tree C tree" "length (ct_revoked_stamps tree) < 2 ^ 64"
  shows "tree_wf tree \<and>
    is_ok (tree_non_revocation_witness C tree stamp) = (\<not> is_revoked tree stamp) \<and>
    (\<forall>w. tree_non_revocation_witness C tree stamp = Inr w \<longrightarrow> nw_stamp w = stamp \<and>
       verify_non_revocation C w (tree_revocation_root C tree) (tree_revocation_count tree) = Inr ())"
  using reachable_tree_wf [OF assms(1)] witness_refused_iff [of tree C stamp]
    revoked.witness_verifies [OF reachable_tree_wf [OF assms(1)] assms(2), of C stamp] by blast

theorem honest_witnesses_decide_revocation_witness:
  "\<exists>w. tree_non_revocation_witness sample_crypto (revoke_stamp tree_new [7]) [8] = Inr w \<and>
     verify_non_revocation sample_crypto w [7] 1 = Inr ()"
proof -
  let ?t = "revoke_stamp tree_new [7]"
  have t: "ct_revoked_stamps ?t = [[7]]"
    by (simp add: revoke_stamp_def tree_new_def partition_point_def insert_at_def)
  have "reachable_tree sample_crypto ?t" by (intro tree_revoke tree_init)
  note h = honest_witnesses_decide_revocation [OF this, of "[8]"]
  have "\<not> is_revoked ?t [8]" by (simp add: is_revoked_def t)
  then obtain w where "tree_non_revocation_witness sample_crypto ?t [8] = Inr w"
    using h t by (auto simp: is_ok_iff)
  moreover have "tree_revocation_root sample_crypto ?t = [7]" "tree_revocation_count ?t = 1"
    by (simp_all add: tree_revocation_root_def tree_revocation_count_def t merkle_root_def merkle_levels.simps)
  ultimately show ?thesis using h t by (intro exI [of _ w]) simp
qed

text \<open>
  C22. The authority is never stuck. When its published state is in step with its tree, and its log is
  shorter than the number of epochs that remain, there is a later epoch at which it can rotate, at which it
  can issue every capability valid there with the rotated key, and at which it can revoke every capability
  in its tree.
\<close>

theorem authority_is_never_stuck:
  assumes "publishes C s tree" "unat (st_epoch s) + length (lg_entries log) < 2 ^ 64 - 1"
  shows "\<exists>e > st_epoch s.
    is_ok (fst (rotate_epoch_full C (in_memory_ops C) rng log rkp s e w h)) \<and>
    (\<forall>cap kp cert s'. rotate_epoch C rng rkp s e w h = (kp, cert, s') \<and> cap_epoch_start cap \<le> e \<and> e \<le> cap_epoch_end cap
       \<longrightarrow> is_ok (fst (issue_capability_and_commit C (in_memory_ops C) log tree cap kp cert s'))) \<and>
    (\<forall>cap. capability_leaf_hash C cap \<in> set (ct_leaf_hashes tree)
       \<longrightarrow> is_ok (fst (revoke_capability_and_commit C (in_memory_ops C) log tree cap s e)))"
proof -
  obtain e where e: "st_epoch s < e" "log_view log (st_authority_id s, e) = None"
    using fresh_epoch_exists [OF assms(2)] by blast
  then show ?thesis
    using rotate_fresh [OF e(2)] issue_fresh [OF assms(1) e(2)] revoke_fresh [OF assms(1) e(2,1)] by blast
qed

theorem authority_is_never_stuck_witness:
  "\<exists>e > 4. is_ok (fst (rotate_epoch_full sample_crypto (in_memory_ops sample_crypto) sample_rng log_new sample_root
     sample_revoked_state e 3 (zeros 32)))"
proof -
  have "unat (st_epoch sample_revoked_state) + length (lg_entries log_new) < 2 ^ 64 - 1"
    by (simp add: sample_revoked_state_def sample_state_def log_new_def)
  from authority_is_never_stuck [OF sample_revoked_facts(2) this, of sample_rng sample_root 3 "zeros 32"] show ?thesis
    by (auto simp: sample_revoked_state_def sample_facts(6))
qed

text \<open>
  C23. Issuing is not atomic. The log keeps one state per authority and epoch, and issuing keeps the
  epoch of its base state; so from a base state that is already in the log, a capability that is not in the tree
  yet (its leaf changes the root) is refused by the log after the tree has been changed. The base state
  then no longer matches the tree, and every further issue or revocation on it fails. Rotating does not help: to
  an epoch that is not in the log it still succeeds, but it publishes the roots of the old state, and on the
  rotated state too every issue and every revocation fails.
\<close>

theorem issuing_on_committed_state_diverges:
  assumes "log_view log (st_authority_id s, st_epoch s) = Some (transparency_leaf_hash C s)"
    and "publishes C s tree" "cap_epoch_start cap \<le> ec_epoch cert" "ec_epoch cert \<le> cap_epoch_end cap"
    and "transparency_leaf_hash C (s\<lparr>st_authority_root :=
      tree_authority_root C (snd (add_capability C tree cap))\<rparr>) \<noteq> transparency_leaf_hash C s"
    and "issue_capability_and_commit C (in_memory_ops C) log tree cap kp cert s = (res, log', tree')"
  shows "\<not> is_ok res \<and> log' = log \<and> tree' = snd (add_capability C tree cap) \<and>
    \<not> is_ok (fst (issue_capability_and_commit C (in_memory_ops C) log' tree' cap2 kp2 cert2 s)) \<and>
    \<not> is_ok (fst (revoke_capability_and_commit C (in_memory_ops C) log' tree' cap2 s e)) \<and>
    (log_view log (st_authority_id s, e2) = None \<longrightarrow>
      (\<exists>rot log2. rotate_epoch_full C (in_memory_ops C) rng log' rkp s e2 w h = (Inr rot, log2) \<and>
        \<not> is_ok (fst (issue_capability_and_commit C (in_memory_ops C) log2 tree' cap2 kp2 cert2 (er_state rot))) \<and>
        \<not> is_ok (fst (revoke_capability_and_commit C (in_memory_ops C) log2 tree' cap2 (er_state rot) e))))"
proof -
  have r: "\<not> is_ok res \<and> log' = log \<and> tree' = snd (add_capability C tree cap)"
    using issue_conflict [OF assms(1-5), of kp] assms(6) by simp
  then have root: "tree_authority_root C tree' \<noteq> st_authority_root s" using assms(5) by auto
  have "\<exists>rot log2. rotate_epoch_full C (in_memory_ops C) rng log' rkp s e2 w h = (Inr rot, log2) \<and>
      tree_authority_root C tree' \<noteq> st_authority_root (er_state rot)" if "log_view log (st_authority_id s, e2) = None"
    using rotate_fresh [OF that, of C rng rkp w h] rotated_stays_diverged [OF root] r
    by (cases "rotate_epoch_full C (in_memory_ops C) rng log' rkp s e2 w h") (auto simp: is_ok_iff)
  with r root show ?thesis by (meson diverged_tree_stuck)
qed

theorem issuing_on_committed_state_diverges_witness:
  "\<exists>C log res log' tree'. issue_capability_and_commit C (in_memory_ops C) log tree_new sample_cap sample_epoch_kp
      sample_cert sample_state = (res, log', tree') \<and> \<not> is_ok res \<and> log' = log \<and> tree_len tree' = 1"
proof -
  let ?C = "sample_crypto\<lparr>sha256 := (\<lambda>m. m)\<rparr>" and ?s = sample_state
  let ?t = "snd (add_capability ?C tree_new sample_cap)"
  have view: "log_view log_new k = None" for k by (simp add: log_view_def log_new_def)
  obtain c log where c: "commit_state ?C log_new ?s = (Inr c, log)"
    by (cases rule: commit_state_cases [of log_new ?s ?C]) (auto simp: view)
  have v: "log_view log (st_authority_id ?s, st_epoch ?s) = Some (transparency_leaf_hash ?C ?s)"
    by (simp add: log_view_commit [OF c])
  have p: "publishes ?C ?s tree_new"
    by (simp add: publishes_def sample_state_def tree_authority_root_def tree_revocation_root_def
        tree_revocation_count_def tree_new_def merkle_root_def)
  have root: "tree_authority_root ?C ?t = capability_leaf_hash ?C sample_cap"
    by (simp add: tree_authority_root_def add_capability_def tree_new_def merkle_root_def merkle_levels.simps Let_def)
  have "length (capability_leaf_hash ?C sample_cap) < 2 ^ 32" "capability_leaf_hash ?C sample_cap \<noteq> zeros 32"
    by (simp_all add: capability_leaf_hash_def capability_transcript_def put_str_def put_rights_def sample_cap_def
        ascii_def zeros_def replicate_32)
  then have leaf: "transparency_leaf_hash ?C (?s\<lparr>st_authority_root := tree_authority_root ?C ?t\<rparr>) \<noteq>
      transparency_leaf_hash ?C ?s"
    by (simp add: root transparency_leaf_hash_def transparency_transcript_def put_eq put_eq_end sample_state_def)
  obtain res log' tree' where i: "issue_capability_and_commit ?C (in_memory_ops ?C) log tree_new sample_cap
      sample_epoch_kp sample_cert ?s = (res, log', tree')" by (metis prod_cases3)
  have "\<not> is_ok res \<and> log' = log \<and> tree' = ?t"
    using issuing_on_committed_state_diverges [OF v p _ _ leaf i]
    by (simp add: sample_cap_def sample_cert_def issue_epoch_cert_def)
  with i show ?thesis
    by (intro exI [of _ ?C] exI [of _ log] exI [of _ res] exI [of _ log'] exI [of _ tree'])
      (simp add: tree_len_def add_capability_def tree_new_def Let_def)
qed

section \<open>The transparency log\<close>

text \<open>
  C24. The in-memory log refines a partial map. A commit succeeds exactly when nothing or the same
  leaf is recorded for the authority and the epoch; then the map has that leaf there and is
  unchanged elsewhere, and otherwise the whole log is unchanged. A proof is available exactly for
  the states whose leaf the map holds.
\<close>

theorem log_refines_map:
  "is_ok (fst (commit_state C log s)) =
     (log_view log (st_authority_id s, st_epoch s) \<in> {None, Some (transparency_leaf_hash C s)}) \<and>
   log_view (snd (commit_state C log s)) =
     (if is_ok (fst (commit_state C log s))
      then (log_view log)((st_authority_id s, st_epoch s) \<mapsto> transparency_leaf_hash C s) else log_view log) \<and>
   is_ok (proof_for_state C log s) =
     (log_view log (st_authority_id s, st_epoch s) = Some (transparency_leaf_hash C s))"
proof (cases rule: commit_state_cases [of log s C])
  case (committed log' i c)
  then show ?thesis using log_view_commit [OF committed(1)] provable_iff_view [of C log s] by simp
qed (simp add: provable_iff_view)

text \<open>
  C25. The log is append-only: whatever sequence of commits and chain-hash updates follows, the
  leaves of an earlier log are a prefix of those of the later one, no recorded state is replaced,
  and there is still one entry per authority and epoch.
\<close>

theorem log_only_appends:
  assumes "log_steps (in_memory_ops C) log log'" "log_wf log"
  shows "(\<exists>new. leaf_hashes log' = leaf_hashes log @ new) \<and> log_wf log' \<and> log_view log \<subseteq>\<^sub>m log_view log'"
  using log_append_only [OF assms(1)] log_wf_steps [OF assms] log_view_grows [OF assms(1)] by blast

theorem log_only_appends_witness:
  "log_wf (store_chain_hash (snd (commit_state sample_crypto log_new sample_state)) (ascii ''auth'') 4 [1])"
proof -
  have "log_steps (in_memory_ops sample_crypto) log_new
      (store_chain_hash (snd (commit_state sample_crypto log_new sample_state)) (ascii ''auth'') 4 [1])"
    using log_store [OF log_commit [OF log_refl [of "in_memory_ops sample_crypto" log_new]]]
    by (simp add: in_memory_ops_def)
  moreover have "log_wf log_new" by (simp add: log_wf_def log_new_def)
  ultimately show ?thesis using log_only_appends by blast
qed

text \<open>
  C26. Once committed, a state stays provable: after any later sequence of commits and chain-hash
  updates the log still produces an inclusion proof for it, and the proof verifies against the root
  the log has then.
\<close>

theorem committed_state_stays_provable:
  assumes "commit_state C log s = (Inr c, log1)" "log_steps (in_memory_ops C) log1 log2" "log_small log2"
  shows "\<exists>p. proof_for_state C log2 s = Inr p \<and>
    verify_transparency_proof C (bind_transparency_root_to_state s (current_root C log2)) p = Inr ()"
  using in_memory.committed_stays_verifiable [of C log s c log1 log2] assms by (simp add: in_memory_ops_def)

theorem committed_state_stays_provable_witness:
  "\<exists>p. proof_for_state sample_crypto (snd (commit_state sample_crypto
      (snd (commit_state sample_crypto log_new sample_state)) (sample_state\<lparr>st_epoch := 5\<rparr>))) sample_state = Inr p"
proof -
  let ?C = sample_crypto and ?s = "sample_state\<lparr>st_epoch := 5\<rparr>"
  have view: "log_view log_new k = None" "lg_entries log_new = []" for k
    by (simp_all add: log_view_def log_new_def)
  obtain c log1 where c: "commit_state ?C log_new sample_state = (Inr c, log1)" "length (lg_entries log1) = 1"
    by (cases rule: commit_state_cases [of log_new sample_state ?C]) (auto simp: view)
  have "length (lg_entries (snd (commit_state ?C log1 ?s))) \<le> 2"
    by (cases rule: commit_state_cases [of log1 ?s ?C]) (auto simp: c(2))
  then have "log_small (snd (commit_state ?C log1 ?s))" by (simp add: log_small_def)
  moreover have "log_steps (in_memory_ops ?C) log1 (snd (commit_state ?C log1 ?s))"
    using log_commit [OF log_refl [of "in_memory_ops ?C" log1], of ?s] by (simp add: in_memory_ops_def)
  ultimately show ?thesis using committed_state_stays_provable [OF c(1)] c(1) by fastforce
qed

text \<open>
  C27. The log's root commits to its history. Commit two sequences of well-formed states, no two of one
  sequence for the same authority and epoch, to empty logs. Unless SHA-256 collides or gives a reserved
  value on the leaf and node messages of the two logs, equal roots mean that the two histories have the same
  length and agree, in order, in what a leaf describes: authority, epoch, authority root, revocation root and
  revocation count. A leaf does not describe the root key, the previous hash and the transparency root of a state.
\<close>

theorem log_root_binds_history:
  assumes "current_root C (log_of C ss) = current_root C (log_of C ts)"
    and "distinct (map log_key ss)" "distinct (map log_key ts)" "\<forall>s \<in> set ss \<union> set ts. wf_state s"
    and "sha_safe C (log_inputs C ss \<union> log_inputs C ts)" "sha_32 C"
  shows "map leaf_fields ss = map leaf_fields ts"
proof -
  have "map transparency_input ss = map transparency_input ts"
    using log_root_commits [OF _ assms(5,6)] assms(1-3) by (simp add: current_root_def log_of_leaves)
  then show ?thesis using assms(4) by (intro leaf_fields_from_inputs) auto
qed

theorem log_root_binds_history_witness:
  "\<exists>ss ts. length ss = 2 \<and> ss \<noteq> ts \<and> sha_safe sample_crypto (log_inputs sample_crypto ss \<union> log_inputs sample_crypto ts) \<and>
     current_root sample_crypto (log_of sample_crypto ss) = current_root sample_crypto (log_of sample_crypto ts) \<and>
     map leaf_fields ss = map leaf_fields ts"
proof -
  let ?log = "\<lambda>pk. [sample_entry pk 4, sample_entry pk 5]" and ?a = "replicate 32 1 :: bytes" and ?b = "replicate 32 2 :: bytes"
  have root: "current_root sample_crypto (log_of sample_crypto (?log ?a)) = current_root sample_crypto (log_of sample_crypto (?log ?b))"
    by (simp only: sample_log(3) length_replicate)
  have safe: "sha_safe sample_crypto (log_inputs sample_crypto (?log ?a) \<union> log_inputs sample_crypto (?log ?b))"
    using sample_log_safe by (simp add: sample_log_inputs)
  have wf: "\<forall>s \<in> set (?log ?a) \<union> set (?log ?b). wf_state s" using sample_log(2) by auto
  have "map leaf_fields (?log ?a) = map leaf_fields (?log ?b)"
    by (rule log_root_binds_history [OF root _ _ wf safe sample_sha_32]) (simp_all add: sample_log(1) del: list.map)
  moreover have "?log ?a \<noteq> ?log ?b" by (simp add: sample_entry_def replicate_32)
  ultimately show ?thesis using root safe by (intro exI [of _ "?log ?a"] exI [of _ "?log ?b"]) simp
qed

section \<open>Wire formats\<close>

text \<open>
  C28. Canonical encodings. Decoding under some limits returns an object exactly when the object fits the
  limits and the input is the encoding of that object: decoding undoes encoding, every accepted input is
  the one canonical encoding of its object, and nothing beyond the limits is accepted. The same holds for
  capabilities under the default limits and for threshold signature sets of at most \<open>m\<close> partials.
\<close>

theorem decoding_is_canonical:
  "(decode_kyriotes_csk2_object_with_limits bs limits = Inr object \<longleftrightarrow>
     object_fits limits object \<and> encode_kyriotes_csk2_object object = Some bs) \<and>
   (decode_capability bs = Inr cap \<longleftrightarrow> capability_fits 1024 1024 cap \<and> encode_capability cap = bs) \<and>
   (decode_threshold_signature_set_with_max bs m = Inr t \<longleftrightarrow>
     signature_set_fits m t \<and> encode_threshold_signature_set t = Some bs)"
  unfolding decode_capability_def using decode_object_iff decode_capability_iff decode_signature_set_iff by blast

text \<open>
  C29. The decode profiles are nested: what the embedded profile accepts, the strict and the server
  profile accept too, with the same result. An object decoded under the default limits has at most
  1024 wrappers, each with a Merkle path of at most 64 hashes, and at most 8 MiB of ciphertext.
\<close>

theorem decode_profiles_are_nested:
  "(decode_kyriotes_csk2_object_with_limits bs (profile_limits Embedded) = Inr object \<longrightarrow>
      decode_kyriotes_csk2_object bs = Inr object) \<and>
   (decode_kyriotes_csk2_object bs = Inr object \<longrightarrow>
      decode_kyriotes_csk2_object_with_limits bs (profile_limits Server) = Inr object \<and>
      length (o_wrappers object) \<le> 1024 \<and> length (o_payload_ciphertext object) \<le> 8388608 \<and>
      list_all (\<lambda>w. length (tp_sibling_hashes (w_transparency_proof w)) \<le> 64) (o_wrappers object))"
proof -
  have 1: "object_fits embedded_profile object \<Longrightarrow> object_fits strict_default object"
    by (erule object_fits_mono) (simp_all add: embedded_profile_def strict_default_def)
  have 2: "object_fits strict_default object \<Longrightarrow> object_fits server_profile object"
    by (erule object_fits_mono) (simp_all add: server_profile_def strict_default_def)
  have 3: "object_fits strict_default object \<Longrightarrow> length (o_wrappers object) \<le> 1024 \<and>
      length (o_payload_ciphertext object) \<le> 8388608 \<and>
      list_all (\<lambda>w. length (tp_sibling_hashes (w_transparency_proof w)) \<le> 64) (o_wrappers object)"
    by (simp add: object_fits_def wrapper_fits_def proof_fits_def wire_bytes_def strict_default_def list_all_iff)
  show ?thesis
    using 1 2 3 by (auto simp: decode_kyriotes_csk2_object_def default_limits_def decode_object_iff)
qed

theorem decode_profiles_are_nested_witness:
  "\<exists>bs object. decode_kyriotes_csk2_object_with_limits bs (profile_limits Embedded) = Inr object \<and>
     decode_kyriotes_csk2_object bs = Inr object"
proof -
  let ?o = "\<lparr>o_version = 1, o_suite = ascii ''s'', o_object_id = ascii ''doc'', o_required_rights = READ,
    o_policy_hash = zeros 32, o_seal_epoch = 4, o_temporal_policy = Current,
    o_authority_root = zeros 32, o_revocation_root = zeros 32, o_payload_nonce = zeros 12,
    o_payload_ciphertext = [1], o_wrappers = []\<rparr>"
  have f: "object_fits embedded_profile ?o"
    by (simp add: object_fits_def wire_bytes_def embedded_profile_def ascii_def)
  obtain bs where "encode_kyriotes_csk2_object ?o = Some bs" using encode_object_fits [OF f] by blast
  with f have "decode_kyriotes_csk2_object_with_limits bs (profile_limits Embedded) = Inr ?o"
    by (simp add: decode_object_iff)
  then show ?thesis using decode_profiles_are_nested [of bs ?o] by blast
qed

text \<open>
  C30. Sealing, transport, opening. An object that \<open>seal_and_commit\<close> returns, for a message of at most
  8 MiB less the tag, encodes; the encoding decodes under the default limits to the same object; and that
  object opens to the message under the committed state. The log may be any log the methods build.
\<close>

theorem sealed_object_survives_transport:
  assumes "crypto_correct C" "crypto_sizes C" "keys_match C pk sk"
    and "log_steps (in_memory_ops C) log_new log" "log_small log'"
    and "seal_and_commit C (in_memory_ops C) rng os log (crypto_verify_state C v) pk m cap proof s req pol
      = (Inr (object, c), log')"
    and "wf_state s" "length (rq_policy_hash req) = 32" "wf_str (rq_object_id req)"
    and "length (rq_object_id req) \<le> 1024" "length m \<le> 8 * 1024 * 1024 - 16"
    and "openable_epoch pol (st_epoch s) (st_epoch s)"
  shows "\<exists>bs. encode_kyriotes_csk2_object object = Some bs \<and>
    decode_kyriotes_csk2_object bs = Inr object \<and>
    open_with_verifier C (crypto_verify_state C v) sk object cap proof (tc_state c) = Inr m"
  using assms by (rule crypto_verifier.seal_transport_open)

theorem sealed_object_survives_transport_witness:
  "\<exists>pf object bs. encode_kyriotes_csk2_object object = Some bs \<and> decode_kyriotes_csk2_object bs = Inr object \<and>
     open_with_verifier sample_crypto (crypto_verify_state sample_crypto sample_verifier) (kp_secret sample_keys)
       object sample_cap pf (tc_state sample_commit) = Inr [1, 2, 3]"
proof -
  obtain pf object log where o: "seal_and_commit sample_crypto (in_memory_ops sample_crypto) sample_rng sample_rng log_new
       (crypto_verify_state sample_crypto sample_verifier) (kp_public sample_keys) [1, 2, 3] sample_cap pf
       sample_published sample_req Current = (Inr (object, sample_commit), log)" "log_small log"
    by (rule sample_seal_and_commit)
  have "\<exists>bs. encode_kyriotes_csk2_object object = Some bs \<and> decode_kyriotes_csk2_object bs = Inr object \<and>
     open_with_verifier sample_crypto (crypto_verify_state sample_crypto sample_verifier) (kp_secret sample_keys)
       object sample_cap pf (tc_state sample_commit) = Inr [1, 2, 3]"
    by (rule sealed_object_survives_transport [OF sample_crypto_correct sample_sizes sample_facts(4) log_refl o(2,1)
        sample_published_wf]) (simp_all add: sample_req_def wf_str_def ascii_def openable_epoch_simps)
  then show ?thesis by blast
qed

text \<open>
  C31. No hybrid object passes the embedded profile. The decoder measures the post-quantum ciphertext
  against the limit for the wrapped data key, which the embedded profile sets to 512 bytes, and an
  ML-KEM-768 ciphertext has 1088. So whatever is sealed for a recipient with a usable post-quantum key,
  its encoding is refused under that profile.
\<close>

theorem embedded_profile_refuses_hybrid:
  assumes "crypto_sizes C" "hybrid_key C pk" "log_steps (in_memory_ops C) log_new log" "log_small log'"
    and "seal_and_commit C (in_memory_ops C) rng os log (crypto_verify_state C v) pk m cap proof s req pol
      = (Inr (object, c), log')"
    and "wf_state s" "length (rq_policy_hash req) = 32" "wf_str (rq_object_id req)" "length m + 16 < 2 ^ 32"
    and "encode_kyriotes_csk2_object object = Some bs"
  shows "\<not> is_ok (decode_kyriotes_csk2_object_with_limits bs (profile_limits Embedded))"
proof
  assume "is_ok (decode_kyriotes_csk2_object_with_limits bs (profile_limits Embedded))"
  then obtain object' where d: "object_fits embedded_profile object'" "encode_kyriotes_csk2_object object' = Some bs"
    by (auto simp: is_ok_iff decode_object_iff)
  obtain l where "object_fits l object" using crypto_verifier.committed_seal_fits [OF assms(1,3-9)] by blast
  then have "object' = object" using object_encoding_inj [OF d(1)] d(2) assms(10) by simp
  with d(1) crypto_verifier.committed_seal_object(1) [OF assms(1,3-9)] assms(2) embedded_refuses_hybrid show False by simp
qed

theorem embedded_profile_refuses_hybrid_witness:
  "\<exists>object bs. encode_kyriotes_csk2_object object = Some bs \<and> decode_kyriotes_csk2_object bs = Inr object \<and>
     \<not> is_ok (decode_kyriotes_csk2_object_with_limits bs (profile_limits Embedded))"
proof -
  obtain pf object log where o: "seal_and_commit sample_crypto (in_memory_ops sample_crypto) sample_rng sample_rng log_new
       (crypto_verify_state sample_crypto sample_verifier) (kp_public sample_keys) [1, 2, 3] sample_cap pf
       sample_published sample_req Current = (Inr (object, sample_commit), log)" "log_small log"
    by (rule sample_seal_and_commit)
  have r: "length (rq_policy_hash sample_req) = 32" "wf_str (rq_object_id sample_req)"
      "length (rq_object_id sample_req) \<le> 1024"
    by (simp_all add: sample_req_def wf_str_def ascii_def)
  obtain bs where bs: "encode_kyriotes_csk2_object object = Some bs" "decode_kyriotes_csk2_object bs = Inr object"
    using crypto_verifier.seal_transport_open [OF sample_crypto_correct sample_sizes sample_facts(4) log_refl o(2,1)
        sample_published_wf r] by (auto simp: openable_epoch_simps)
  have "\<not> is_ok (decode_kyriotes_csk2_object_with_limits bs (profile_limits Embedded))"
    by (rule embedded_profile_refuses_hybrid [OF sample_sizes sample_hybrid log_refl o(2,1) sample_published_wf r(1,2) _ bs(1)])
      simp
  with bs show ?thesis by blast
qed

section \<open>Merkle trees\<close>

text \<open>
  C32. The crate has two copies of the Merkle code. They agree: on trees of at most \<open>2 ^ 64\<close> leaves the
  two generators return the same path, the two walks compute the same root, and the walk along a
  generated path from a leaf ends at the root of the tree.
\<close>

theorem merkle_copies_agree:
  assumes "length leaves \<le> 2 ^ 64" "i < length leaves"
  shows "merkle_proof_for_index_cap C leaves i = merkle_proof_for_index C leaves i \<and>
    verify_merkle_path C (leaves ! i) (merkle_proof_for_index_cap C leaves i) (word_of_nat i) (merkle_root C leaves) \<and>
    merkle_root_from_proof C (leaves ! i) (merkle_proof_for_index C leaves i) (word_of_nat i) = merkle_root C leaves \<and>
    verify_merkle_path C x path idx root = (merkle_root_from_proof C x path idx = root)"
  using proof_cap_eq [OF assms(1)] capability_merkle.walk_prove [OF assms(2,1)] transparency_merkle.walk_prove [OF assms(2,1)]
  by (simp add: verify_merkle_path_def walk_cap_eq)

theorem merkle_copies_agree_witness:
  "verify_merkle_path sample_crypto [2] (merkle_proof_for_index_cap sample_crypto [[1], [2], [3]] 1) 1
     (merkle_root sample_crypto [[1], [2], [3]])"
  using merkle_copies_agree [of "[[1], [2], [3]]" 1 sample_crypto] by simp

text \<open>
  C33. A root does not determine the leaves: the sentinel that pads an odd level is also a possible
  leaf, and leaves are not hashed before they are paired, so a one-leaf tree whose leaf is an inner
  node has the root of the two leaves below it. The capability leaves and the log's leaves are
  protected by their own hash domain; the revoked stamps, which have the node's format, are not.
\<close>

theorem merkle_root_is_ambiguous:
  "merkle_root C [a, b, c] = merkle_root C [a, b, c, LONE_NODE_SENTINEL] \<and>
   merkle_root C [hash_transparency_node C a b] = merkle_root C [a, b]"
  by (simp add: merkle_root_def merkle_levels.simps merkle_next_eq)

section \<open>Signatures and keys\<close>

text \<open>
  C34. What the cryptographic verifier with a root key accepts: evidence is registered for the
  authority and epoch, its certificate is signed by the root key and has not expired (the end of
  the window is computed with saturation), the epoch root is signed by the certified epoch key or,
  where threshold evidence is given, by the threshold set, and the state is in the log.
\<close>

theorem cert_chain_acceptance:
  "is_ok (crypto_verify_state C \<lparr>cv_evidence_registry = reg, cv_root_pk = Some pk\<rparr> s p) \<longleftrightarrow>
     verify_transparency_proof C s p = Inr () \<and>
     (\<exists>ev. registry_find reg (st_authority_id s) (st_epoch s) = Some ev \<and>
        verify_epoch_cert C pk (ae_epoch_cert ev) = Inr () \<and>
        unat (st_epoch s) < min (unat (ec_epoch (ae_epoch_cert ev)) + unat (ec_validity_window (ae_epoch_cert ev)))
          (2 ^ 64 - 1) \<and>
        (case ae_tsig ev of
           Some t \<Rightarrow> tsig_verify C (st_authority_root s) (st_revocation_root s) (st_transparency_root s)
             (st_epoch s) (st_prev_epoch_hash s) (tg_set t) (tg_authorized_keys t) = Inr ()
         | None \<Rightarrow> verify_epoch_root_sig C (ec_epoch_pk (ae_epoch_cert ev)) (st_authority_root s)
             (st_revocation_root s) (st_transparency_root s) (st_epoch s) (st_prev_epoch_hash s)
             (ae_epoch_root_sig ev) = Inr ()))"
  unfolding is_ok_iff crypto_verify_state_ok by (auto simp: verify_cert_chain_ok Let_def)

text \<open>
  C35. Threshold signatures. Verification accepts exactly when the threshold is positive and at least
  that many distinct authorized signers have a valid first partial signature. No signer counts
  twice, indices outside the key set count nothing, the 32-bit counter does not wrap. (A signer
  whose first partial is invalid does not count, even if a later one is valid.)
\<close>

theorem threshold_counts_distinct_signers:
  assumes "length keys < 2 ^ 32"
  shows "tsig_verify C r1 r2 r3 e h sset keys = Inr () \<longleftrightarrow>
    0 < unat (ts_threshold sset) \<and> unat (ts_threshold sset) \<le>
      card {i. i < length keys \<and> (\<exists>partial. first_partial (ts_partials sset) i = Some partial \<and>
        partial_valid C (keys ! i) (tsig_epoch_signing_message r1 r2 r3 e h) (ps_sig partial))}"
proof -
  have "{i. i < length keys \<and> (\<exists>partial. first_partial (ts_partials sset) i = Some partial \<and>
        partial_valid C (keys ! i) (tsig_epoch_signing_message r1 r2 r3 e h) (ps_sig partial))} =
      tsig_valid_signers C (tsig_epoch_signing_message r1 r2 r3 e h) keys (ts_partials sset)"
    by (auto simp: tsig_valid_signers_def split: option.splits)
  then show ?thesis using tsig_verify_iff [OF assms] by simp
qed

theorem threshold_counts_distinct_signers_witness:
  "tsig_verify sample_crypto [1] [2] [3] 4 [5]
     (tsig_add (tsig_new 1) (tsig_sign sample_crypto [1] [2] [3] 4 [5] sample_epoch_kp 0))
     [epoch_verifying_key_bytes sample_crypto sample_epoch_kp] = Inr ()"
proof -
  let ?msg = "tsig_epoch_signing_message [1] [2] [3] 4 [5]" and ?keys = "[epoch_verifying_key_bytes sample_crypto sample_epoch_kp]"
  let ?t = "tsig_add (tsig_new 1) (tsig_sign sample_crypto [1] [2] [3] 4 [5] sample_epoch_kp 0)"
  have "{i. i < length ?keys \<and> (\<exists>partial. first_partial (ts_partials ?t) i = Some partial \<and>
      partial_valid sample_crypto (?keys ! i) ?msg (ps_sig partial))} = {0}"
    using sample_sig_correct
    by (auto simp: tsig_add_def tsig_new_def tsig_sign_def first_partial_def partial_valid_def sign_message_def
        epoch_verifying_key_bytes_def sig_correct_def Let_def)
  then show ?thesis
    by (subst threshold_counts_distinct_signers) (simp_all add: tsig_add_def tsig_new_def)
qed

text \<open>
  C36. Signatures of one kind are never valid for another: the messages of epoch certificates,
  capability issuance, epoch roots, compromise notices, threshold signatures and the legacy state
  signature are pairwise different for all fields.
\<close>

theorem signing_domains_are_disjoint:
  "disjoint_family_on (\<lambda>i. [range (\<lambda>(pk, e, w). epoch_cert_signing_message pk e w),
      range (\<lambda>(lh, ar, e). capability_issuance_signing_message lh ar e),
      range (\<lambda>(r1, r2, r3, e, h). epoch_root_signing_message r1 r2 r3 e h),
      range (\<lambda>(pk, e, rr). compromise_notice_signing_message pk e rr),
      range (\<lambda>(r1, r2, r3, e, h). tsig_epoch_signing_message r1 r2 r3 e h),
      range authority_state_signing_message] ! i) {..<6}"
proof -
  have six: "{..<6 :: nat} = {0, 1, 2, 3, 4, 5}" by auto
  show ?thesis unfolding six disjoint_family_on_def
    using domains_differ tsig_message_domain legacy_message_domain by (auto simp: eq_commute)
qed

section \<open>The fuzz targets\<close>

text \<open>
  C37. The exact outcome of the stress target. \<open>fuzz_cross_system_lifecycle_stress.rs\<close> takes up to twelve steps
  that its input chooses among rotating, re-wrapping, resealing, checking a compromise notice, revoking and
  a trip through the wire format, on one authority, one capability and one object. It panics if and only
  if some re-wrapping step comes after a revocation step: re-wrapping checks the capability at the state it
  wraps from, where it is not yet revoked, so it succeeds, and the target then expects the object to verify at
  the present state, where the capability is revoked. On every other input all assertions hold.
\<close>

theorem stress_target_is_characterised:
  fixes C data
  defines "steps \<equiv> stress_steps (bounded data)"
  assumes "crypto_correct C" "crypto_sizes C" "aead_accepts C" "sig_correct C" "\<And>sk. length (ed_verifying_key C sk) = 32"
  shows "fuzz_cross_system_lifecycle_stress C std_rng os data =
    (if \<exists>i j. i < j \<and> j < length steps \<and> steps ! i mod 6 = 4 \<and> steps ! j mod 6 = 1
     then Panicked ''verify_with_verifier(..).is_ok()'' else Passed)"
  using stress_target_outcome [OF assms(2-6)] by (simp only: steps_def)

theorem stress_target_is_characterised_witness:
  "fuzz_cross_system_lifecycle_stress sample_crypto (\<lambda>seed. sample_rng) (\<lambda>i. sample_rng) (replicate 24 0 @ [0, 4, 2, 1])
     = Panicked ''verify_with_verifier(..).is_ok()'' \<and>
   fuzz_cross_system_lifecycle_stress sample_crypto (\<lambda>seed. sample_rng) (\<lambda>i. sample_rng) (replicate 24 0 @ [0, 1, 2, 3, 5, 4])
     = Passed"
proof -
  have keys: "length (ed_verifying_key sample_crypto sk) = 32" for sk by (simp add: sample_crypto_def)
  note run = stress_target_is_characterised [OF sample_crypto_correct sample_sizes sample_aead(2) sample_sig_correct keys,
      unfolded revoked_then_rewrapped_iff]
  have steps: "stress_steps (bounded (replicate 24 0 @ xs)) = xs" if "length xs \<le> 12" for xs
    using that by (simp add: stress_steps_def bounded_def MAX_SLICE_LEN_def MAX_STATEFUL_STRESS_STEPS_def)
  have "revoked_then_rewrapped False [0, 4, 2, 1]" "\<not> revoked_then_rewrapped False [0, 1, 2, 3, 5, 4]"
    by (simp_all add: revoked_then_rewrapped_Cons revoked_then_rewrapped_Nil)
  then show ?thesis
    using run [of "\<lambda>seed. sample_rng" "\<lambda>i. sample_rng" "replicate 24 0 @ [0, 4, 2, 1]"]
      run [of "\<lambda>seed. sample_rng" "\<lambda>i. sample_rng" "replicate 24 0 @ [0, 1, 2, 3, 5, 4]"]
    by (simp add: steps)
qed

text \<open>The instance whose signatures show key and message detects every change that the threshold target makes.\<close>

lemma signing_detects:
  assumes "st_epoch s = 7" "st_prev_epoch_hash s = zeros 32"
  shows "tsig_tampering_detected signing_crypto d s"
proof -
  let ?C = signing_crypto
  let ?key = "tsig_keys ?C d ! Suc 0" and ?sig = "ps_sig (tsig_sign_as ?C d s (Suc 0))" and ?cert = "tsig_cert ?C d s"
  have nonempty: "pad 32 a \<noteq> []" for a using length_pad [of 32 a] by (metis list.size(3) zero_neq_numeral)
  obtain a where a: "?key = pad 32 a" "?sig = pad 32 a @ tsig_state_message s"
    by (rule that [of "ek_signing_key (tsig_kps d ! 1)"])
      (simp_all add: tsig_keys_def tsig_sign_as_def tsig_sign_def tsig_kps_def tsig_state_message_def
        epoch_verifying_key_bytes_def sign_message_def)
  have 1: "\<not> partial_valid ?C ?key (tsig_state_message s) (flip_top ?sig)"
    using flip_top_neq [of ?sig] nonempty [of a] by (simp add: partial_valid_def a)
  have 2: "\<not> partial_valid ?C (flip_first ?key) (tsig_state_message s) ?sig"
    using flip_first_neq [OF nonempty [of a]] by (auto simp: partial_valid_def a)
  have "flip_first (zeros 32) \<noteq> zeros 32" by (rule flip_first_neq) (simp add: zeros_def)
  then have 3: "\<not> partial_valid ?C ?key (tsig_state_message (s\<lparr>st_prev_epoch_hash := flip_first (st_prev_epoch_hash s)\<rparr>)) ?sig"
    using assms(2) by (auto simp: partial_valid_def a tsig_state_message_def tsig_epoch_signing_message_def)
  have "saturating_add 7 1 = (8 :: u64)" by (simp add: saturating_add_def)
  moreover have "length (epoch_verifying_key_bytes ?C k) = 32" for k by (simp add: epoch_verifying_key_bytes_def)
  ultimately have 4: "verify_epoch_cert ?C (root_verifying_key_bytes ?C (tsig_root_kp d))
      (?cert\<lparr>ec_epoch := saturating_add (st_epoch s) 1\<rparr>) \<noteq> Inr ()"
    using epoch_cert_message_inj [of "epoch_verifying_key_bytes ?C (hd (tsig_kps d))" "epoch_verifying_key_bytes ?C (hd (tsig_kps d))" 7
      TSIG_VALIDITY_WINDOW 8] assms(1)
    by (auto simp: verify_epoch_cert_def tsig_cert_def issue_epoch_cert_def check_signature_ok root_verifying_key_bytes_def
        tsig_keys_def tsig_kps_def Let_def)
  from 1 2 3 4 show ?thesis by (simp add: tsig_tampering_detected_def Let_def)
qed

text \<open>
  C38. The exact outcome of the threshold target. \<open>fuzz_tsig_cert_chain_semantic.rs\<close> seals under a two-of-three
  verifier and then changes one piece of evidence per round. It panics exactly when one of the first
  twelve input bytes is 8 modulo 9: that round only changes the transparency proof that the caller holds,
  which verifying rejects and opening never reads, as it takes the proof from the object's wrapper. All
  other changes are refused by both, given that Ed25519 refuses the changed signatures.
\<close>

theorem threshold_target_is_characterised:
  assumes "crypto_correct C" "sig_correct C" "aead_accepts C" "sha_32 C"
    and "tsig_tampering_detected C (bounded data) (tsig_committed C (bounded data))"
  shows "fuzz_tsig_cert_chain_semantic C std_rng os data =
    (if \<exists>b \<in> set (take 12 (bounded data)). b mod 9 = 8
     then Panicked ''open_with_verifier(..).is_err()'' else Passed)"
  using assms by (rule tsig_target_outcome)

theorem threshold_target_is_characterised_witness:
  "fuzz_tsig_cert_chain_semantic signing_crypto (\<lambda>seed. sample_rng) (\<lambda>i. sample_rng) [0, 1, 2, 3, 4, 5, 6, 7] = Passed \<and>
   fuzz_tsig_cert_chain_semantic signing_crypto (\<lambda>seed. sample_rng) (\<lambda>i. sample_rng) [7, 8]
     = Panicked ''open_with_verifier(..).is_err()''"
proof -
  have detected: "tsig_tampering_detected signing_crypto d (tsig_committed signing_crypto d)" for d
    by (rule signing_detects) (simp_all add: tsig_committed_def tsig_state_def build_state_def TSIG_EPOCH_def)
  note run = threshold_target_is_characterised [OF signing_crypto_facts(2,3,4,1) detected]
  show ?thesis using run [of _ _ "[0, 1, 2, 3, 4, 5, 6, 7]"] run [of _ _ "[7, 8]"] by (simp add: bounded_def MAX_SLICE_LEN_def)
qed

text \<open>
  C39. The exact inputs on which the delegation target panics. \<open>fuzz_delegation_chain_semantic.rs\<close> delegates a
  capability along a chain and expects four kinds of excess to be refused. Its loop is the automaton
  \<open>inverts\<close> on the window's length and on whether the capability may be delegated: a delegation by selector
  byte \<open>b\<close> leaves a window of \<open>b\<close> modulo 8 more epochs, or what is left of it, and keeps the right to delegate if \<open>b\<close> is even.
  The target panics on the inverted window if and only if that step meets a delegable capability for a
  single epoch, whose window is its own inversion. Otherwise it passes; the one other assertion that could
  fail needs a capability whose leaf digest is zero.
\<close>

theorem delegation_target_is_characterised:
  fixes C std_rng os data
  defines "run \<equiv> fuzz_delegation_chain_semantic C std_rng os data"
    and "sels \<equiv> map unat (take 12 (drop 12 (bounded data)))"
  assumes "crypto_correct C"
  shows "(run = Panicked ''inverted window must reject'' \<longleftrightarrow> inverts 511 True sels) \<and>
    (\<not> inverts 511 True sels \<longrightarrow>
      run = Passed \<or> run = Panicked ''tampered direct'' \<and> (\<exists>cap. capability_leaf_hash C cap = zeros 32))"
  unfolding run_def sels_def by (rule delegation_target_outcome [OF assms(3)])

theorem delegation_target_is_characterised_witness:
  "fuzz_delegation_chain_semantic tagged_crypto (\<lambda>seed. sample_rng) (\<lambda>i. sample_rng) (replicate 12 0 @ [10, 1, 20, 30, 3])
     = Panicked ''inverted window must reject'' \<and>
   fuzz_delegation_chain_semantic tagged_crypto (\<lambda>seed. sample_rng) (\<lambda>i. sample_rng) (replicate 12 0 @ [10, 3, 1, 5, 3, 0, 3])
     = Passed"
proof -
  note run = delegation_target_is_characterised [OF tagged_crypto_facts(2), of "\<lambda>seed. sample_rng" "\<lambda>i. sample_rng"]
  have data: "map unat (take 12 (drop 12 (bounded (replicate 12 0 @ xs)))) = map unat xs" if "length xs \<le> 12" for xs
    using that by (simp add: bounded_def MAX_SLICE_LEN_def)
  have "inverts 511 True (map unat [10, 1, 20, 30, 3 :: byte])" "\<not> inverts 511 True (map unat [10, 3, 1, 5, 3, 0, 3 :: byte])"
    by simp_all
  moreover have "capability_leaf_hash tagged_crypto cap \<noteq> zeros 32" for cap
    by (simp add: capability_leaf_hash_def tagged_crypto_def zeros_def replicate_32)
  ultimately show ?thesis
    using run [of "replicate 12 0 @ [10, 1, 20, 30, 3]"] run [of "replicate 12 0 @ [10, 3, 1, 5, 3, 0, 3]"]
    by (simp only: data list.size) auto
qed



end
